(* ===== verification/Xtcp_Prelude.thy ===== *)
theory Xtcp_Prelude
  imports Main "HOL-Library.Word" "HOL-Library.Monad_Syntax" "HOL-Library.Signed_Division"
begin

text \<open>
  Prelude of the development: the machine types of the C sources, the named collections of
  simplification and introduction rules that the component theories extend, and the generic facts on
  lists that are used by more than one component.

  Conventions. \<open>uint8_t\<close>, \<open>uint16_t\<close>, \<open>uint32_t\<close> and
  \<open>unsigned\<close> are words of their width. \<open>int32_t\<close> is \<open>int\<close>: signed
  overflow is undefined in C, so every theory that does arithmetic on such a value states the bound
  that keeps it inside \<open>int32_range\<close>. A pointer is \<open>None\<close> (NULL) or
  \<open>Some a\<close>. An operation that dereferences a pointer or leaves an array is
  option-valued, and \<open>None\<close> is undefined behaviour (or, for a loop over a chain of
  pointers, not returning); an error code of the API is an ordinary value.
\<close>

type_synonym u8 = "8 word"
type_synonym u16 = "16 word"
type_synonym u32 = "32 word"

type_synonym addr = nat
type_synonym ptr = "addr option"

text \<open>
  Rules that step over one operation of a handler, with the operation as first premise: the control
  state (\<open>ctl_steps\<close>) and the memory (\<open>mem_steps\<close>) stay in order. The components declare
  theirs, and the proofs about handlers hand the whole collection to the prover.
\<close>

named_theorems ctl_steps "one operation keeps the control invariant"
named_theorems mem_steps "one operation keeps the memory in order"

section \<open>Conversions between the widths\<close>

definition int32_range :: "int \<Rightarrow> bool" where
  "int32_range i \<longleftrightarrow> - (2 ^ 31) \<le> i \<and> i < 2 ^ 31"

definition int32_of_u32 :: "u32 \<Rightarrow> int" where
  "int32_of_u32 w = sint w"

definition u16_of_u32 :: "u32 \<Rightarrow> u16" where
  "u16_of_u32 w = ucast w"

lemma int32_of_u32_small:
  assumes "unat w < 2 ^ 31"
  shows "int32_of_u32 w = int (unat w)"
proof -
  define n where "n = unat w"
  have "int n < 2 ^ 31" using assms unfolding n_def [symmetric] by simp
  then have "signed_take_bit 31 (int n) = int n"
    by (intro signed_take_bit_int_eq_self) auto
  then show ?thesis by (simp add: n_def int32_of_u32_def sint_uint)
qed

lemma unat_u16_of_u32: "unat (u16_of_u32 w) = unat w mod 2 ^ 16"
  by (simp add: u16_of_u32_def unsigned_ucast_eq take_bit_eq_mod)

section \<open>Lists and rotations\<close>

text \<open>
  A ring buffer with capacity \<open>length xs\<close> and head \<open>h\<close> is read through
  \<open>rotate h xs\<close>: its live part is a prefix of that list.
\<close>

lemma add_mod_cancel:
  fixes h k i n :: nat
  assumes "k < n" "i < n" "k \<le> i" "(h + k) mod n = (h + i) mod n"
  shows "k = i"
proof -
  have "n dvd i - k"
    using assms mod_eq_dvd_iff_nat [of "h + k" "h + i" n] by simp
  with assms show ?thesis using nat_dvd_not_less [of "i - k" n] by linarith
qed

lemma add_mod_inject:
  fixes h k i n :: nat
  assumes "k < n" "i < n"
  shows "(h + k) mod n = (h + i) mod n \<longleftrightarrow> k = i"
  using add_mod_cancel [of k n i h] add_mod_cancel [of i n k h] assms by force

lemma rotate_list_update:
  assumes "k < length xs"
  shows "rotate h (xs[(h + k) mod length xs := v]) = (rotate h xs)[k := v]"
proof (rule nth_equalityI)
  fix i
  assume "i < length (rotate h (xs[(h + k) mod length xs := v]))"
  then have i: "i < length xs" by simp
  have "(h + k) mod length xs = (h + i) mod length xs \<longleftrightarrow> k = i"
    using assms i by (rule add_mod_inject)
  moreover have "(h + k) mod length xs < length xs"
    using assms by (intro mod_less_divisor) linarith
  ultimately show "rotate h (xs[(h + k) mod length xs := v]) ! i = (rotate h xs)[k := v] ! i"
    using i assms by (simp add: nth_rotate nth_list_update)
qed simp

lemma take_rotate_Suc:
  assumes "n < length xs"
  shows "take n (rotate (Suc h) xs) = tl (take (Suc n) (rotate h xs))"
proof -
  from assms have "rotate h xs \<noteq> []" by auto
  then have "rotate (Suc h) xs = tl (rotate h xs) @ [hd (rotate h xs)]"
    by (simp add: rotate1_hd_tl)
  then show ?thesis using assms by (simp add: tl_take)
qed

lemma take_update_Suc:
  "n < length xs \<Longrightarrow> take (Suc n) (xs[n := v]) = take n xs @ [v]"
  by (simp add: take_Suc_conv_app_nth)

lemma Some_eq_map_option_iff:
  "Some y = map_option f x \<longleftrightarrow> (\<exists>z. x = Some z \<and> y = f z)"
  by (cases x) auto

end
