(* ===== verification/Xtcp_Types.thy ===== *)
theory Xtcp_Types
  imports Xtcp_Prelude
begin

text \<open>
  The data types of \<open>lib_xtcp/api/xtcp.h\<close>: addresses and hosts, protocols, events, error
  codes, socket levels and options, and the build-time limits of the library. The limits that a
  build may override (\<open>MAX_XTCP_CLIENTS\<close>, \<open>CLIENT_QUEUE_SIZE\<close>) and the ones
  that lwIP's option header defines (\<open>MEMP_NUM_UDP_PCB\<close>,
  \<open>MEMP_NUM_TCP_PCB\<close>) are fields of a configuration record that every operation takes.
\<close>

type_synonym xtcp_ipaddr_t = "u8 \<times> u8 \<times> u8 \<times> u8"

fun xtcp_ipaddr_cpy :: "xtcp_ipaddr_t \<Rightarrow> xtcp_ipaddr_t \<Rightarrow> xtcp_ipaddr_t" where
  "xtcp_ipaddr_cpy dest (s0, s1, s2, s3) = (s0, s1, s2, s3)"

fun xtcp_ipaddr_cmp :: "xtcp_ipaddr_t \<Rightarrow> xtcp_ipaddr_t \<Rightarrow> bool" where
  "xtcp_ipaddr_cmp (a0, a1, a2, a3) (b0, b1, b2, b3) \<longleftrightarrow> a0 = b0 \<and> a1 = b1 \<and> a2 = b2 \<and> a3 = b3"

lemma xtcp_ipaddr_cmp_cpy: "xtcp_ipaddr_cmp a b \<longleftrightarrow> a = xtcp_ipaddr_cpy a b"
  by (cases a; cases b) simp

record xtcp_host_t =
  ipaddr :: xtcp_ipaddr_t
  port_number :: u16

record xtcp_ipconfig_t =
  cfg_ipaddr :: xtcp_ipaddr_t
  cfg_netmask :: xtcp_ipaddr_t
  cfg_gateway :: xtcp_ipaddr_t

datatype xtcp_protocol_t = XTCP_PROTOCOL_NONE | XTCP_PROTOCOL_TCP | XTCP_PROTOCOL_UDP

datatype xtcp_event_type_t =
    XTCP_EVENT_NONE
  | XTCP_NEW_CONNECTION
  | XTCP_ACCEPTED
  | XTCP_RECV_DATA
  | XTCP_RECV_FROM_DATA
  | XTCP_SENT_DATA
  | XTCP_RESEND_DATA
  | XTCP_TIMED_OUT
  | XTCP_ABORTED
  | XTCP_CLOSED
  | XTCP_IFUP
  | XTCP_IFDOWN
  | XTCP_DNS_RESULT

datatype xtcp_error_code_t =
    XTCP_SUCCESS
  | XTCP_EINVAL
  | XTCP_ENOMEM
  | XTCP_EAGAIN
  | XTCP_EPROTONOSUPPORT
  | XTCP_EINUSE

text \<open>The enumerators' values, which the code uses where it stores a code in an \<open>int32_t\<close>.\<close>

fun error_code :: "xtcp_error_code_t \<Rightarrow> int" where
  "error_code XTCP_SUCCESS = 0"
| "error_code XTCP_EINVAL = -1"
| "error_code XTCP_ENOMEM = -2"
| "error_code XTCP_EAGAIN = -3"
| "error_code XTCP_EPROTONOSUPPORT = -4"
| "error_code XTCP_EINUSE = -5"

lemma error_code_negative: "e \<noteq> XTCP_SUCCESS \<longleftrightarrow> error_code e < 0"
  by (cases e) simp_all

lemma error_code_inject: "error_code a = error_code b \<longleftrightarrow> a = b"
  by (cases a; cases b) simp_all

datatype xtcp_socket_level_t =
    XTCP_SOCKET_LEVEL_IP
  | XTCP_SOCKET_LEVEL_SOCKET
  | XTCP_SOCKET_LEVEL_TCP
  | XTCP_SOCKET_LEVEL_UDP

datatype xtcp_ip_socket_option_t =
    XTCP_IP_SOCKET_OPTION_TOS
  | XTCP_IP_SOCKET_OPTION_TTL
  | XTCP_IP_SOCKET_OPTION_MULTICAST_TTL
  | XTCP_IP_SOCKET_OPTION_MULTICAST_IF
  | XTCP_IP_SOCKET_OPTION_MULTICAST_LOOP

record xtcp_error_int32_t =
  status :: xtcp_error_code_t
  val :: int

abbreviation err_int32 :: "xtcp_error_code_t \<Rightarrow> int \<Rightarrow> xtcp_error_int32_t" where
  "err_int32 e v \<equiv> \<lparr>status = e, val = v\<rparr>"

section \<open>Build-time limits\<close>

record xtcp_config =
  MAX_XTCP_CLIENTS :: nat
  CLIENT_QUEUE_SIZE :: nat
  MEMP_NUM_UDP_PCB :: nat
  MEMP_NUM_TCP_PCB :: nat

definition MAX_OPEN_SOCKETS :: "xtcp_config \<Rightarrow> nat" where
  "MAX_OPEN_SOCKETS cfg = MEMP_NUM_UDP_PCB cfg + MEMP_NUM_TCP_PCB cfg"

definition default_config :: "nat \<Rightarrow> nat \<Rightarrow> xtcp_config" where
  "default_config udp tcp =
     \<lparr>MAX_XTCP_CLIENTS = 5, CLIENT_QUEUE_SIZE = 20, MEMP_NUM_UDP_PCB = udp, MEMP_NUM_TCP_PCB = tcp\<rparr>"

text \<open>
  What the C code needs of the limits: at least one queue slot and one socket (zero-length arrays
  are not C), and every sum of two indices still an \<open>int32_t\<close>.
\<close>

definition config_ok :: "xtcp_config \<Rightarrow> bool" where
  "config_ok cfg \<longleftrightarrow>
     MAX_XTCP_CLIENTS cfg < 2 ^ 30 \<and>
     0 < CLIENT_QUEUE_SIZE cfg \<and> CLIENT_QUEUE_SIZE cfg < 2 ^ 30 \<and>
     0 < MAX_OPEN_SOCKETS cfg \<and> MAX_OPEN_SOCKETS cfg < 2 ^ 30"

lemma config_okD:
  assumes "config_ok cfg"
  shows "0 < CLIENT_QUEUE_SIZE cfg" "CLIENT_QUEUE_SIZE cfg < 2 ^ 30"
    "MAX_XTCP_CLIENTS cfg < 2 ^ 30" "0 < MAX_OPEN_SOCKETS cfg" "MAX_OPEN_SOCKETS cfg < 2 ^ 30"
  using assms by (simp_all add: config_ok_def)

end
