(* ===== verification/Lwip_Interface.thy ===== *)
theory Lwip_Interface
  imports Xtcp_Types
begin

text \<open>
  What \<open>lib_xtcp\<close> sees of the lwIP stack. lwIP is a submodule and not part of the
  sources, so its functions are the fields of a record \<open>lwip\<close> that the operations which
  call them take as an argument, and its private state is the type parameter \<open>'w\<close>. The
  structures whose fields \<open>lib_xtcp\<close> reads or writes itself (\<open>struct pbuf\<close>,
  \<open>struct ip_pcb\<close>, \<open>struct tcp_pcb\<close>, \<open>struct udp_pcb\<close>) live in
  explicit heaps, each with the fields that the sources use; an address outside the heap is not
  allocated.

  Some lwIP functions call back into \<open>lib_xtcp\<close> while they run: packet input, the timers,
  and the allocation of a TCP control block, which may abort an older connection. These return an
  interaction tree \<open>lwip_prog\<close>: either they are done, or they make one callback with the
  current lwIP state and continue with the callback's return value.
\<close>

type_synonym ip_addr_t = xtcp_ipaddr_t

definition IP_ANY :: ip_addr_t where
  "IP_ANY = (0, 0, 0, 0)"

record pbuf =
  pb_next :: ptr
  pb_payload :: "u8 list"
  pb_tot_len :: u16
  pb_len :: u16
  pb_flags :: u8
  pb_timestamp :: u32
  pb_remote :: xtcp_host_t

text \<open>\<open>struct tcp_pcb\<close> and \<open>struct udp_pcb\<close> begin with the members of \<open>struct ip_pcb\<close>.\<close>

record ip_pcb =
  local_ip :: ip_addr_t
  remote_ip :: ip_addr_t
  tos :: u8
  ttl :: u8

record tcp_pcb = ip_pcb +
  tcp_local_port :: u16
  tcp_remote_port :: u16

record udp_pcb = ip_pcb +
  udp_local_port :: u16
  udp_remote_port :: u16
  udp_flags :: u8

record 'w lwip_state =
  pbufs :: "addr \<rightharpoonup> pbuf"
  tcp_pcbs :: "addr \<rightharpoonup> tcp_pcb"
  udp_pcbs :: "addr \<rightharpoonup> udp_pcb"
  world :: 'w

datatype err_t =
    ERR_OK
  | ERR_MEM
  | ERR_INPROGRESS
  | ERR_VAL
  | ERR_USE
  | ERR_ABRT
  | ERR_RST
  | ERR_CLSD
  | ERR_other int

datatype lwip_event =
    LWIP_EVENT_ACCEPT
  | LWIP_EVENT_SENT
  | LWIP_EVENT_RECV
  | LWIP_EVENT_CONNECTED
  | LWIP_EVENT_POLL
  | LWIP_EVENT_ERR

text \<open>
  The callbacks with the arguments lwIP passes: the registered \<open>void *arg\<close> (read back as
  an \<open>int32_t\<close>, or for DNS as an \<open>unsigned\<close>), and the callback's own.
\<close>

datatype lwip_callback =
    TcpEvent int ptr lwip_event ptr u16 err_t
  | UdpRecv int addr ptr "ip_addr_t option" u16
  | DnsFound "u8 list option" "ip_addr_t option" u32

datatype ('w, 'r) lwip_prog =
    Done 'r "'w lwip_state"
  | Call lwip_callback "'w lwip_state" "err_t \<Rightarrow> 'w lwip_state \<Rightarrow> ('w, 'r) lwip_prog"

record 'w lwip =
  pbuf_alloc :: "u16 \<Rightarrow> 'w lwip_state \<Rightarrow> ptr \<times> 'w lwip_state"
  pbuf_free :: "addr \<Rightarrow> 'w lwip_state \<Rightarrow> 'w lwip_state"
  udp_new_ip_type :: "'w lwip_state \<Rightarrow> ptr \<times> 'w lwip_state"
  udp_remove :: "addr \<Rightarrow> 'w lwip_state \<Rightarrow> 'w lwip_state"
  udp_bind :: "addr \<Rightarrow> ip_addr_t \<Rightarrow> u16 \<Rightarrow> 'w lwip_state \<Rightarrow> err_t \<times> 'w lwip_state"
  udp_connect :: "addr \<Rightarrow> ip_addr_t \<Rightarrow> u16 \<Rightarrow> 'w lwip_state \<Rightarrow> err_t \<times> 'w lwip_state"
  udp_recv :: "addr \<Rightarrow> int \<Rightarrow> 'w lwip_state \<Rightarrow> 'w lwip_state"
  udp_send :: "addr \<Rightarrow> addr \<Rightarrow> 'w lwip_state \<Rightarrow> err_t \<times> 'w lwip_state"
  udp_sendto :: "addr \<Rightarrow> addr \<Rightarrow> ip_addr_t \<Rightarrow> u16 \<Rightarrow> 'w lwip_state \<Rightarrow> err_t \<times> 'w lwip_state"
  tcp_new_ip_type :: "'w lwip_state \<Rightarrow> ('w, ptr) lwip_prog"
  tcp_close :: "addr \<Rightarrow> 'w lwip_state \<Rightarrow> 'w lwip_state"
  tcp_bind :: "addr \<Rightarrow> ip_addr_t \<Rightarrow> u16 \<Rightarrow> 'w lwip_state \<Rightarrow> err_t \<times> 'w lwip_state"
  tcp_listen :: "addr \<Rightarrow> 'w lwip_state \<Rightarrow> ptr \<times> 'w lwip_state"
  tcp_arg :: "addr \<Rightarrow> int \<Rightarrow> 'w lwip_state \<Rightarrow> 'w lwip_state"
  tcp_connect :: "addr \<Rightarrow> ip_addr_t \<Rightarrow> u16 \<Rightarrow> 'w lwip_state \<Rightarrow> err_t \<times> 'w lwip_state"
  tcp_setprio_min :: "addr \<Rightarrow> 'w lwip_state \<Rightarrow> 'w lwip_state"
  tcp_recved :: "ptr \<Rightarrow> u16 \<Rightarrow> 'w lwip_state \<Rightarrow> 'w lwip_state"
  tcp_write_copy :: "addr \<Rightarrow> u8 list \<Rightarrow> u16 \<Rightarrow> 'w lwip_state \<Rightarrow> err_t \<times> 'w lwip_state"
  tcp_output :: "addr \<Rightarrow> 'w lwip_state \<Rightarrow> err_t \<times> 'w lwip_state"
  igmp_joingroup :: "ip_addr_t \<Rightarrow> ip_addr_t \<Rightarrow> 'w lwip_state \<Rightarrow> err_t \<times> 'w lwip_state"
  igmp_leavegroup :: "ip_addr_t \<Rightarrow> ip_addr_t \<Rightarrow> 'w lwip_state \<Rightarrow> err_t \<times> 'w lwip_state"
  dns_setserver :: "nat \<Rightarrow> ip_addr_t \<Rightarrow> 'w lwip_state \<Rightarrow> 'w lwip_state"
  dns_gethostbyname :: "u8 list \<Rightarrow> u32 \<Rightarrow> 'w lwip_state \<Rightarrow> (err_t \<times> ip_addr_t) \<times> 'w lwip_state"
  udp_get_multicast_ttl :: "addr \<Rightarrow> 'w lwip_state \<Rightarrow> u8"
  udp_set_multicast_ttl :: "addr \<Rightarrow> u8 \<Rightarrow> 'w lwip_state \<Rightarrow> 'w lwip_state"
  udp_get_multicast_netif_index :: "addr \<Rightarrow> 'w lwip_state \<Rightarrow> u8"
  udp_set_multicast_netif_index :: "addr \<Rightarrow> u8 \<Rightarrow> 'w lwip_state \<Rightarrow> 'w lwip_state"
  udp_is_flag_set :: "addr \<Rightarrow> u8 \<Rightarrow> 'w lwip_state \<Rightarrow> u8"
  udp_set_flags :: "addr \<Rightarrow> u8 \<Rightarrow> 'w lwip_state \<Rightarrow> 'w lwip_state"

text \<open>The flag bits that the sources name; their values are lwIP's.\<close>

record lwip_flags =
  PBUF_FLAG_TX_TIMESTAMP :: u8
  UDP_FLAGS_CONNECTED :: u8
  UDP_FLAGS_MULTICAST_LOOP :: u8

section \<open>Chains of packet buffers\<close>

text \<open>\<open>chain h p as\<close>: following \<open>next\<close> from \<open>p\<close> visits exactly \<open>as\<close>.\<close>

primrec chain :: "(addr \<rightharpoonup> pbuf) \<Rightarrow> ptr \<Rightarrow> addr list \<Rightarrow> bool" where
  "chain h p [] \<longleftrightarrow> p = None"
| "chain h p (a # as) \<longleftrightarrow> p = Some a \<and> (\<exists>b. h a = Some b \<and> chain h (pb_next b) as)"

lemma chain_None [simp]: "chain h None as \<longleftrightarrow> as = []"
  by (cases as) auto

lemma chain_Some:
  "chain h (Some a) as \<longleftrightarrow> (\<exists>b bs. as = a # bs \<and> h a = Some b \<and> chain h (pb_next b) bs)"
  by (cases as) auto

lemma chain_unique: "chain h p as \<Longrightarrow> chain h p bs \<Longrightarrow> as = bs"
  by (induction as arbitrary: p bs) (auto simp: chain_Some)

lemma chain_frame: "chain h p as \<Longrightarrow> (\<And>a. a \<in> set as \<Longrightarrow> h' a = h a) \<Longrightarrow> chain h' p as"
  by (induction as arbitrary: p) auto

lemma chain_upd_other: "a \<notin> set as \<Longrightarrow> chain (h(a := v)) p as = chain h p as"
  by (induction as arbitrary: p) auto

lemma chain_suffix: "chain h p (as @ bs) \<Longrightarrow> \<exists>q. chain h q bs"
  by (induction as arbitrary: p) auto

text \<open>A chain cannot visit a buffer twice: it would be its own proper suffix.\<close>

lemma chain_distinct: "chain h p as \<Longrightarrow> distinct as"
proof (induction as arbitrary: p)
  case (Cons a as)
  then obtain b where b: "h a = Some b" "chain h (pb_next b) as" by auto
  have "a \<notin> set as"
  proof
    assume "a \<in> set as"
    then obtain xs ys where as: "as = xs @ a # ys" by (meson split_list)
    from b(2) obtain q where "chain h q (a # ys)" unfolding as using chain_suffix by blast
    then have "chain h (pb_next b) ys" using b(1) by auto
    with b(2) have "as = ys" by (rule chain_unique)
    with as show False by (metis append_Cons length_append length_Cons not_less_eq
        le_add2 less_Suc_eq_le)
  qed
  with Cons b show ?case by auto
qed simp

text \<open>Changing a buffer but not its link keeps every chain.\<close>

text \<open>Linking the last buffer of a chain to another chain joins the two.\<close>

lemma chain_link:
  assumes "chain h p (as @ [a])" "chain h q bs" "a \<notin> set bs" "h a = Some b"
  shows "chain (h(a \<mapsto> b\<lparr>pb_next := q\<rparr>)) p (as @ a # bs)"
proof -
  have "a \<notin> set as" using chain_distinct [OF assms(1)] by simp
  then show ?thesis using assms
    by (induction as arbitrary: p) (auto simp: chain_upd_other)
qed

text \<open>Taking a buffer out of the middle of a chain.\<close>

lemma chain_unlink:
  assumes "chain h p (xs @ q # a # ys)" "h q = Some bq" "h a = Some ba"
  shows "chain (h(q \<mapsto> bq\<lparr>pb_next := pb_next ba\<rparr>)) p (xs @ q # ys)"
proof -
  have d: "distinct (xs @ q # a # ys)" using assms(1) by (rule chain_distinct)
  from assms(1) obtain r where "chain h r (q # a # ys)" using chain_suffix by blast
  with assms(2,3) have ys: "chain h (pb_next ba) ys" by auto
  show ?thesis using assms d ys
    by (induction xs arbitrary: p) (auto simp: chain_upd_other)
qed

section \<open>Ownership of buffers\<close>

text \<open>
  lwIP hands a received buffer to the application, which keeps it until it passes it back to
  \<open>pbuf_free\<close>; meanwhile lwIP does not touch it. \<open>held\<close> reads from lwIP's private
  state which buffers are handed out. \<open>keeps held f\<close> says that a call leaves the buffers
  of the application alone.
\<close>

definition keeps :: "('w \<Rightarrow> addr set) \<Rightarrow> ('w lwip_state \<Rightarrow> 'w lwip_state) \<Rightarrow> bool" where
  "keeps held f \<longleftrightarrow>
     (\<forall>st. held (world (f st)) = held (world st) \<and>
        (\<forall>x \<in> held (world st). pbufs (f st) x = pbufs st x))"

definition frees_chain :: "('w \<Rightarrow> addr set) \<Rightarrow> (addr \<Rightarrow> 'w lwip_state \<Rightarrow> 'w lwip_state) \<Rightarrow> bool" where
  "frees_chain held free \<longleftrightarrow>
     (\<forall>st a as. chain (pbufs st) (Some a) as \<longrightarrow> set as \<subseteq> held (world st) \<longrightarrow>
        held (world (free a st)) = held (world st) - set as \<and>
        (\<forall>x \<in> held (world st) - set as. pbufs (free a st) x = pbufs st x))"

definition rx_contract :: "'w lwip \<Rightarrow> ('w \<Rightarrow> addr set) \<Rightarrow> bool" where
  "rx_contract L held \<longleftrightarrow> frees_chain held (pbuf_free L) \<and> (\<forall>t n. keeps held (tcp_recved L t n))"

lemma keepsD:
  "keeps held f \<Longrightarrow> held (world (f st)) = held (world st)"
  "keeps held f \<Longrightarrow> x \<in> held (world st) \<Longrightarrow> pbufs (f st) x = pbufs st x"
  by (simp_all add: keeps_def)

lemma frees_chainD:
  assumes "frees_chain held free" "chain (pbufs st) (Some a) as" "set as \<subseteq> held (world st)"
  shows "held (world (free a st)) = held (world st) - set as"
    "x \<in> held (world st) \<Longrightarrow> x \<notin> set as \<Longrightarrow> pbufs (free a st) x = pbufs st x"
  using assms unfolding frees_chain_def by blast+

end
