(* ===== verification/Connection.thy ===== *)
theory Connection
  imports Lwip_Interface
begin

text \<open>
  \<open>lib_xtcp/src/connection.c\<close>: the table of open sockets. The first section translates the
  file; every function takes and returns the state it reads and writes, and a function that
  dereferences a packet buffer or a control block is option-valued.
\<close>

section \<open>The module\<close>

record connection_entry_t =
  c_is_active :: int
  c_client_num :: u32
  c_protocol :: xtcp_protocol_t
  c_pcb :: ptr
  c_pbuf :: ptr
  c_client_data :: ptr

text \<open>
  The statics of the file (\<open>connections\<close>, and \<open>last_guid\<close> of
  \<open>assign_client_connection\<close>) with the lwIP state they point into.
\<close>

record 'w conn_state =
  connections :: "connection_entry_t list"
  last_guid :: int
  lw :: "'w lwip_state"

definition DEINIT :: u32 where
  "DEINIT = - 1"

definition in_range :: "xtcp_config \<Rightarrow> int \<Rightarrow> bool" where
  "in_range cfg index \<longleftrightarrow> 0 \<le> index \<and> index < int (MAX_OPEN_SOCKETS cfg)"

abbreviation conn :: "('w, 'z) conn_state_scheme \<Rightarrow> int \<Rightarrow> connection_entry_t" where
  "conn s index \<equiv> connections s ! nat index"

definition upd_conn ::
  "int \<Rightarrow> (connection_entry_t \<Rightarrow> connection_entry_t) \<Rightarrow> ('w, 'z) conn_state_scheme
     \<Rightarrow> ('w, 'z) conn_state_scheme" where
  "upd_conn index f s = s\<lparr>connections := (connections s)[nat index := f (conn s index)]\<rparr>"

definition upd_lw ::
  "('w lwip_state \<Rightarrow> 'w lwip_state) \<Rightarrow> ('w, 'z) conn_state_scheme \<Rightarrow> ('w, 'z) conn_state_scheme" where
  "upd_lw f s = s\<lparr>lw := f (lw s)\<rparr>"

definition store_pbuf ::
  "addr \<Rightarrow> pbuf \<Rightarrow> ('w, 'z) conn_state_scheme \<Rightarrow> ('w, 'z) conn_state_scheme" where
  "store_pbuf a b s = s\<lparr>lw := (lw s)\<lparr>pbufs := (pbufs (lw s))(a \<mapsto> b)\<rparr>\<rparr>"

definition deinit_entry :: connection_entry_t where
  "deinit_entry = \<lparr>c_is_active = 0, c_client_num = DEINIT, c_protocol = XTCP_PROTOCOL_NONE,
     c_pcb = None, c_pbuf = None, c_client_data = None\<rparr>"

definition init_client_connections ::
  "xtcp_config \<Rightarrow> ('w, 'z) conn_state_scheme \<Rightarrow> ('w, 'z) conn_state_scheme" where
  "init_client_connections cfg s =
     s\<lparr>connections := replicate (MAX_OPEN_SOCKETS cfg) deinit_entry\<rparr>"

primrec find_loop :: "connection_entry_t list \<Rightarrow> u32 \<Rightarrow> int \<Rightarrow> int \<Rightarrow> nat \<Rightarrow> int option" where
  "find_loop cs client_num i_d i 0 = None"
| "find_loop cs client_num i_d i (Suc k) =
     (if c_client_num (cs ! nat i) = client_num \<and> i = i_d then Some i
      else find_loop cs client_num i_d (i + 1) k)"

definition find_client_connection ::
  "xtcp_config \<Rightarrow> u32 \<Rightarrow> int \<Rightarrow> ('w, 'z) conn_state_scheme \<Rightarrow> xtcp_error_int32_t" where
  "find_client_connection cfg client_num i_d s =
     (case find_loop (connections s) client_num i_d 0 (MAX_OPEN_SOCKETS cfg) of
        Some i \<Rightarrow> err_int32 XTCP_SUCCESS i
      | None \<Rightarrow> err_int32 XTCP_EINVAL (-1))"

definition clear_pending_rx_data_on_connection ::
  "'w lwip \<Rightarrow> xtcp_config \<Rightarrow> int \<Rightarrow> ('w, 'z) conn_state_scheme \<Rightarrow> ('w, 'z) conn_state_scheme option" where
  "clear_pending_rx_data_on_connection L cfg index s =
     (if in_range cfg index
      then case c_pbuf (conn s index) of
             None \<Rightarrow> Some s
           | Some p \<Rightarrow> do {
               s \<leftarrow> (if c_protocol (conn s index) = XTCP_PROTOCOL_TCP
                     then do { b \<leftarrow> pbufs (lw s) p;
                               Some (upd_lw (tcp_recved L (c_pcb (conn s index)) (pb_tot_len b)) s) }
                     else Some s);
               let s = upd_lw (pbuf_free L p) s;
               Some (upd_conn index (\<lambda>c. c\<lparr>c_pbuf := None\<rparr>) s) }
      else Some s)"

definition free_client_connection ::
  "xtcp_config \<Rightarrow> int \<Rightarrow> ('w, 'z) conn_state_scheme \<Rightarrow> ('w, 'z) conn_state_scheme" where
  "free_client_connection cfg index s =
     (if in_range cfg index
      then upd_conn index (\<lambda>c. c\<lparr>c_is_active := 0, c_client_num := DEINIT,
             c_protocol := XTCP_PROTOCOL_NONE, c_pcb := None, c_client_data := None\<rparr>) s
      else s)"

text \<open>
  The search of \<open>assign_client_connection\<close> from \<open>last_guid\<close>: iteration
  \<open>i\<close>, \<open>k\<close> iterations to go.
\<close>

primrec assign_loop :: "connection_entry_t list \<Rightarrow> int \<Rightarrow> int \<Rightarrow> int \<Rightarrow> nat \<Rightarrow> int option" where
  "assign_loop cs max_open guid i 0 = None"
| "assign_loop cs max_open guid i (Suc k) =
     (let index = guid + i;
          index = (if index \<ge> max_open then index - max_open else index)
      in if c_is_active (cs ! nat index) = 0 then Some index
         else assign_loop cs max_open guid (i + 1) k)"

definition assign_client_connection ::
  "xtcp_config \<Rightarrow> u32 \<Rightarrow> xtcp_protocol_t \<Rightarrow> ('w, 'z) conn_state_scheme
     \<Rightarrow> xtcp_error_int32_t \<times> ('w, 'z) conn_state_scheme" where
  "assign_client_connection cfg client_num protocol s =
     (case assign_loop (connections s) (int (MAX_OPEN_SOCKETS cfg)) (last_guid s) 0
             (MAX_OPEN_SOCKETS cfg) of
        None \<Rightarrow> (err_int32 XTCP_ENOMEM (-1), s)
      | Some index \<Rightarrow>
          (err_int32 XTCP_SUCCESS index,
           upd_conn index (\<lambda>c. c\<lparr>c_is_active := 1, c_client_num := client_num,
             c_protocol := protocol, c_pcb := None\<rparr>) (s\<lparr>last_guid := index + 1\<rparr>)))"

definition is_active ::
  "xtcp_config \<Rightarrow> int \<Rightarrow> ('w, 'z) conn_state_scheme \<Rightarrow> xtcp_error_int32_t" where
  "is_active cfg index s =
     (if in_range cfg index then err_int32 XTCP_SUCCESS (c_is_active (conn s index))
      else err_int32 XTCP_EINVAL (-1))"

definition set_udp_pcb ::
  "xtcp_config \<Rightarrow> int \<Rightarrow> ptr \<Rightarrow> ('w, 'z) conn_state_scheme
     \<Rightarrow> xtcp_error_code_t \<times> ('w, 'z) conn_state_scheme" where
  "set_udp_pcb cfg index pcb s =
     (if in_range cfg index \<and> c_protocol (conn s index) = XTCP_PROTOCOL_UDP
      then (XTCP_SUCCESS, upd_conn index (\<lambda>c. c\<lparr>c_pcb := pcb\<rparr>) s)
      else (XTCP_EINVAL, s))"

definition set_tcp_pcb ::
  "xtcp_config \<Rightarrow> int \<Rightarrow> ptr \<Rightarrow> ('w, 'z) conn_state_scheme
     \<Rightarrow> xtcp_error_code_t \<times> ('w, 'z) conn_state_scheme" where
  "set_tcp_pcb cfg index pcb s =
     (if in_range cfg index \<and> c_protocol (conn s index) = XTCP_PROTOCOL_TCP
      then (XTCP_SUCCESS, upd_conn index (\<lambda>c. c\<lparr>c_pcb := pcb\<rparr>) s)
      else (XTCP_EINVAL, s))"

definition get_protocol :: "xtcp_config \<Rightarrow> int \<Rightarrow> ('w, 'z) conn_state_scheme \<Rightarrow> xtcp_protocol_t" where
  "get_protocol cfg index s =
     (if in_range cfg index then c_protocol (conn s index) else XTCP_PROTOCOL_NONE)"

definition get_udp_pcb :: "xtcp_config \<Rightarrow> int \<Rightarrow> ('w, 'z) conn_state_scheme \<Rightarrow> ptr" where
  "get_udp_pcb cfg index s =
     (if in_range cfg index \<and> c_protocol (conn s index) = XTCP_PROTOCOL_UDP
      then c_pcb (conn s index) else None)"

definition get_tcp_pcb :: "xtcp_config \<Rightarrow> int \<Rightarrow> ('w, 'z) conn_state_scheme \<Rightarrow> ptr" where
  "get_tcp_pcb cfg index s =
     (if in_range cfg index \<and> c_protocol (conn s index) = XTCP_PROTOCOL_TCP
      then c_pcb (conn s index) else None)"

definition get_client_info :: "xtcp_config \<Rightarrow> int \<Rightarrow> ('w, 'z) conn_state_scheme \<Rightarrow> u32" where
  "get_client_info cfg index s = (if in_range cfg index then c_client_num (conn s index) else DEINIT)"

text \<open>The walk to the last buffer of a chain, which only returns on a well-formed chain.\<close>

partial_function (option) last_pbuf :: "(addr \<rightharpoonup> pbuf) \<Rightarrow> addr \<Rightarrow> addr option" where
  "last_pbuf h a =
     (case h a of None \<Rightarrow> None
      | Some b \<Rightarrow> (case pb_next b of None \<Rightarrow> Some a | Some a' \<Rightarrow> last_pbuf h a'))"

definition set_remote ::
  "xtcp_config \<Rightarrow> int \<Rightarrow> ip_addr_t option \<Rightarrow> u16 \<Rightarrow> ptr \<Rightarrow> ('w, 'z) conn_state_scheme
     \<Rightarrow> (xtcp_error_code_t \<times> ('w, 'z) conn_state_scheme) option" where
  "set_remote cfg index remote port pbuf s =
     (if in_range cfg index
      then case pbuf of
             None \<Rightarrow> Some (XTCP_EINVAL, s)
           | Some p \<Rightarrow> do {
               b \<leftarrow> pbufs (lw s) p;
               let b = b\<lparr>pb_remote := (pb_remote b)\<lparr>ipaddr :=
                         (case remote of Some r \<Rightarrow> r | None \<Rightarrow> (0, 0, 0, 0))\<rparr>\<rparr>;
               let b = b\<lparr>pb_remote := (pb_remote b)\<lparr>port_number := port\<rparr>\<rparr>;
               let s = store_pbuf p b s;
               (case c_pbuf (conn s index) of
                  Some q \<Rightarrow> do {
                    pbuf_queue \<leftarrow> last_pbuf (pbufs (lw s)) q;
                    b' \<leftarrow> pbufs (lw s) pbuf_queue;
                    Some (XTCP_SUCCESS, store_pbuf pbuf_queue (b'\<lparr>pb_next := Some p\<rparr>) s) }
                | None \<Rightarrow> Some (XTCP_SUCCESS, upd_conn index (\<lambda>c. c\<lparr>c_pbuf := Some p\<rparr>) s)) }
      else Some (XTCP_EINVAL, s))"

definition no_host :: xtcp_host_t where
  "no_host = \<lparr>ipaddr = (0, 0, 0, 0), port_number = 0\<rparr>"

definition get_remote_from_pcb ::
  "xtcp_config \<Rightarrow> int \<Rightarrow> ('w, 'z) conn_state_scheme \<Rightarrow> xtcp_host_t option" where
  "get_remote_from_pcb cfg index s =
     (if in_range cfg index
      then if c_protocol (conn s index) = XTCP_PROTOCOL_TCP
           then case get_tcp_pcb cfg index s of
                  None \<Rightarrow> Some no_host
                | Some a \<Rightarrow> map_option (\<lambda>t. \<lparr>ipaddr = remote_ip t, port_number = tcp_remote_port t\<rparr>)
                             (tcp_pcbs (lw s) a)
           else if c_protocol (conn s index) = XTCP_PROTOCOL_UDP
           then case get_udp_pcb cfg index s of
                  None \<Rightarrow> Some no_host
                | Some a \<Rightarrow> map_option (\<lambda>u. \<lparr>ipaddr = remote_ip u, port_number = udp_remote_port u\<rparr>)
                             (udp_pcbs (lw s) a)
           else Some no_host
      else Some no_host)"

definition get_local_from_pcb ::
  "xtcp_config \<Rightarrow> int \<Rightarrow> ('w, 'z) conn_state_scheme \<Rightarrow> xtcp_host_t option" where
  "get_local_from_pcb cfg index s =
     (if in_range cfg index
      then if c_protocol (conn s index) = XTCP_PROTOCOL_TCP
           then case get_tcp_pcb cfg index s of
                  None \<Rightarrow> Some no_host
                | Some a \<Rightarrow> map_option (\<lambda>t. \<lparr>ipaddr = local_ip t, port_number = tcp_local_port t\<rparr>)
                             (tcp_pcbs (lw s) a)
           else if c_protocol (conn s index) = XTCP_PROTOCOL_UDP
           then case get_udp_pcb cfg index s of
                  None \<Rightarrow> Some no_host
                | Some a \<Rightarrow> map_option (\<lambda>u. \<lparr>ipaddr = local_ip u, port_number = udp_local_port u\<rparr>)
                             (udp_pcbs (lw s) a)
           else Some no_host
      else Some no_host)"

definition get_remote ::
  "xtcp_config \<Rightarrow> int \<Rightarrow> ('w, 'z) conn_state_scheme \<Rightarrow> xtcp_host_t option" where
  "get_remote cfg index s =
     (if in_range cfg index
      then case c_pbuf (conn s index) of
             None \<Rightarrow> Some no_host
           | Some p \<Rightarrow> map_option pb_remote (pbufs (lw s) p)
      else Some no_host)"

text \<open>
  The out-parameters are results: the payload that \<open>*data\<close> is pointed at (\<open>None\<close>
  where it is left alone) and the word stored through \<open>timestamp\<close> (\<open>None\<close> for a
  NULL pointer, \<open>want_ts\<close> false).
\<close>

definition get_remote_data ::
  "xtcp_config \<Rightarrow> int \<Rightarrow> int \<Rightarrow> bool \<Rightarrow> ('w, 'z) conn_state_scheme
     \<Rightarrow> (xtcp_error_int32_t \<times> u8 list option \<times> u32 option) option" where
  "get_remote_data cfg index len want_ts s =
     (let ts = (if want_ts then Some 0 else None) in
      if in_range cfg index
      then case c_pbuf (conn s index) of
             None \<Rightarrow> Some (err_int32 XTCP_EINVAL (-1), None, ts)
           | Some p \<Rightarrow> do {
               b \<leftarrow> pbufs (lw s) p;
               let (result, data) =
                 (if len < int (unat (pb_len b)) then (err_int32 XTCP_EAGAIN (-1), None)
                  else (err_int32 XTCP_SUCCESS (int (unat (pb_len b))), Some (pb_payload b)));
               Some (result, data, if want_ts then Some (pb_timestamp b) else None) }
      else Some (err_int32 XTCP_EINVAL (-1), None, ts))"

definition free_remote_data ::
  "'w lwip \<Rightarrow> xtcp_config \<Rightarrow> int \<Rightarrow> ('w, 'z) conn_state_scheme
     \<Rightarrow> (xtcp_error_code_t \<times> ('w, 'z) conn_state_scheme) option" where
  "free_remote_data L cfg index s =
     (if in_range cfg index
      then case c_pbuf (conn s index) of
             None \<Rightarrow> Some (XTCP_EINVAL, s)
           | Some p \<Rightarrow> do {
               b \<leftarrow> pbufs (lw s) p;
               let len = pb_len b;
               let s = upd_conn index (\<lambda>c. c\<lparr>c_pbuf := pb_next b\<rparr>) s;
               let s = store_pbuf p (b\<lparr>pb_next := None\<rparr>) s;
               let s = upd_lw (pbuf_free L p) s;
               let s = (if c_protocol (conn s index) = XTCP_PROTOCOL_TCP
                        then case get_tcp_pcb cfg index s of
                               None \<Rightarrow> s
                             | Some t \<Rightarrow> upd_lw (tcp_recved L (Some t) len) s
                        else s);
               Some (XTCP_SUCCESS, s) }
      else Some (XTCP_EINVAL, s))"

text \<open>
  The search of \<open>unlink_remote\<close> along the chain, from a current buffer that is not NULL:
  \<open>Some (Some previous)\<close> when the buffer is found, \<open>Some None\<close> when the chain ends
  without it; \<open>None\<close> is a chain that leaves the heap or does not end.
\<close>

partial_function (option) find_pbuf ::
  "(addr \<rightharpoonup> pbuf) \<Rightarrow> addr \<Rightarrow> addr \<Rightarrow> ptr \<Rightarrow> ptr option option" where
  "find_pbuf h target current previous =
     (if current = target then Some (Some previous)
      else do {
        b \<leftarrow> h current;
        (case pb_next b of None \<Rightarrow> Some None | Some a \<Rightarrow> find_pbuf h target a (Some current)) })"

definition unlink_remote ::
  "xtcp_config \<Rightarrow> int \<Rightarrow> ptr \<Rightarrow> ('w, 'z) conn_state_scheme
     \<Rightarrow> (xtcp_error_code_t \<times> ('w, 'z) conn_state_scheme) option" where
  "unlink_remote cfg index pbuf s =
     (if in_range cfg index
      then case pbuf of
             None \<Rightarrow> Some (XTCP_EINVAL, s)
           | Some p \<Rightarrow> do {
               found \<leftarrow> (case c_pbuf (conn s index) of
                          None \<Rightarrow> Some None
                        | Some a \<Rightarrow> find_pbuf (pbufs (lw s)) p a None);
               (case found of
                  None \<Rightarrow> Some (XTCP_EINVAL, s)
                | Some previous \<Rightarrow> do {
                    b \<leftarrow> pbufs (lw s) p;
                    s \<leftarrow> (case previous of
                            None \<Rightarrow> Some (upd_conn index (\<lambda>c. c\<lparr>c_pbuf := pb_next b\<rparr>) s)
                          | Some q \<Rightarrow> do {
                              b' \<leftarrow> pbufs (lw s) q;
                              Some (store_pbuf q (b'\<lparr>pb_next := pb_next b\<rparr>) s) });
                    b \<leftarrow> pbufs (lw s) p;
                    Some (XTCP_SUCCESS, store_pbuf p (b\<lparr>pb_next := None\<rparr>) s) }) }
      else Some (XTCP_EINVAL, s))"

definition set_connection_client_data ::
  "xtcp_config \<Rightarrow> int \<Rightarrow> ptr \<Rightarrow> ('w, 'z) conn_state_scheme
     \<Rightarrow> xtcp_error_code_t \<times> ('w, 'z) conn_state_scheme" where
  "set_connection_client_data cfg index data s =
     (if in_range cfg index
      then (XTCP_SUCCESS, upd_conn index (\<lambda>c. c\<lparr>c_client_data := data\<rparr>) s)
      else (XTCP_EINVAL, s))"

definition get_connection_client_data ::
  "xtcp_config \<Rightarrow> int \<Rightarrow> ('w, 'z) conn_state_scheme \<Rightarrow> ptr" where
  "get_connection_client_data cfg index s =
     (if in_range cfg index then c_client_data (conn s index) else None)"

end
