(* ===== verification/Socket_Table_Spec.thy ===== *)
theory Socket_Table_Spec
  imports Xtcp_Types
begin

text \<open>
  The contract of the socket table of \<open>lib_xtcp/src/connection.h\<close>. A table is seen as a
  finite map from socket ids to the owning client and protocol; \<open>socket_table\<close> states what
  allocation, lookup and release promise, and derives the facts its clients use.
\<close>

type_synonym owner_map = "int \<rightharpoonup> u32 \<times> xtcp_protocol_t"

locale socket_table =
  fixes assign :: "u32 \<Rightarrow> xtcp_protocol_t \<Rightarrow> 's \<Rightarrow> xtcp_error_int32_t \<times> 's"
    and find :: "u32 \<Rightarrow> int \<Rightarrow> 's \<Rightarrow> xtcp_error_int32_t"
    and release :: "int \<Rightarrow> 's \<Rightarrow> 's"
    and owner :: "'s \<Rightarrow> owner_map"
    and ids :: "int set"
    and client :: "u32 \<Rightarrow> bool"
    and inv :: "'s \<Rightarrow> bool"
  assumes finite_ids: "finite ids"
    and owner_ids: "inv s \<Longrightarrow> dom (owner s) \<subseteq> ids"
    and find_law: "inv s \<Longrightarrow> client c \<Longrightarrow>
        find c i s = (if \<exists>p. owner s i = Some (c, p) then err_int32 XTCP_SUCCESS i
                      else err_int32 XTCP_EINVAL (-1))"
    and assign_law: "inv s \<Longrightarrow> client c \<Longrightarrow> assign c p s = (r, s') \<Longrightarrow>
        inv s' \<and>
        (if dom (owner s) = ids then r = err_int32 XTCP_ENOMEM (-1) \<and> s' = s
         else status r = XTCP_SUCCESS \<and> val r \<in> ids \<and> owner s (val r) = None \<and>
              owner s' = (owner s)(val r \<mapsto> (c, p)))"
    and release_law: "inv s \<Longrightarrow> inv (release i s) \<and> owner (release i s) = (owner s)(i := None)"
begin

lemma find_success_iff:
  "inv s \<Longrightarrow> client c \<Longrightarrow> status (find c i s) = XTCP_SUCCESS \<longleftrightarrow> (\<exists>p. owner s i = Some (c, p))"
  by (simp add: find_law)

lemma assign_then_find:
  assumes "inv s" "client c" "assign c p s = (r, s')" "status r = XTCP_SUCCESS"
  shows "find c (val r) s' = err_int32 XTCP_SUCCESS (val r)"
    and "client d \<Longrightarrow> d \<noteq> c \<Longrightarrow> find d (val r) s' = err_int32 XTCP_EINVAL (-1)"
    and "client d \<Longrightarrow> j \<noteq> val r \<Longrightarrow> find d j s' = find d j s"
  using assms assign_law [OF assms(1-3)]
  by (auto simp: find_law split: if_splits)

lemma release_then_find:
  assumes "inv s" "client c"
  shows "find c i (release i s) = err_int32 XTCP_EINVAL (-1)"
    and "j \<noteq> i \<Longrightarrow> find c j (release i s) = find c j s"
  using assms release_law [OF assms(1), of i] by (auto simp: find_law)

lemma assign_success_iff:
  assumes "inv s" "client c" "assign c p s = (r, s')"
  shows "status r = XTCP_SUCCESS \<longleftrightarrow> card (dom (owner s)) < card ids"
proof -
  have "dom (owner s) = ids \<longleftrightarrow> \<not> card (dom (owner s)) < card ids"
    using owner_ids [OF assms(1)] finite_ids
    by (metis card_mono card_seteq le_antisym linorder_not_less order_refl)
  then show ?thesis using assign_law [OF assms] by auto
qed

lemma assign_card:
  assumes "inv s" "client c" "assign c p s = (r, s')" "status r = XTCP_SUCCESS"
  shows "card (dom (owner s')) = Suc (card (dom (owner s)))"
proof -
  have "finite (dom (owner s))"
    using owner_ids [OF assms(1)] finite_ids by (rule finite_subset)
  with assign_law [OF assms(1-3)] assms(4) show ?thesis
    by (auto simp: domIff split: if_splits)
qed

end

end
