(* ===== verification/Connection_Table.thy ===== *)
theory Connection_Table
  imports Connection Socket_Table_Spec
begin

text \<open>
  The socket table of \<open>connection.c\<close> against its contract: the invariant of the entries, the
  two search loops, and the interpretation of the interface on the module's functions.
\<close>

section \<open>Invariant and abstraction\<close>

definition entry_ok :: "connection_entry_t \<Rightarrow> bool" where
  "entry_ok e \<longleftrightarrow>
     (c_is_active e = 0 \<and> c_client_num e = DEINIT \<and> c_protocol e = XTCP_PROTOCOL_NONE \<and>
        c_pcb e = None \<and> c_client_data e = None) \<or>
     (c_is_active e = 1 \<and> c_client_num e \<noteq> DEINIT)"

definition table_inv :: "xtcp_config \<Rightarrow> ('w, 'z) conn_state_scheme \<Rightarrow> bool" where
  "table_inv cfg s \<longleftrightarrow>
     config_ok cfg \<and> length (connections s) = MAX_OPEN_SOCKETS cfg \<and>
     0 \<le> last_guid s \<and> last_guid s \<le> int (MAX_OPEN_SOCKETS cfg) \<and>
     (\<forall>e \<in> set (connections s). entry_ok e)"

definition owner :: "xtcp_config \<Rightarrow> ('w, 'z) conn_state_scheme \<Rightarrow> owner_map" where
  "owner cfg s i =
     (if in_range cfg i \<and> c_is_active (conn s i) \<noteq> 0
      then Some (c_client_num (conn s i), c_protocol (conn s i)) else None)"

definition socket_ids :: "xtcp_config \<Rightarrow> int set" where
  "socket_ids cfg = {0..<int (MAX_OPEN_SOCKETS cfg)}"

lemma in_range_socket_ids: "in_range cfg i \<longleftrightarrow> i \<in> socket_ids cfg"
  by (simp add: in_range_def socket_ids_def)

lemma table_inv_entry:
  "table_inv cfg s \<Longrightarrow> in_range cfg i \<Longrightarrow> entry_ok (conn s i)"
  by (simp add: table_inv_def in_range_def nth_mem nat_less_iff)

lemma upd_conn_simps [simp]:
  "length (connections (upd_conn i f s)) = length (connections s)"
  "last_guid (upd_conn i f s) = last_guid s" "lw (upd_conn i f s) = lw s"
  by (simp_all add: upd_conn_def)

lemma conn_upd_conn:
  assumes "table_inv cfg s" "in_range cfg i" "0 \<le> j"
  shows "conn (upd_conn i f s) j = (if j = i then f (conn s i) else conn s j)"
  using assms by (auto simp: upd_conn_def table_inv_def in_range_def nth_list_update nat_eq_iff)

lemma table_inv_upd_conn:
  assumes "table_inv cfg s" "in_range cfg i" "entry_ok (f (conn s i))"
  shows "table_inv cfg (upd_conn i f s)"
  using assms set_update_subset_insert [of "connections s" "nat i" "f (conn s i)"]
  by (auto simp: table_inv_def upd_conn_def)

lemma table_inv_lw [simp]: "table_inv cfg (s\<lparr>lw := l\<rparr>) = table_inv cfg s"
  by (simp add: table_inv_def)

lemma owner_upd_conn:
  assumes "table_inv cfg s" "in_range cfg i"
  shows "owner cfg (upd_conn i f s) =
           (owner cfg s)(i := if c_is_active (f (conn s i)) \<noteq> 0
              then Some (c_client_num (f (conn s i)), c_protocol (f (conn s i))) else None)"
proof
  fix j
  show "owner cfg (upd_conn i f s) j = ((owner cfg s)(i := if c_is_active (f (conn s i)) \<noteq> 0
      then Some (c_client_num (f (conn s i)), c_protocol (f (conn s i))) else None)) j"
  proof (cases "in_range cfg j")
    case True
    then have "0 \<le> j" by (simp add: in_range_def)
    with True assms show ?thesis by (simp add: owner_def conn_upd_conn [OF assms])
  next
    case False
    with assms show ?thesis by (auto simp: owner_def)
  qed
qed

lemma owner_lw: "owner cfg (s\<lparr>lw := st\<rparr>) = owner cfg s"
  by (simp add: owner_def fun_eq_iff)

text \<open>Replacing the control block of an open socket.\<close>

lemma upd_pcb:
  assumes "table_inv cfg s" "in_range cfg i" "c_protocol (conn s i) \<noteq> XTCP_PROTOCOL_NONE"
  shows "table_inv cfg (upd_conn i (\<lambda>e. e\<lparr>c_pcb := q\<rparr>) s)"
    and "owner cfg (upd_conn i (\<lambda>e. e\<lparr>c_pcb := q\<rparr>) s) = owner cfg s"
    and "in_range cfg j \<Longrightarrow> conn (upd_conn i (\<lambda>e. e\<lparr>c_pcb := q\<rparr>) s) j =
           (if j = i then (conn s i)\<lparr>c_pcb := q\<rparr> else conn s j)"
proof -
  let ?s = "upd_conn i (\<lambda>e. e\<lparr>c_pcb := q\<rparr>) s"
  show c: "conn ?s j = (if j = i then (conn s i)\<lparr>c_pcb := q\<rparr> else conn s j)" if "in_range cfg j" for j
    using conn_upd_conn [OF assms(1,2), of j] that by (simp add: in_range_def)
  have "entry_ok ((conn s i)\<lparr>c_pcb := q\<rparr>)"
    using table_inv_entry [OF assms(1,2)] assms(3) by (auto simp: entry_ok_def)
  then show "table_inv cfg ?s" by (rule table_inv_upd_conn [OF assms(1,2)])
  show "owner cfg ?s = owner cfg s" using c by (auto simp: owner_def fun_eq_iff)
qed

section \<open>Initialisation and release\<close>

lemma init_client_connections_inv:
  assumes "config_ok cfg" "0 \<le> last_guid s" "last_guid s \<le> int (MAX_OPEN_SOCKETS cfg)"
  shows "table_inv cfg (init_client_connections cfg s)"
    and "owner cfg (init_client_connections cfg s) = Map.empty"
  using assms
  by (auto simp: table_inv_def init_client_connections_def entry_ok_def deinit_entry_def owner_def
      in_range_def nat_less_iff)

lemma free_client_connection_law:
  assumes "table_inv cfg s"
  shows "table_inv cfg (free_client_connection cfg i s) \<and>
         owner cfg (free_client_connection cfg i s) = (owner cfg s)(i := None)"
proof (cases "in_range cfg i")
  case True
  with assms show ?thesis
    by (simp add: free_client_connection_def table_inv_upd_conn owner_upd_conn entry_ok_def)
next
  case False
  then show ?thesis using assms by (auto simp: free_client_connection_def owner_def)
qed

section \<open>Lookup\<close>

lemma find_loop_eq:
  "find_loop cs c x i k = (if i \<le> x \<and> x < i + int k \<and> c_client_num (cs ! nat x) = c then Some x else None)"
proof (induction k arbitrary: i)
  case (Suc k)
  then show ?case by (cases "i = x") auto
qed simp

lemma find_client_connection_eq:
  "find_client_connection cfg c i s =
     (if in_range cfg i \<and> c_client_num (conn s i) = c then err_int32 XTCP_SUCCESS i
      else err_int32 XTCP_EINVAL (-1))"
  by (auto simp: find_client_connection_def find_loop_eq in_range_def)

lemma find_client_connection_law:
  assumes "table_inv cfg s" "c \<noteq> DEINIT"
  shows "find_client_connection cfg c i s =
     (if \<exists>p. owner cfg s i = Some (c, p) then err_int32 XTCP_SUCCESS i
      else err_int32 XTCP_EINVAL (-1))"
  using assms table_inv_entry [OF assms(1), of i]
  by (auto simp: find_client_connection_eq owner_def entry_ok_def)

lemma owner_entry:
  assumes "owner cfg s i = Some (c, p)"
  shows "in_range cfg i" "c_is_active (conn s i) \<noteq> 0" "c_protocol (conn s i) = p"
    "find_client_connection cfg c i s = err_int32 XTCP_SUCCESS i" "get_protocol cfg i s = p"
    "get_client_info cfg i s = c"
  using assms
  by (auto simp: owner_def find_client_connection_eq get_protocol_def get_client_info_def split: if_splits)

section \<open>Allocation\<close>

text \<open>
  The circular scan is the library's \<open>find\<close> over the ids rotated to start at
  \<open>last_guid\<close>.
\<close>

lemma scan_index:
  assumes "0 \<le> g" "g \<le> int m" "i < m"
  shows "(if g + int i \<ge> int m then g + int i - int m else g + int i)
           = int (rotate (nat g) [0..<m] ! i)"
proof -
  have "(nat g + i) mod m = (if nat g + i \<ge> m then nat g + i - m else nat g + i)"
    using assms by (auto simp: mod_if)
  with assms show ?thesis by (auto simp: nth_rotate of_nat_diff)
qed

lemma assign_loop_find:
  assumes "0 \<le> g" "g \<le> int m" "i + k = m"
  shows "assign_loop cs (int m) g (int i) k =
           map_option int (List.find (\<lambda>j. c_is_active (cs ! j) = 0) (drop i (rotate (nat g) [0..<m])))"
  using assms
proof (induction k arbitrary: i)
  case 0
  then show ?case by simp
next
  case (Suc k)
  then have i: "i < m" by simp
  have idx: "(if g + int i \<ge> int m then g + int i - int m else g + int i)
      = int (rotate (nat g) [0..<m] ! i)"
    using Suc.prems i by (intro scan_index) auto
  have drop: "drop i (rotate (nat g) [0..<m]) =
      rotate (nat g) [0..<m] ! i # drop (Suc i) (rotate (nat g) [0..<m])"
    using i by (simp add: Cons_nth_drop_Suc)
  from Suc.IH [of "Suc i"] Suc.prems
  have "assign_loop cs (int m) g (int i + 1) k = map_option int
      (List.find (\<lambda>j. c_is_active (cs ! j) = 0) (drop (Suc i) (rotate (nat g) [0..<m])))"
    by (simp add: add.commute)
  then show ?case by (simp add: Let_def idx drop)
qed

definition scan_order :: "xtcp_config \<Rightarrow> ('w, 'z) conn_state_scheme \<Rightarrow> nat list" where
  "scan_order cfg s = rotate (nat (last_guid s)) [0..<MAX_OPEN_SOCKETS cfg]"

lemma set_scan_order: "set (scan_order cfg s) = {0..<MAX_OPEN_SOCKETS cfg}"
  by (simp add: scan_order_def)

lemma assign_client_connection_eq:
  assumes "table_inv cfg s"
  shows "assign_client_connection cfg c p s =
     (case List.find (\<lambda>j. c_is_active (connections s ! j) = 0) (scan_order cfg s) of
        None \<Rightarrow> (err_int32 XTCP_ENOMEM (-1), s)
      | Some j \<Rightarrow>
          (err_int32 XTCP_SUCCESS (int j),
           upd_conn (int j) (\<lambda>e. e\<lparr>c_is_active := 1, c_client_num := c, c_protocol := p, c_pcb := None\<rparr>)
             (s\<lparr>last_guid := int j + 1\<rparr>)))"
  using assms assign_loop_find [of "last_guid s" "MAX_OPEN_SOCKETS cfg" 0 "MAX_OPEN_SOCKETS cfg"
      "connections s"]
  by (simp add: assign_client_connection_def scan_order_def table_inv_def split: option.splits)

lemma assign_client_connection_law:
  assumes inv: "table_inv cfg s" and c: "c \<noteq> DEINIT"
    and a: "assign_client_connection cfg c p s = (r, s')"
  shows "table_inv cfg s' \<and>
    (if dom (owner cfg s) = socket_ids cfg then r = err_int32 XTCP_ENOMEM (-1) \<and> s' = s
     else status r = XTCP_SUCCESS \<and> val r \<in> socket_ids cfg \<and> owner cfg s (val r) = None \<and>
          owner cfg s' = (owner cfg s)(val r \<mapsto> (c, p)))"
proof (cases "List.find (\<lambda>j. c_is_active (connections s ! j) = 0) (scan_order cfg s)")
  case None
  then have "\<forall>i. in_range cfg i \<longrightarrow> c_is_active (conn s i) \<noteq> 0"
    by (auto simp: find_None_iff set_scan_order in_range_def nat_less_iff)
  then have "dom (owner cfg s) = socket_ids cfg"
    by (auto simp: owner_def in_range_socket_ids domIff split: if_splits)
  with None inv a show ?thesis by (simp add: assign_client_connection_eq)
next
  case (Some j)
  then have "j \<in> set (scan_order cfg s)" and free: "c_is_active (connections s ! j) = 0"
    by (auto simp: find_Some_iff)
  then have j: "in_range cfg (int j)" "j < MAX_OPEN_SOCKETS cfg"
    by (auto simp: set_scan_order in_range_def)
  from j free have none: "owner cfg s (int j) = None" by (simp add: owner_def)
  with j have "dom (owner cfg s) \<noteq> socket_ids cfg"
    by (auto simp: in_range_socket_ids)
  moreover have inv': "table_inv cfg (s\<lparr>last_guid := int j + 1\<rparr>)"
    using inv j by (simp add: table_inv_def)
  moreover have "owner cfg (s\<lparr>last_guid := int j + 1\<rparr>) = owner cfg s"
    by (simp add: owner_def fun_eq_iff)
  ultimately show ?thesis
    using Some inv a j none c
    by (auto simp: assign_client_connection_eq in_range_socket_ids [symmetric] owner_upd_conn
        entry_ok_def intro!: table_inv_upd_conn)
qed

section \<open>The module implements the contract\<close>

interpretation st: socket_table "assign_client_connection cfg" "find_client_connection cfg"
  "free_client_connection cfg" "owner cfg" "socket_ids cfg" "\<lambda>c. c \<noteq> DEINIT" "table_inv cfg"
  for cfg
proof
  show "finite (socket_ids cfg)" by (simp add: socket_ids_def)
  show "dom (owner cfg s) \<subseteq> socket_ids cfg" for s
    by (auto simp: owner_def in_range_socket_ids split: if_splits)
qed (use find_client_connection_law assign_client_connection_law free_client_connection_law in blast)+

end
