(* ===== verification/Rx_Queue_Spec.thy ===== *)
theory Rx_Queue_Spec
  imports Lwip_Interface
begin

text \<open>
  The contract of the received-data queues of \<open>lib_xtcp/src/connection.h\<close>
  (\<open>set_remote\<close>, \<open>free_remote_data\<close>, \<open>unlink_remote\<close>): one queue
  of packet buffers per socket, given as the list of the buffers' addresses with their contents,
  the link field erased.
\<close>

type_synonym rx = "int \<Rightarrow> (addr \<times> pbuf) list"

definition tag_remote :: "ip_addr_t option \<Rightarrow> u16 \<Rightarrow> pbuf \<Rightarrow> pbuf" where
  "tag_remote remote port b =
     b\<lparr>pb_remote := \<lparr>ipaddr = (case remote of Some r \<Rightarrow> r | None \<Rightarrow> (0, 0, 0, 0)), port_number = port\<rparr>\<rparr>"

primrec pops :: "(int \<Rightarrow> 's \<Rightarrow> (xtcp_error_code_t \<times> 's) option) \<Rightarrow> int \<Rightarrow> nat \<Rightarrow> 's \<Rightarrow> 's option" where
  "pops pop i 0 s = Some s"
| "pops pop i (Suc n) s = do { (_, s') \<leftarrow> pop i s; pops pop i n s' }"

text \<open>Linking a received buffer and taking it off again.\<close>

locale rx_store =
  fixes append :: "int \<Rightarrow> ip_addr_t option \<Rightarrow> u16 \<Rightarrow> addr \<Rightarrow> 's \<Rightarrow> (xtcp_error_code_t \<times> 's) option"
    and unlink :: "int \<Rightarrow> addr \<Rightarrow> 's \<Rightarrow> (xtcp_error_code_t \<times> 's) option"
    and rel :: "'s \<Rightarrow> rx \<Rightarrow> bool"
    and sock :: "int \<Rightarrow> bool"
    and arrived :: "'s \<Rightarrow> rx \<Rightarrow> addr \<Rightarrow> pbuf \<Rightarrow> bool"
  assumes append_law: "rel s R \<Longrightarrow> sock i \<Longrightarrow> arrived s R p b \<Longrightarrow>
        \<exists>s'. append i remote port p s = Some (XTCP_SUCCESS, s') \<and>
             rel s' (R(i := R i @ [(p, tag_remote remote port b)]))"
    and unlink_law: "rel s R \<Longrightarrow> sock i \<Longrightarrow> R i = xs @ (p, b) # ys \<Longrightarrow>
        \<exists>s'. unlink i p s = Some (XTCP_SUCCESS, s') \<and> rel s' (R(i := xs @ ys)) \<and>
             arrived s' (R(i := xs @ ys)) p b"
begin

text \<open>Refusing a buffer after linking it restores the queues and hands the buffer back.\<close>

lemma append_then_unlink:
  assumes "rel s R" "sock i" "arrived s R p b"
  shows "\<exists>s1 s2. append i remote port p s = Some (XTCP_SUCCESS, s1) \<and>
           unlink i p s1 = Some (XTCP_SUCCESS, s2) \<and> rel s2 R \<and> arrived s2 R p (tag_remote remote port b)"
proof -
  obtain s1 where s1: "append i remote port p s = Some (XTCP_SUCCESS, s1)"
    "rel s1 (R(i := R i @ [(p, tag_remote remote port b)]))"
    using append_law [OF assms] by blast
  then obtain s2 where "unlink i p s1 = Some (XTCP_SUCCESS, s2)"
    "rel s2 (R(i := R i @ [(p, tag_remote remote port b)], i := R i @ []))"
    "arrived s2 (R(i := R i @ [(p, tag_remote remote port b)], i := R i @ [])) p (tag_remote remote port b)"
    using unlink_law [OF s1(2) assms(2), of "R i" p "tag_remote remote port b" "[]"] by auto
  with s1 show ?thesis by auto
qed

end

text \<open>Reading the oldest buffer.\<close>

locale rx_queues = rx_store append unlink rel sock arrived
  for append :: "int \<Rightarrow> ip_addr_t option \<Rightarrow> u16 \<Rightarrow> addr \<Rightarrow> 's \<Rightarrow> (xtcp_error_code_t \<times> 's) option"
    and unlink :: "int \<Rightarrow> addr \<Rightarrow> 's \<Rightarrow> (xtcp_error_code_t \<times> 's) option"
    and rel :: "'s \<Rightarrow> rx \<Rightarrow> bool"
    and sock :: "int \<Rightarrow> bool"
    and arrived :: "'s \<Rightarrow> rx \<Rightarrow> addr \<Rightarrow> pbuf \<Rightarrow> bool" +
  fixes pop :: "int \<Rightarrow> 's \<Rightarrow> (xtcp_error_code_t \<times> 's) option"
  assumes pop_law: "rel s R \<Longrightarrow> sock i \<Longrightarrow> R i = (p, b) # ys \<Longrightarrow>
        \<exists>s'. pop i s = Some (XTCP_SUCCESS, s') \<and> rel s' (R(i := ys))"
    and pop_empty: "rel s R \<Longrightarrow> sock i \<Longrightarrow> R i = [] \<Longrightarrow> pop i s = Some (XTCP_EINVAL, s)"
begin

text \<open>Popping \<open>n\<close> times drops the \<open>n\<close> oldest buffers, whatever the contents.\<close>

lemma pops_law:
  "rel s R \<Longrightarrow> sock i \<Longrightarrow> \<exists>s'. pops pop i n s = Some s' \<and> rel s' (R(i := drop n (R i)))"
proof (induction n arbitrary: s R)
  case 0
  then show ?case by simp
next
  case (Suc n)
  show ?case
  proof (cases "R i")
    case Nil
    with pop_empty [OF Suc.prems Nil] Suc.IH [OF Suc.prems] show ?thesis by simp
  next
    case (Cons x ys)
    then obtain s1 where "pop i s = Some (XTCP_SUCCESS, s1)" "rel s1 (R(i := ys))"
      using pop_law [OF Suc.prems, of "fst x" "snd x" ys] by auto
    moreover from this(2) Suc.prems(2) have "\<exists>s'. pops pop i n s1 = Some s' \<and>
        rel s' ((R(i := ys))(i := drop n ((R(i := ys)) i)))"
      by (rule Suc.IH)
    moreover have "(R(i := ys))(i := drop n ((R(i := ys)) i)) = R(i := drop (Suc n) (R i))"
      using Cons by (simp only: fun_upd_upd fun_upd_same drop_Suc list.sel)
    moreover have "pops pop i (Suc n) s = pops pop i n s1"
      using \<open>pop i s = Some (XTCP_SUCCESS, s1)\<close> by simp
    ultimately show ?thesis by metis
  qed
qed

end

end
