(* ===== verification/Connection_Rx.thy ===== *)
theory Connection_Rx
  imports Connection_Table Rx_Queue_Spec
begin

text \<open>
  The received-data queues of \<open>connection.c\<close>. Each socket's \<open>pbuf\<close> field heads
  a chain of buffers in lwIP's heap; \<open>rx_rel\<close> relates these chains to one list per socket.
  The theory shows that the chain-walking functions return, stay inside the heap and act on the
  lists as their contract says, and interprets the contract on them.
\<close>

section \<open>Walking a chain\<close>

lemma last_pbuf_chain:
  "chain h (Some a) as \<Longrightarrow> last_pbuf h a = Some (last as)"
proof (induction as arbitrary: a)
  case (Cons x as)
  then obtain b where b: "x = a" "h a = Some b" "chain h (pb_next b) as" by auto
  show ?case
  proof (cases "pb_next b")
    case None
    with b show ?thesis by (simp add: last_pbuf.simps)
  next
    case (Some a')
    with b Cons.IH [of a'] have "last_pbuf h a' = Some (last as)" by simp
    with b Some show ?thesis by (auto simp: last_pbuf.simps [of h a])
  qed
qed simp

lemma find_pbuf_chain:
  assumes "chain h (Some a) (xs @ t # ys)"
  shows "find_pbuf h t a prev = Some (Some (if xs = [] then prev else Some (last xs)))"
  using assms
proof (induction xs arbitrary: a prev)
  case Nil
  then show ?case by (simp add: find_pbuf.simps)
next
  case (Cons x xs)
  then obtain b where b: "x = a" "h a = Some b" "chain h (pb_next b) (xs @ t # ys)" by auto
  have "a \<noteq> t" using chain_distinct [OF Cons.prems] b(1) by auto
  moreover from b(3) obtain a' where a': "pb_next b = Some a'" by (cases xs) auto
  ultimately show ?case
    using b Cons.IH [of a' "Some a"] by (simp add: find_pbuf.simps [of h t a])
qed

section \<open>The queues as lists\<close>

definition unlinked :: "pbuf \<Rightarrow> pbuf" where
  "unlinked b = b\<lparr>pb_next := None\<rparr>"

definition rx_rel ::
  "xtcp_config \<Rightarrow> ('w \<Rightarrow> addr set) \<Rightarrow> ('w, 'z) conn_state_scheme \<Rightarrow> rx \<Rightarrow> bool" where
  "rx_rel cfg held s R \<longleftrightarrow>
     table_inv cfg s \<and>
     (\<forall>i. \<not> in_range cfg i \<longrightarrow> R i = []) \<and>
     (\<forall>i. in_range cfg i \<longrightarrow> chain (pbufs (lw s)) (c_pbuf (conn s i)) (map fst (R i))) \<and>
     (\<forall>i a b. (a, b) \<in> set (R i) \<longrightarrow> map_option unlinked (pbufs (lw s) a) = Some b) \<and>
     (\<forall>i. fst ` set (R i) \<subseteq> held (world (lw s))) \<and>
     (\<forall>i j. i \<noteq> j \<longrightarrow> fst ` set (R i) \<inter> fst ` set (R j) = {})"

text \<open>A buffer that lwIP has just handed over: on its own, held, and on no queue.\<close>

definition rx_arrived ::
  "('w \<Rightarrow> addr set) \<Rightarrow> ('w, 'z) conn_state_scheme \<Rightarrow> rx \<Rightarrow> addr \<Rightarrow> pbuf \<Rightarrow> bool" where
  "rx_arrived held s R p b \<longleftrightarrow>
     pbufs (lw s) p = Some b \<and> pb_next b = None \<and> p \<in> held (world (lw s)) \<and>
     (\<forall>i. p \<notin> fst ` set (R i))"

lemma rx_relD:
  assumes "rx_rel cfg held s R"
  shows "table_inv cfg s"
    and "\<not> in_range cfg i \<Longrightarrow> R i = []"
    and "in_range cfg i \<Longrightarrow> chain (pbufs (lw s)) (c_pbuf (conn s i)) (map fst (R i))"
    and "(a, b) \<in> set (R i) \<Longrightarrow> map_option unlinked (pbufs (lw s) a) = Some b"
    and "fst ` set (R i) \<subseteq> held (world (lw s))"
    and "i \<noteq> j \<Longrightarrow> fst ` set (R i) \<inter> fst ` set (R j) = {}"
proof -
  note D = assms [unfolded rx_rel_def]
  show "table_inv cfg s" using D by (rule conjunct1)
  show "\<not> in_range cfg i \<Longrightarrow> R i = []"
    by (rule D [THEN conjunct2, THEN conjunct1, rule_format])
  show "in_range cfg i \<Longrightarrow> chain (pbufs (lw s)) (c_pbuf (conn s i)) (map fst (R i))"
    by (rule D [THEN conjunct2, THEN conjunct2, THEN conjunct1, rule_format])
  show "(a, b) \<in> set (R i) \<Longrightarrow> map_option unlinked (pbufs (lw s) a) = Some b"
    by (rule D [THEN conjunct2, THEN conjunct2, THEN conjunct2, THEN conjunct1, rule_format])
  show "fst ` set (R i) \<subseteq> held (world (lw s))" using D by simp
  show "i \<noteq> j \<Longrightarrow> fst ` set (R i) \<inter> fst ` set (R j) = {}" using D by simp
qed

text \<open>
  The common shape of the proofs below: the new state has the same chains except on one socket,
  and buffers that stay on a queue keep everything but their link.
\<close>

lemma rx_rel_upd:
  assumes rel: "rx_rel cfg held s R" and i: "in_range cfg i"
    and inv: "table_inv cfg s'"
    and heads: "\<And>j. in_range cfg j \<Longrightarrow> j \<noteq> i \<Longrightarrow> c_pbuf (conn s' j) = c_pbuf (conn s j)"
    and chain: "chain (pbufs (lw s')) (c_pbuf (conn s' i)) (map fst xs)"
    and others: "\<And>j a. j \<noteq> i \<Longrightarrow> a \<in> fst ` set (R j) \<Longrightarrow> pbufs (lw s') a = pbufs (lw s) a"
    and contents: "\<And>a b. (a, b) \<in> set xs \<Longrightarrow> map_option unlinked (pbufs (lw s') a) = Some b"
    and mine: "fst ` set xs \<subseteq> held (world (lw s'))"
    and theirs: "\<And>j. j \<noteq> i \<Longrightarrow> fst ` set (R j) \<subseteq> held (world (lw s'))"
    and disj: "\<And>j. j \<noteq> i \<Longrightarrow> fst ` set xs \<inter> fst ` set (R j) = {}"
  shows "rx_rel cfg held s' (R(i := xs))"
proof -
  note D = rx_relD [OF rel]
  have c: "chain (pbufs (lw s')) (c_pbuf (conn s' j)) (map fst (R j))" if "in_range cfg j" "j \<noteq> i" for j
    using D(3) [OF that(1)] heads [OF that] others [OF that(2)]
    by (auto intro: chain_frame)
  have b: "map_option unlinked (pbufs (lw s') a) = Some b" if "j \<noteq> i" "(a, b) \<in> set (R j)" for j a b
    using D(4) [OF that(2)] others [OF that(1), of a] that(2) by force
  show ?thesis
    unfolding rx_rel_def
  proof (intro conjI allI impI)
    fix j k :: int
    assume "j \<noteq> k"
    then show "fst ` set ((R(i := xs)) j) \<inter> fst ` set ((R(i := xs)) k) = {}"
      using disj [of j] disj [of k] D(6) [of j k] by auto
  qed (use inv D(2) i chain contents mine theirs c b in \<open>auto split: if_splits\<close>)
qed

section \<open>Appending a received buffer\<close>

lemma store_pbuf_simps [simp]:
  "pbufs (lw (store_pbuf a b s)) = (pbufs (lw s))(a \<mapsto> b)"
  "world (lw (store_pbuf a b s)) = world (lw s)"
  "connections (store_pbuf a b s) = connections s" "last_guid (store_pbuf a b s) = last_guid s"
  "table_inv cfg (store_pbuf a b s) = table_inv cfg s"
  by (simp_all add: store_pbuf_def)

lemma upd_lw_simps [simp]:
  "lw (upd_lw f s) = f (lw s)" "connections (upd_lw f s) = connections s"
  "last_guid (upd_lw f s) = last_guid s" "table_inv cfg (upd_lw f s) = table_inv cfg s"
  by (simp_all add: upd_lw_def)

lemma unlinked_link [simp]: "unlinked (b\<lparr>pb_next := q\<rparr>) = unlinked b"
  by (simp add: unlinked_def)

lemma unlinked_lone: "pb_next b = None \<Longrightarrow> unlinked b = b"
  by (simp add: unlinked_def)

lemma tag_remote_next [simp]: "pb_next (tag_remote r p b) = pb_next b"
  by (simp add: tag_remote_def)

lemma tag_remote_eq:
  "tag_remote remote port b =
     (let b = b\<lparr>pb_remote := (pb_remote b)\<lparr>ipaddr :=
                (case remote of Some r \<Rightarrow> r | None \<Rightarrow> (0, 0, 0, 0))\<rparr>\<rparr>
      in b\<lparr>pb_remote := (pb_remote b)\<lparr>port_number := port\<rparr>\<rparr>)"
  by (cases b; cases "pb_remote b") (simp add: tag_remote_def Let_def)

lemma table_inv_pbuf:
  "table_inv cfg s \<Longrightarrow> in_range cfg i \<Longrightarrow> table_inv cfg (upd_conn i (\<lambda>c. c\<lparr>c_pbuf := q\<rparr>) s)"
  using table_inv_entry [of cfg s i] by (intro table_inv_upd_conn) (auto simp: entry_ok_def)

lemma set_remote_unfold:
  assumes "in_range cfg i" "pbufs (lw s) p = Some b"
  shows "set_remote cfg i remote port (Some p) s =
    (let s = store_pbuf p (tag_remote remote port b) s in
     case c_pbuf (conn s i) of
       Some q \<Rightarrow> do {
         t \<leftarrow> last_pbuf (pbufs (lw s)) q;
         b' \<leftarrow> pbufs (lw s) t;
         Some (XTCP_SUCCESS, store_pbuf t (b'\<lparr>pb_next := Some p\<rparr>) s) }
     | None \<Rightarrow> Some (XTCP_SUCCESS, upd_conn i (\<lambda>c. c\<lparr>c_pbuf := Some p\<rparr>) s))"
  by (simp only: set_remote_def assms if_True option.case Option.bind.bind_lunit tag_remote_eq Let_def)

lemma set_remote_law:
  assumes rel: "rx_rel cfg held s R" and i: "in_range cfg i" and p: "rx_arrived held s R p b"
  shows "\<exists>s'. set_remote cfg i remote port (Some p) s = Some (XTCP_SUCCESS, s') \<and>
           rx_rel cfg held s' (R(i := R i @ [(p, tag_remote remote port b)]))"
proof -
  let ?b = "tag_remote remote port b"
  let ?s = "store_pbuf p ?b s"
  note D = rx_relD [OF rel]
  from p have hp: "pbufs (lw s) p = Some b" and nxt: "pb_next b = None"
    and mine: "p \<in> held (world (lw s))" and fresh: "\<And>j. p \<notin> fst ` set (R j)"
    by (auto simp: rx_arrived_def)
  have ch: "chain (pbufs (lw ?s)) (c_pbuf (conn s i)) (map fst (R i))"
    using D(3) [OF i] fresh [of i] by (simp add: chain_upd_other)
  show ?thesis
  proof (cases "c_pbuf (conn s i)")
    case None
    with ch have nil: "R i = []" by simp
    let ?s' = "upd_conn i (\<lambda>c. c\<lparr>c_pbuf := Some p\<rparr>) ?s"
    have "rx_rel cfg held ?s' (R(i := [(p, ?b)]))"
    proof (rule rx_rel_upd [OF rel i])
      show "table_inv cfg ?s'" using D(1) i by (simp add: table_inv_pbuf)
      show "c_pbuf (conn ?s' j) = c_pbuf (conn s j)" if "in_range cfg j" "j \<noteq> i" for j
        using that D(1) i by (subst conn_upd_conn [of cfg]) (auto simp: in_range_def)
      show "chain (pbufs (lw ?s')) (c_pbuf (conn ?s' i)) (map fst [(p, ?b)])"
        using D(1) i nxt by (subst conn_upd_conn [of cfg]) (auto simp: in_range_def)
    qed (use D(5) fresh mine nxt in \<open>auto simp: unlinked_lone image_iff\<close>)
    with None hp i nil show ?thesis by (simp add: set_remote_unfold Let_def)
  next
    case (Some q)
    with ch have ne: "R i \<noteq> []" by (cases "R i") auto
    let ?t = "fst (last (R i))"
    have t: "last_pbuf (pbufs (lw ?s)) q = Some ?t"
      using last_pbuf_chain [of "pbufs (lw ?s)" q] ch Some ne by (simp add: last_map)
    have tin: "?t \<in> fst ` set (R i)" using ne by simp
    with fresh have tp: "?t \<noteq> p" by metis
    obtain bt where bt: "pbufs (lw s) ?t = Some bt" "unlinked bt = snd (last (R i))"
      using D(4) [of ?t "snd (last (R i))" i] ne by auto
    let ?s' = "store_pbuf ?t (bt\<lparr>pb_next := Some p\<rparr>) ?s"
    have split: "map fst (R i) = butlast (map fst (R i)) @ [?t]"
      using ne by (metis append_butlast_last_id last_map map_is_Nil_conv)
    have ch': "chain (pbufs (lw ?s')) (Some q) (map fst (R i) @ [p])"
    proof -
      have "chain ((pbufs (lw ?s))(?t \<mapsto> bt\<lparr>pb_next := Some p\<rparr>)) (Some q)
          (butlast (map fst (R i)) @ ?t # [p])"
        by (rule chain_link) (use ch Some split bt tp nxt in auto)
      then show ?thesis by (subst split) simp
    qed
    have "rx_rel cfg held ?s' (R(i := R i @ [(p, ?b)]))"
    proof (rule rx_rel_upd [OF rel i])
      show "chain (pbufs (lw ?s')) (c_pbuf (conn ?s' i)) (map fst (R i @ [(p, ?b)]))"
        using ch' Some by simp
      show "map_option unlinked (pbufs (lw ?s') x) = Some y" if "(x, y) \<in> set (R i @ [(p, ?b)])" for x y
        using that D(4) [of x y i] bt fresh [of i] tp nxt by (auto simp: unlinked_lone image_iff)
      show "pbufs (lw ?s') x = pbufs (lw s) x" if "j \<noteq> i" "x \<in> fst ` set (R j)" for j x
      proof -
        have "x \<noteq> p" using fresh [of j] that(2) by metis
        moreover have "x \<noteq> ?t" using D(6) [OF that(1)] tin that(2) by blast
        ultimately show ?thesis by simp
      qed
      show "fst ` set (R i @ [(p, ?b)]) \<inter> fst ` set (R j) = {}" if "j \<noteq> i" for j
        using D(6) [OF that] fresh [of j] by auto
    qed (use D(1) D(5) mine in auto)
    with Some hp i t bt tp show ?thesis by (simp add: set_remote_unfold Let_def)
  qed
qed

section \<open>Unlinking a buffer\<close>

lemma unlink_remote_unfold:
  assumes "in_range cfg i" "c_pbuf (conn s i) = Some a"
    "find_pbuf (pbufs (lw s)) p a None = Some (Some prev)" "pbufs (lw s) p = Some b"
    "\<And>q. prev = Some q \<Longrightarrow> q \<noteq> p"
  shows "unlink_remote cfg i (Some p) s =
    (case prev of
       None \<Rightarrow> Some (XTCP_SUCCESS, store_pbuf p (unlinked b) (upd_conn i (\<lambda>c. c\<lparr>c_pbuf := pb_next b\<rparr>) s))
     | Some q \<Rightarrow> map_option (\<lambda>b'. (XTCP_SUCCESS,
         store_pbuf p (unlinked b) (store_pbuf q (b'\<lparr>pb_next := pb_next b\<rparr>) s))) (pbufs (lw s) q))"
proof (cases prev)
  case None
  with assms(1-4) show ?thesis by (simp add: unlink_remote_def unlinked_def)
next
  case (Some q)
  with assms show ?thesis by (cases "pbufs (lw s) q") (simp_all add: unlink_remote_def unlinked_def)
qed

lemma rx_rel_disjoint:
  assumes "rx_rel cfg held s R" "R i = xs @ (p, b) # ys"
  shows "p \<notin> fst ` set xs" "p \<notin> fst ` set ys" "j \<noteq> i \<Longrightarrow> p \<notin> fst ` set (R j)"
    "\<exists>b0. pbufs (lw s) p = Some b0 \<and> unlinked b0 = b" "p \<in> held (world (lw s))" "in_range cfg i"
proof -
  note D = rx_relD [OF assms(1)]
  show r: "in_range cfg i" using D(2) [of i] assms(2) by auto
  have "distinct (map fst (R i))" using D(3) [OF r] by (rule chain_distinct)
  then show "p \<notin> fst ` set xs" "p \<notin> fst ` set ys" using assms(2) by auto
  show "j \<noteq> i \<Longrightarrow> p \<notin> fst ` set (R j)" using D(6) [of j i] assms(2) by auto
  show "\<exists>b0. pbufs (lw s) p = Some b0 \<and> unlinked b0 = b" using D(4) [of p b i] assms(2) by auto
  show "p \<in> held (world (lw s))" using D(5) [of i] assms(2) by auto
qed

lemma unlink_remote_law:
  assumes rel: "rx_rel cfg held s R" and Ri: "R i = xs @ (p, b) # ys"
  shows "\<exists>s'. unlink_remote cfg i (Some p) s = Some (XTCP_SUCCESS, s') \<and>
           rx_rel cfg held s' (R(i := xs @ ys)) \<and> rx_arrived held s' (R(i := xs @ ys)) p b"
proof -
  note D = rx_relD [OF rel] and P = rx_rel_disjoint [OF rel Ri]
  obtain b0 where b0: "pbufs (lw s) p = Some b0" "unlinked b0 = b" using P(4) by blast
  have i: "in_range cfg i" by (rule P(6))
  have ch: "chain (pbufs (lw s)) (c_pbuf (conn s i)) (map fst xs @ p # map fst ys)"
    using D(3) [OF i] Ri by simp
  then obtain a where a: "c_pbuf (conn s i) = Some a" by (cases "map fst xs") auto
  have arr: "rx_arrived held s' (R(i := xs @ ys)) p b"
    if "pbufs (lw s') p = Some (unlinked b0)" "world (lw s') = world (lw s)"
    for s' :: "('a, 'b) conn_state_scheme"
    using that P(1,2,3,5) b0 by (auto simp: rx_arrived_def unlinked_def)
  have others: "j \<noteq> i \<Longrightarrow> x \<in> fst ` set (R j) \<Longrightarrow> x \<noteq> p \<and> x \<notin> fst ` set (R i)" for j x
    using D(6) [of j i] P(3) [of j] by blast
  have mine: "fst ` set (xs @ ys) \<subseteq> held (world (lw s))" using D(5) [of i] Ri by auto
  have disj: "fst ` set (xs @ ys) \<inter> fst ` set (R j) = {}" if "j \<noteq> i" for j
    using D(6) [OF that] Ri by auto
  have find: "find_pbuf (pbufs (lw s)) p a None = Some (Some (if xs = [] then None else Some (fst (last xs))))"
    using find_pbuf_chain [of _ a "map fst xs" p "map fst ys" None] ch a by (auto simp: last_map)
  show ?thesis
  proof (cases "xs = []")
    case True
    let ?s1 = "upd_conn i (\<lambda>c. c\<lparr>c_pbuf := pb_next b0\<rparr>) s"
    let ?s' = "store_pbuf p (unlinked b0) ?s1"
    have "rx_rel cfg held ?s' (R(i := xs @ ys))"
    proof (rule rx_rel_upd [OF rel i])
      show "table_inv cfg ?s'" using D(1) i by (simp add: table_inv_pbuf)
      show "c_pbuf (conn ?s' j) = c_pbuf (conn s j)" if "in_range cfg j" "j \<noteq> i" for j
        using that D(1) i conn_upd_conn [OF D(1) i, of j] by (simp add: in_range_def)
      show "chain (pbufs (lw ?s')) (c_pbuf (conn ?s' i)) (map fst (xs @ ys))"
        using ch True b0 P(2) conn_upd_conn [OF D(1) i, of i] i
        by (auto simp: in_range_def chain_upd_other image_iff)
      show "map_option unlinked (pbufs (lw ?s') x) = Some y" if "(x, y) \<in> set (xs @ ys)" for x y
        using that D(4) [of x y i] Ri P(1,2) by (auto simp: image_iff)
      show "pbufs (lw ?s') x = pbufs (lw s) x" if "j \<noteq> i" "x \<in> fst ` set (R j)" for j x
        using others [OF that] by simp
    qed (use mine disj D(5) in simp_all)
    with True arr [of ?s'] unlink_remote_unfold [OF i a find b0(1)] show ?thesis by simp
  next
    case False
    then obtain xs' q bq where xs: "xs = xs' @ [(q, bq)]" by (metis rev_exhaust surj_pair)
    obtain b1 where b1: "pbufs (lw s) q = Some b1" "unlinked b1 = bq"
      using D(4) [of q bq i] Ri xs by auto
    have qp: "q \<noteq> p" using P(1) xs by auto
    let ?s' = "store_pbuf p (unlinked b0) (store_pbuf q (b1\<lparr>pb_next := pb_next b0\<rparr>) s)"
    have "chain ((pbufs (lw s))(q \<mapsto> b1\<lparr>pb_next := pb_next b0\<rparr>)) (c_pbuf (conn s i))
        (map fst xs' @ q # map fst ys)"
      by (rule chain_unlink [of _ _ _ _ p]) (use ch xs b1 b0 in auto)
    then have ch': "chain (pbufs (lw ?s')) (c_pbuf (conn s i)) (map fst (xs @ ys))"
      using P(1,2) xs by (auto simp: chain_upd_other)
    have "rx_rel cfg held ?s' (R(i := xs @ ys))"
    proof (rule rx_rel_upd [OF rel i])
      show "map_option unlinked (pbufs (lw ?s') x) = Some y" if "(x, y) \<in> set (xs @ ys)" for x y
        using that D(4) [of x y i] Ri b1 P(1,2) by (auto simp: image_iff)
      show "pbufs (lw ?s') x = pbufs (lw s) x" if "j \<noteq> i" "x \<in> fst ` set (R j)" for j x
        using others [OF that] Ri xs by auto
    qed (use D(1) ch' mine disj D(5) in simp_all)
    with False b1 qp xs arr [of ?s'] unlink_remote_unfold [OF i a find b0(1)] show ?thesis by simp
  qed
qed

section \<open>Releasing buffers\<close>

text \<open>A change of lwIP's state that leaves the queued buffers alone keeps the queues.\<close>

lemma rx_rel_upd_lw:
  assumes "rx_rel cfg held s R"
    and "\<And>i x. x \<in> fst ` set (R i) \<Longrightarrow> pbufs (f (lw s)) x = pbufs (lw s) x \<and> x \<in> held (world (f (lw s)))"
  shows "rx_rel cfg held (upd_lw f s) R"
proof -
  note D = rx_relD [OF assms(1)]
  have "chain (pbufs (f (lw s))) (c_pbuf (conn s i)) (map fst (R i))" if "in_range cfg i" for i
    using D(3) [OF that] assms(2) [of _ i] by (auto intro: chain_frame)
  moreover have "map_option unlinked (pbufs (f (lw s)) a) = Some b" if "(a, b) \<in> set (R i)" for a b i
    using D(4) [OF that] assms(2) [of a i] that by force
  moreover have "fst ` set (R i) \<subseteq> held (world (f (lw s)))" for i
    using assms(2) by blast
  ultimately show ?thesis
    using D(1,2,6) unfolding rx_rel_def by simp
qed

lemma rx_rel_keeps:
  assumes "rx_rel cfg held s R" "keeps held f"
  shows "rx_rel cfg held (upd_lw f s) R"
  by (rule rx_rel_upd_lw [OF assms(1)]) (use rx_relD(5) [OF assms(1)] keepsD [OF assms(2)] in blast)

lemma rx_rel_free:
  assumes "rx_rel cfg held s R" "frees_chain held free"
    and "chain (pbufs (lw s)) (Some p) as" "set as \<subseteq> held (world (lw s))"
    and "\<And>i. set as \<inter> fst ` set (R i) = {}"
  shows "rx_rel cfg held (upd_lw (free p) s) R"
proof (rule rx_rel_upd_lw [OF assms(1)])
  fix i x
  assume "x \<in> fst ` set (R i)"
  with assms(5) [of i] rx_relD(5) [OF assms(1), of i] have "x \<in> held (world (lw s))" "x \<notin> set as"
    by auto
  with frees_chainD [OF assms(2-4)]
  show "pbufs (free p (lw s)) x = pbufs (lw s) x \<and> x \<in> held (world (free p (lw s)))"
    by simp
qed

definition ack_received ::
  "'w lwip \<Rightarrow> xtcp_config \<Rightarrow> int \<Rightarrow> u16 \<Rightarrow> ('w, 'z) conn_state_scheme \<Rightarrow> ('w, 'z) conn_state_scheme" where
  "ack_received L cfg i len s =
     (case get_tcp_pcb cfg i s of None \<Rightarrow> s | Some t \<Rightarrow> upd_lw (tcp_recved L (Some t) len) s)"

lemma ack_received_held:
  "rx_contract L held \<Longrightarrow> held (world (lw (ack_received L cfg i len s))) = held (world (lw s))"
  by (simp add: ack_received_def rx_contract_def keepsD(1) split: option.splits)

lemma free_remote_data_unfold:
  assumes "in_range cfg i" "c_pbuf (conn s i) = Some p" "pbufs (lw s) p = Some b"
  shows "free_remote_data L cfg i s =
    Some (XTCP_SUCCESS, ack_received L cfg i (pb_len b) (upd_lw (pbuf_free L p)
      (store_pbuf p (unlinked b) (upd_conn i (\<lambda>c. c\<lparr>c_pbuf := pb_next b\<rparr>) s))))"
  using assms
  by (simp add: free_remote_data_def unlinked_def ack_received_def get_tcp_pcb_def Let_def
      split: option.splits)

lemma free_remote_data_law:
  assumes rel: "rx_rel cfg held s R" and L: "rx_contract L held" and Ri: "R i = (p, b) # ys"
  shows "\<exists>s'. free_remote_data L cfg i s = Some (XTCP_SUCCESS, s') \<and> rx_rel cfg held s' (R(i := ys)) \<and>
    held (world (lw s')) = held (world (lw s)) - {p}"
proof -
  have i: "in_range cfg i" using rx_rel_disjoint(6) [OF rel, of i "[]"] Ri by simp
  obtain b0 where b0: "pbufs (lw s) p = Some b0" using rx_rel_disjoint(4) [OF rel, of i "[]"] Ri by auto
  have head: "c_pbuf (conn s i) = Some p" using rx_relD(3) [OF rel i] Ri by simp
  let ?s = "store_pbuf p (unlinked b0) (upd_conn i (\<lambda>c. c\<lparr>c_pbuf := pb_next b0\<rparr>) s)"
  have "find_pbuf (pbufs (lw s)) p p None = Some (Some None)" by (simp add: find_pbuf.simps)
  then have u: "rx_rel cfg held ?s (R(i := ys))" "rx_arrived held ?s (R(i := ys)) p b"
    using unlink_remote_law [OF rel, of i "[]"] Ri
      unlink_remote_unfold [OF i head _ b0, of None] by auto
  have "rx_rel cfg held (upd_lw (pbuf_free L p) ?s) (R(i := ys))"
    by (rule rx_rel_free [OF u(1), of _ _ "[p]"])
      (use u(2) L in \<open>auto simp: rx_arrived_def rx_contract_def\<close>)
  then have "rx_rel cfg held (ack_received L cfg i (pb_len b0) (upd_lw (pbuf_free L p) ?s)) (R(i := ys))"
    using L by (auto simp: ack_received_def rx_contract_def rx_rel_keeps split: option.splits)
  moreover have "held (world (lw (upd_lw (pbuf_free L p) ?s))) = held (world (lw s)) - {p}"
    using frees_chainD(1) [of held "pbuf_free L" "lw ?s" p "[p]"] u(2) L
    by (auto simp: rx_arrived_def rx_contract_def)
  ultimately show ?thesis
    unfolding free_remote_data_unfold [OF i head b0]
    by (intro exI conjI) (rule refl, assumption, simp only: ack_received_held [OF L])
qed

lemma free_remote_data_empty:
  "rx_rel cfg held s R \<Longrightarrow> in_range cfg i \<Longrightarrow> R i = [] \<Longrightarrow> free_remote_data L cfg i s = Some (XTCP_EINVAL, s)"
  using rx_relD(3) [of cfg held s R i] by (simp add: free_remote_data_def)

lemma clear_pending_law:
  assumes rel: "rx_rel cfg held s R" and L: "rx_contract L held" and i: "in_range cfg i"
  shows "\<exists>s'. clear_pending_rx_data_on_connection L cfg i s = Some s' \<and> rx_rel cfg held s' (R(i := [])) \<and>
    held (world (lw s')) = held (world (lw s)) - fst ` set (R i)"
proof (cases "c_pbuf (conn s i)")
  case None
  with rx_relD(3) [OF rel i] have "R i = []" by simp
  moreover from this have "R(i := []) = R" by auto
  ultimately show ?thesis using None rel i by (simp add: clear_pending_rx_data_on_connection_def)
next
  case (Some p)
  note D = rx_relD [OF rel]
  have ch: "chain (pbufs (lw s)) (Some p) (map fst (R i))" using D(3) [OF i] Some by simp
  then obtain b where b: "pbufs (lw s) p = Some b" by (auto simp: chain_Some)
  define s1 where "s1 = (if c_protocol (conn s i) = XTCP_PROTOCOL_TCP
    then upd_lw (tcp_recved L (c_pcb (conn s i)) (pb_tot_len b)) s else s)"
  have s1: "rx_rel cfg held s1 R" "connections s1 = connections s"
    using rel L by (auto simp: s1_def rx_contract_def rx_rel_keeps)
  let ?s2 = "upd_conn i (\<lambda>c. c\<lparr>c_pbuf := None\<rparr>) s1"
  have rel2: "rx_rel cfg held ?s2 (R(i := []))"
    by (rule rx_rel_upd [OF s1(1) i])
      (use rx_relD(1,5) [OF s1(1)] i in
        \<open>auto simp: table_inv_pbuf conn_upd_conn in_range_def\<close>)
  have "rx_rel cfg held (upd_lw (pbuf_free L p) ?s2) (R(i := []))"
  proof (rule rx_rel_free [OF rel2])
    show "chain (pbufs (lw ?s2)) (Some p) (map fst (R i))"
      using rx_relD(3) [OF s1(1) i] Some s1(2) by simp
    show "set (map fst (R i)) \<subseteq> held (world (lw ?s2))" using rx_relD(5) [OF s1(1), of i] by simp
    show "set (map fst (R i)) \<inter> fst ` set ((R(i := [])) j) = {}" for j using D(6) [of i j] by auto
  qed (use L in \<open>simp add: rx_contract_def\<close>)
  moreover have "held (world (lw (upd_lw (pbuf_free L p) ?s2))) = held (world (lw s)) - fst ` set (R i)"
  proof -
    have "chain (pbufs (lw s1)) (Some p) (map fst (R i))" using rx_relD(3) [OF s1(1) i] Some s1(2) by simp
    moreover have "set (map fst (R i)) \<subseteq> held (world (lw s1))" using rx_relD(5) [OF s1(1), of i] by simp
    moreover have "held (world (lw s1)) = held (world (lw s))"
      using L by (simp add: s1_def rx_contract_def keepsD(1))
    ultimately show ?thesis using frees_chainD(1) [of held "pbuf_free L" "lw s1" p] L
      by (simp add: rx_contract_def)
  qed
  moreover have "clear_pending_rx_data_on_connection L cfg i s = Some (upd_lw (pbuf_free L p) ?s2)"
    using Some i b by (simp add: clear_pending_rx_data_on_connection_def s1_def upd_lw_def upd_conn_def)
  ultimately show ?thesis by blast
qed

section \<open>The module implements the contract\<close>

interpretation rxs: rx_store "\<lambda>i remote port p. set_remote cfg i remote port (Some p)"
  "\<lambda>i p. unlink_remote cfg i (Some p)" "rx_rel cfg held" "in_range cfg" "rx_arrived held"
  for cfg held
  by unfold_locales (simp_all add: set_remote_law unlink_remote_law)

interpretation rxq: rx_queues "\<lambda>i remote port p. set_remote cfg i remote port (Some p)"
  "\<lambda>i p. unlink_remote cfg i (Some p)" "\<lambda>s R. rx_contract L held \<and> rx_rel cfg held s R"
  "in_range cfg" "rx_arrived held" "free_remote_data L cfg"
  for L cfg held
proof (unfold_locales, goal_cases)
  case (1 s R i p b remote port)
  then show ?case using set_remote_law [of cfg held s R i p b remote port] by simp
next
  case (2 s R i xs p b ys)
  then show ?case using unlink_remote_law [of cfg held s R i xs p b ys] by simp
next
  case (3 s R i p b ys)
  then show ?case using free_remote_data_law [of cfg held s R L i p b ys] by blast
next
  case (4 s R i)
  then show ?case using free_remote_data_empty [of cfg held s R i L] by simp
qed

end
