(* ===== verification/Xtcp_Shim.thy ===== *)
theory Xtcp_Shim
  imports Xtcp_Types
begin

text \<open>
  \<open>lib_xtcp/src/xtcp_shim.xc\<close>: the array of client interfaces and the notification of a
  client. An xC notification is one pending flag per interface: \<open>event_ready()\<close> sets it,
  and the client's next call of a \<open>[[clears_notification]]\<close> function
  (\<open>get_event\<close>) clears it. \<open>i_xtcp\<close> is the list of these flags.
\<close>

record notify_state =
  n_xtcp :: u32
  i_xtcp :: "bool list"

definition notify_start :: notify_state where
  "notify_start = \<lparr>n_xtcp = 0, i_xtcp = []\<rparr>"

text \<open>
  \<open>xassert\<close> stops the program, so a failed assertion is \<open>None\<close>. The source's
  assertion reads the static \<open>n_xtcp\<close>, not the argument.
\<close>

definition client_init_notification ::
  "xtcp_config \<Rightarrow> u32 \<Rightarrow> notify_state \<Rightarrow> notify_state option" where
  "client_init_notification cfg n_xtcp_init st =
     (if unat (n_xtcp st) \<le> MAX_XTCP_CLIENTS cfg
      then Some (st\<lparr>i_xtcp := replicate (unat n_xtcp_init) False, n_xtcp := n_xtcp_init\<rparr>)
      else None)"

definition client_intf_notify :: "u32 \<Rightarrow> notify_state \<Rightarrow> notify_state option" where
  "client_intf_notify client_num st =
     (if n_xtcp st \<noteq> 0
      then if unat client_num < length (i_xtcp st)
           then Some (st\<lparr>i_xtcp := (i_xtcp st)[unat client_num := True]\<rparr>)
           else None
      else Some st)"

text \<open>The clearing half of a notification, done by the xC runtime when the client calls \<open>get_event\<close>.\<close>

definition clear_notification :: "u32 \<Rightarrow> notify_state \<Rightarrow> notify_state" where
  "clear_notification client_num st = st\<lparr>i_xtcp := (i_xtcp st)[unat client_num := False]\<rparr>"

definition notify_inv :: "notify_state \<Rightarrow> bool" where
  "notify_inv st \<longleftrightarrow> n_xtcp st = 0 \<or> length (i_xtcp st) = unat (n_xtcp st)"

text \<open>A client number the notification accepts, and the flag of a client.\<close>

definition notifiable :: "notify_state \<Rightarrow> u32 \<Rightarrow> bool" where
  "notifiable st c \<longleftrightarrow> n_xtcp st = 0 \<or> unat c < length (i_xtcp st)"

definition pending :: "notify_state \<Rightarrow> u32 \<Rightarrow> bool" where
  "pending st c \<longleftrightarrow> unat c < length (i_xtcp st) \<and> i_xtcp st ! unat c"

lemma client_intf_notify_Some_iff:
  "(\<exists>st'. client_intf_notify c st = Some st') \<longleftrightarrow> notifiable st c"
  by (auto simp: client_intf_notify_def notifiable_def)

lemma client_intf_notify_frame:
  assumes "client_intf_notify c st = Some st'"
  shows "n_xtcp st' = n_xtcp st" "length (i_xtcp st') = length (i_xtcp st)"
    "n_xtcp st \<noteq> 0 \<Longrightarrow> pending st' c"
    "pending st d \<Longrightarrow> pending st' d"
  using assms by (auto simp: client_intf_notify_def pending_def nth_list_update split: if_splits)

lemma notifiable_notify:
  "client_intf_notify c st = Some st' \<Longrightarrow> notifiable st' d = notifiable st d"
  using client_intf_notify_frame [of c st st'] by (simp add: notifiable_def)

lemma notify_inv_iff:
  "notify_inv st \<longleftrightarrow> notifiable st = (\<lambda>c. n_xtcp st = 0 \<or> c < n_xtcp st)"
proof
  assume "notify_inv st"
  then show "notifiable st = (\<lambda>c. n_xtcp st = 0 \<or> c < n_xtcp st)"
    by (auto simp: notify_inv_def notifiable_def word_less_nat_alt fun_eq_iff)
next
  let ?l = "length (i_xtcp st)"
  assume N: "notifiable st = (\<lambda>c. n_xtcp st = 0 \<or> c < n_xtcp st)"
  have *: "unat c < ?l \<longleftrightarrow> unat c < unat (n_xtcp st)" if "n_xtcp st \<noteq> 0" for c :: u32
    using fun_cong [OF N, of c] that by (simp add: notifiable_def word_less_nat_alt)
  have "\<not> ?l < unat (n_xtcp st)" if "n_xtcp st \<noteq> 0"
  proof
    assume l: "?l < unat (n_xtcp st)"
    moreover have "unat (n_xtcp st) < 2 ^ 32" using unsigned_less [of "n_xtcp st"] by simp
    ultimately have "unat (word_of_nat ?l :: u32) = ?l" by (simp add: unat_of_nat)
    with l * [OF that, of "word_of_nat ?l"] show False by simp
  qed
  moreover have "\<not> unat (n_xtcp st) < ?l" if "n_xtcp st \<noteq> 0" using * [OF that, of "n_xtcp st"] by simp
  ultimately show "notify_inv st" by (cases "n_xtcp st = 0") (auto simp: notify_inv_def)
qed

text \<open>Which clients can be notified says how many there are.\<close>

lemma notifiable_count:
  assumes "notify_inv st" "notifiable st = (\<lambda>c. n = 0 \<or> c < n)"
  shows "n_xtcp st = n"
proof -
  have *: "(n_xtcp st = 0 \<or> c < n_xtcp st) = (n = 0 \<or> c < n)" for c
    using assms by (simp add: notify_inv_iff fun_eq_iff)
  have z: "n_xtcp st = 0 \<longleftrightarrow> n = 0" using * [of "- 1"] by auto
  show ?thesis
  proof (cases "n = 0")
    case False
    with * z have "c < n_xtcp st \<longleftrightarrow> c < n" for c by simp
    then show ?thesis by (metis less_irrefl linorder_neqE)
  qed (use z in simp)
qed

lemma clear_notification_frame [simp]:
  "n_xtcp (clear_notification c st) = n_xtcp st"
  "length (i_xtcp (clear_notification c st)) = length (i_xtcp st)"
  "notifiable (clear_notification c st) d = notifiable st d"
  "notify_inv (clear_notification c st) = notify_inv st"
  by (simp_all add: clear_notification_def notifiable_def notify_inv_def)

lemma pending_clear:
  "c \<noteq> d \<Longrightarrow> pending (clear_notification c st) d = pending st d"
  by (simp add: clear_notification_def pending_def word_unat_eq_iff)

end
