(* ===== verification/Event_Queue_Spec.thy ===== *)
theory Event_Queue_Spec
  imports Xtcp_Types
begin

text \<open>
  The contract of \<open>lib_xtcp/src/client_queue.h\<close>: what the event queues promise the rest of
  the library. The abstract queue is one bounded list of events per client; \<open>event_queue\<close>
  states the laws of an implementation against it and derives what the callers use. Everything
  here is independent of the ring buffers of \<open>client_queue.c\<close>.
\<close>

record client_event_t =
  xtcp_event :: xtcp_event_type_t
  ev_id :: int

abbreviation event :: "xtcp_event_type_t \<Rightarrow> int \<Rightarrow> client_event_t" where
  "event e i \<equiv> \<lparr>xtcp_event = e, ev_id = i\<rparr>"

text \<open>The events that do not belong to connection \<open>x\<close>.\<close>

abbreviation survivors :: "int \<Rightarrow> client_event_t list \<Rightarrow> client_event_t list" where
  "survivors x \<equiv> filter (\<lambda>e. ev_id e \<noteq> x)"

type_synonym fifo = "u32 \<Rightarrow> client_event_t list"

definition no_event :: client_event_t where
  "no_event = event XTCP_EVENT_NONE (-1)"

section \<open>The abstract queue\<close>

datatype queue_op =
    Enq u32 int xtcp_event_type_t
  | Deq u32
  | Purge u32 int

datatype queue_out =
    Code xtcp_error_code_t
  | Event client_event_t
  | Count int

definition fifo_enq ::
  "(u32 \<Rightarrow> bool) \<Rightarrow> nat \<Rightarrow> u32 \<Rightarrow> int \<Rightarrow> xtcp_event_type_t \<Rightarrow> fifo \<Rightarrow> xtcp_error_code_t \<times> fifo" where
  "fifo_enq valid cap c i e f =
     (if \<not> valid c then (XTCP_EINVAL, f)
      else if length (f c) < cap then (XTCP_SUCCESS, f(c := f c @ [event e i]))
      else (XTCP_ENOMEM, f))"

definition fifo_deq :: "u32 \<Rightarrow> fifo \<Rightarrow> client_event_t \<times> fifo" where
  "fifo_deq c f = (case f c of [] \<Rightarrow> (no_event, f) | x # xs \<Rightarrow> (x, f(c := xs)))"

definition fifo_purge :: "u32 \<Rightarrow> int \<Rightarrow> fifo \<Rightarrow> int \<times> fifo" where
  "fifo_purge c i f =
     (int (length (f c)) - int (length (survivors i (f c))), f(c := survivors i (f c)))"

fun fifo_step :: "(u32 \<Rightarrow> bool) \<Rightarrow> nat \<Rightarrow> queue_op \<Rightarrow> fifo \<Rightarrow> queue_out \<times> fifo" where
  "fifo_step valid cap (Enq c i e) f = (let (r, f') = fifo_enq valid cap c i e f in (Code r, f'))"
| "fifo_step valid cap (Deq c) f = (let (x, f') = fifo_deq c f in (Event x, f'))"
| "fifo_step valid cap (Purge c i) f = (let (n, f') = fifo_purge c i f in (Count n, f'))"

fun fifo_run :: "(u32 \<Rightarrow> bool) \<Rightarrow> nat \<Rightarrow> queue_op list \<Rightarrow> fifo \<Rightarrow> queue_out list \<times> fifo" where
  "fifo_run valid cap [] f = ([], f)"
| "fifo_run valid cap (p # ps) f =
     (let (out, f') = fifo_step valid cap p f; (outs, f'') = fifo_run valid cap ps f'
      in (out # outs, f''))"

section \<open>Running an implementation\<close>

fun queue_step ::
  "(u32 \<Rightarrow> int \<Rightarrow> xtcp_event_type_t \<Rightarrow> 'q \<Rightarrow> (xtcp_error_code_t \<times> 'q) option) \<Rightarrow>
   (u32 \<Rightarrow> 'q \<Rightarrow> client_event_t \<times> 'q) \<Rightarrow> (u32 \<Rightarrow> int \<Rightarrow> 'q \<Rightarrow> int \<times> 'q) \<Rightarrow>
   queue_op \<Rightarrow> 'q \<Rightarrow> (queue_out \<times> 'q) option" where
  "queue_step enq deq purge (Enq c i e) q = map_option (apfst Code) (enq c i e q)"
| "queue_step enq deq purge (Deq c) q = Some (apfst Event (deq c q))"
| "queue_step enq deq purge (Purge c i) q = Some (apfst Count (purge c i q))"

fun queue_run ::
  "(u32 \<Rightarrow> int \<Rightarrow> xtcp_event_type_t \<Rightarrow> 'q \<Rightarrow> (xtcp_error_code_t \<times> 'q) option) \<Rightarrow>
   (u32 \<Rightarrow> 'q \<Rightarrow> client_event_t \<times> 'q) \<Rightarrow> (u32 \<Rightarrow> int \<Rightarrow> 'q \<Rightarrow> int \<times> 'q) \<Rightarrow>
   queue_op list \<Rightarrow> 'q \<Rightarrow> (queue_out list \<times> 'q) option" where
  "queue_run enq deq purge [] q = Some ([], q)"
| "queue_run enq deq purge (p # ps) q = do {
     (out, q') \<leftarrow> queue_step enq deq purge p q;
     (outs, q'') \<leftarrow> queue_run enq deq purge ps q';
     Some (out # outs, q'') }"

fun enq_client :: "queue_op \<Rightarrow> u32 set" where
  "enq_client (Enq c i e) = {c}"
| "enq_client (Deq c) = {}"
| "enq_client (Purge c i) = {}"

section \<open>The interface\<close>

locale event_queue =
  fixes enq :: "u32 \<Rightarrow> int \<Rightarrow> xtcp_event_type_t \<Rightarrow> 'q \<Rightarrow> (xtcp_error_code_t \<times> 'q) option"
    and deq :: "u32 \<Rightarrow> 'q \<Rightarrow> client_event_t \<times> 'q"
    and purge :: "u32 \<Rightarrow> int \<Rightarrow> 'q \<Rightarrow> int \<times> 'q"
    and events :: "'q \<Rightarrow> fifo"
    and can_notify :: "'q \<Rightarrow> u32 \<Rightarrow> bool"
    and valid :: "u32 \<Rightarrow> bool"
    and cap :: nat
    and inv :: "'q \<Rightarrow> bool"
  assumes enq_total: "inv q \<Longrightarrow> can_notify q c \<Longrightarrow> enq c i e q \<noteq> None"
    and enq_law: "inv q \<Longrightarrow> enq c i e q = Some (r, q') \<Longrightarrow>
        (r, events q') = fifo_enq valid cap c i e (events q) \<and> inv q' \<and> can_notify q' = can_notify q"
    and deq_law: "inv q \<Longrightarrow> deq c q = (x, q') \<Longrightarrow>
        (x, events q') = fifo_deq c (events q) \<and> inv q' \<and> can_notify q' = can_notify q"
    and purge_law: "inv q \<Longrightarrow> purge c i q = (n, q') \<Longrightarrow>
        (n, events q') = fifo_purge c i (events q) \<and> inv q' \<and> can_notify q' = can_notify q"
    and enq_refused: "inv q \<Longrightarrow> enq c i e q = Some (r, q') \<Longrightarrow> r \<noteq> XTCP_SUCCESS \<Longrightarrow> q' = q"
    and bounded: "inv q \<Longrightarrow> length (events q c) \<le> cap"
    and only_valid: "inv q \<Longrightarrow> \<not> valid c \<Longrightarrow> events q c = []"
begin

lemma step_refines:
  assumes "inv q" "\<forall>c \<in> enq_client p. can_notify q c"
  shows "\<exists>out q'. queue_step enq deq purge p q = Some (out, q') \<and>
           fifo_step valid cap p (events q) = (out, events q') \<and> inv q' \<and> can_notify q' = can_notify q"
proof (cases p)
  case (Enq c i e)
  with assms obtain r q' where "enq c i e q = Some (r, q')" using enq_total [of q c i e] by auto
  with Enq enq_law [OF assms(1) this] show ?thesis by (auto split: prod.splits)
next
  case (Deq c)
  obtain x q' where "deq c q = (x, q')" by force
  with Deq deq_law [OF assms(1) this] show ?thesis by (auto split: prod.splits)
next
  case (Purge c i)
  obtain n q' where "purge c i q = (n, q')" by force
  with Purge purge_law [OF assms(1) this] show ?thesis by (auto split: prod.splits)
qed

theorem run_refines:
  assumes "inv q" "\<forall>p \<in> set ps. \<forall>c \<in> enq_client p. can_notify q c"
  shows "\<exists>outs q'. queue_run enq deq purge ps q = Some (outs, q') \<and>
           fifo_run valid cap ps (events q) = (outs, events q') \<and> inv q' \<and> can_notify q' = can_notify q"
  using assms
proof (induction ps arbitrary: q)
  case Nil
  then show ?case by simp
next
  case (Cons p ps)
  then obtain out q1 where step: "queue_step enq deq purge p q = Some (out, q1)"
    "fifo_step valid cap p (events q) = (out, events q1)" "inv q1" "can_notify q1 = can_notify q"
    using step_refines [of q p] by auto
  with Cons.IH [of q1] Cons.prems show ?case by auto
qed

end

end
