(* ===== verification/Client_Queue.thy ===== *)
theory Client_Queue
  imports Xtcp_Shim Event_Queue_Spec
begin

text \<open>
  \<open>lib_xtcp/src/client_queue.c\<close>: one ring buffer of events per client. The first section
  translates the file; the second gives the state invariant and the list of events a ring holds;
  the third shows that each operation acts on these lists as a bounded queue does.
\<close>

section \<open>The module\<close>

record queue_state =
  client_queue :: "client_event_t list list"
  client_heads :: "int list"
  client_num_events :: "int list"
  notify :: notify_state

text \<open>\<open>memset\<close> to zero: event 0 is \<open>XTCP_EVENT_NONE\<close>, id 0.\<close>

definition xtcp_init_queue :: "xtcp_config \<Rightarrow> queue_state \<Rightarrow> queue_state" where
  "xtcp_init_queue cfg qs =
     qs\<lparr>client_queue :=
           replicate (MAX_XTCP_CLIENTS cfg) (replicate (CLIENT_QUEUE_SIZE cfg) (event XTCP_EVENT_NONE 0)),
        client_heads := replicate (MAX_XTCP_CLIENTS cfg) 0,
        client_num_events := replicate (MAX_XTCP_CLIENTS cfg) 0\<rparr>"

definition renotify :: "xtcp_config \<Rightarrow> u32 \<Rightarrow> queue_state \<Rightarrow> queue_state option" where
  "renotify cfg client_num qs =
     (if unat client_num < MAX_XTCP_CLIENTS cfg \<and> client_num_events qs ! unat client_num > 0
      then do { n \<leftarrow> client_intf_notify client_num (notify qs); Some (qs\<lparr>notify := n\<rparr>) }
      else Some qs)"

definition dequeue_event ::
  "xtcp_config \<Rightarrow> u32 \<Rightarrow> queue_state \<Rightarrow> client_event_t \<times> queue_state" where
  "dequeue_event cfg client_num qs =
     (let c = unat client_num in
      if c < MAX_XTCP_CLIENTS cfg \<and> client_num_events qs ! c > 0
      then let qs = qs\<lparr>client_num_events := (client_num_events qs)[c := client_num_events qs ! c - 1]\<rparr>;
               position = client_heads qs ! c;
               qs = qs\<lparr>client_heads :=
                        (client_heads qs)[c := (client_heads qs ! c + 1) smod int (CLIENT_QUEUE_SIZE cfg)]\<rparr>
           in (client_queue qs ! c ! nat position, qs)
      else (event XTCP_EVENT_NONE (-1), qs))"

definition enqueue_event_and_notify ::
  "xtcp_config \<Rightarrow> u32 \<Rightarrow> int \<Rightarrow> xtcp_event_type_t \<Rightarrow> queue_state
     \<Rightarrow> (xtcp_error_code_t \<times> queue_state) option" where
  "enqueue_event_and_notify cfg client_num i e qs =
     (let c = unat client_num in
      if c < MAX_XTCP_CLIENTS cfg
      then if client_num_events qs ! c < int (CLIENT_QUEUE_SIZE cfg)
           then let position = nat ((client_heads qs ! c + client_num_events qs ! c)
                                    smod int (CLIENT_QUEUE_SIZE cfg));
                    qs = qs\<lparr>client_queue :=
                             (client_queue qs)[c := (client_queue qs ! c)[position := event e i]]\<rparr>;
                    qs = qs\<lparr>client_num_events :=
                             (client_num_events qs)[c := client_num_events qs ! c + 1]\<rparr>
                in do { n \<leftarrow> client_intf_notify client_num (notify qs);
                        Some (XTCP_SUCCESS, qs\<lparr>notify := n\<rparr>) }
           else Some (XTCP_ENOMEM, qs)
      else Some (XTCP_EINVAL, qs))"

text \<open>
  The in-place compaction of \<open>free_notifications_on_queue\<close>. One iteration works on the
  client's row, its event count, the two indices and the result; the loop runs the number of times
  that was read from the event count before it started.
\<close>

definition free_step ::
  "nat \<Rightarrow> int \<Rightarrow> client_event_t list \<times> int \<times> int \<times> int \<times> int
     \<Rightarrow> client_event_t list \<times> int \<times> int \<times> int \<times> int" where
  "free_step sz i = (\<lambda>(row, num_events, write_index, read_index, result).
     let (row, num_events, write_index, result) =
           (if ev_id (row ! nat read_index) = i
            then (row, num_events - 1, write_index, result + 1)
            else (if write_index \<noteq> read_index
                  then row[nat write_index := row ! nat read_index] else row,
                  num_events,
                  if write_index + 1 \<ge> int sz then 0 else write_index + 1,
                  result));
         read_index = (if read_index + 1 \<ge> int sz then 0 else read_index + 1)
     in (row, num_events, write_index, read_index, result))"

primrec free_loop ::
  "nat \<Rightarrow> int \<Rightarrow> nat \<Rightarrow> client_event_t list \<times> int \<times> int \<times> int \<times> int
     \<Rightarrow> client_event_t list \<times> int \<times> int \<times> int \<times> int" where
  "free_loop sz i 0 st = st"
| "free_loop sz i (Suc k) st = free_loop sz i k (free_step sz i st)"

definition free_notifications_on_queue ::
  "xtcp_config \<Rightarrow> u32 \<Rightarrow> int \<Rightarrow> queue_state \<Rightarrow> int \<times> queue_state" where
  "free_notifications_on_queue cfg client_num i qs =
     (let c = unat client_num in
      if c < MAX_XTCP_CLIENTS cfg
      then let count = client_num_events qs ! c;
               (row, num_events, _, _, result) =
                 free_loop (CLIENT_QUEUE_SIZE cfg) i (nat count)
                   (client_queue qs ! c, count, client_heads qs ! c, client_heads qs ! c, 0)
           in (result, qs\<lparr>client_queue := (client_queue qs)[c := row],
                          client_num_events := (client_num_events qs)[c := num_events]\<rparr>)
      else (0, qs))"

section \<open>Invariant and abstraction\<close>

definition ring_ok :: "nat \<Rightarrow> client_event_t list \<Rightarrow> int \<Rightarrow> int \<Rightarrow> bool" where
  "ring_ok sz row head n \<longleftrightarrow>
     length row = sz \<and> 0 \<le> head \<and> head < int sz \<and> 0 \<le> n \<and> n \<le> int sz"

definition queue_inv :: "xtcp_config \<Rightarrow> queue_state \<Rightarrow> bool" where
  "queue_inv cfg qs \<longleftrightarrow>
     config_ok cfg \<and>
     length (client_queue qs) = MAX_XTCP_CLIENTS cfg \<and>
     length (client_heads qs) = MAX_XTCP_CLIENTS cfg \<and>
     length (client_num_events qs) = MAX_XTCP_CLIENTS cfg \<and>
     (\<forall>c < MAX_XTCP_CLIENTS cfg.
        ring_ok (CLIENT_QUEUE_SIZE cfg) (client_queue qs ! c) (client_heads qs ! c)
          (client_num_events qs ! c))"

definition ring_list :: "client_event_t list \<Rightarrow> int \<Rightarrow> int \<Rightarrow> client_event_t list" where
  "ring_list row head n = take (nat n) (rotate (nat head) row)"

text \<open>The events that client \<open>c\<close> has still to collect, oldest first.\<close>

definition queued :: "queue_state \<Rightarrow> u32 \<Rightarrow> client_event_t list" where
  "queued qs c =
     (if unat c < length (client_queue qs)
      then ring_list (client_queue qs ! unat c) (client_heads qs ! unat c)
             (client_num_events qs ! unat c)
      else [])"

definition valid_client :: "xtcp_config \<Rightarrow> u32 \<Rightarrow> bool" where
  "valid_client cfg c \<longleftrightarrow> unat c < MAX_XTCP_CLIENTS cfg"

lemma queue_invD:
  assumes "queue_inv cfg qs"
  shows "config_ok cfg" "length (client_queue qs) = MAX_XTCP_CLIENTS cfg"
    "length (client_heads qs) = MAX_XTCP_CLIENTS cfg"
    "length (client_num_events qs) = MAX_XTCP_CLIENTS cfg"
    "c < MAX_XTCP_CLIENTS cfg \<Longrightarrow>
       ring_ok (CLIENT_QUEUE_SIZE cfg) (client_queue qs ! c) (client_heads qs ! c)
         (client_num_events qs ! c)"
  using assms by (simp_all add: queue_inv_def)

lemma ring_list_length: "ring_ok sz row head n \<Longrightarrow> length (ring_list row head n) = nat n"
  by (auto simp: ring_ok_def ring_list_def)

lemma queued_length:
  assumes "queue_inv cfg qs" "valid_client cfg c"
  shows "int (length (queued qs c)) = client_num_events qs ! unat c"
proof -
  from assms have "ring_ok (CLIENT_QUEUE_SIZE cfg) (client_queue qs ! unat c)
      (client_heads qs ! unat c) (client_num_events qs ! unat c)"
    by (simp add: queue_inv_def valid_client_def)
  with ring_list_length [OF this] assms show ?thesis
    by (auto simp: queued_def Let_def queue_inv_def valid_client_def ring_ok_def)
qed

lemma queued_invalid:
  "queue_inv cfg qs \<Longrightarrow> \<not> valid_client cfg c \<Longrightarrow> queued qs c = []"
  by (simp add: queued_def valid_client_def queue_inv_def)

lemma queued_le_capacity:
  assumes "queue_inv cfg qs"
  shows "length (queued qs c) \<le> CLIENT_QUEUE_SIZE cfg"
proof (cases "valid_client cfg c")
  case True
  with queued_length [OF assms True] queue_invD(5) [OF assms, of "unat c"] show ?thesis
    by (auto simp: valid_client_def ring_ok_def)
qed (simp add: queued_invalid [OF assms])

section \<open>The ring lemmas\<close>

lemma ring_enqueue:
  fixes ev :: client_event_t
  assumes "ring_ok sz row head n" "n < int sz"
  defines "row' \<equiv> row[nat ((head + n) smod int sz) := ev]"
  shows "ring_ok sz row' head (n + 1)" "ring_list row' head (n + 1) = ring_list row head n @ [ev]"
proof -
  from assms(1,2) have pos: "nat ((head + n) smod int sz) = (nat head + nat n) mod length row"
    by (simp add: ring_ok_def smod_mod_positive nat_mod_distrib nat_add_distrib)
  show "ring_ok sz row' head (n + 1)"
    using assms(1,2) by (simp add: ring_ok_def row'_def)
  from assms(1,2) have "nat (n + 1) = Suc (nat n)" "nat n < length row"
    by (auto simp: ring_ok_def)
  then show "ring_list row' head (n + 1) = ring_list row head n @ [ev]"
    by (simp add: row'_def ring_list_def pos rotate_list_update take_update_Suc)
qed

lemma ring_dequeue:
  assumes "ring_ok sz row head n" "0 < n"
  shows "ring_ok sz row ((head + 1) smod int sz) (n - 1)"
    and "ring_list row head n =
           row ! nat head # ring_list row ((head + 1) smod int sz) (n - 1)"
proof -
  from assms have ne: "row \<noteq> []" and h: "nat head < length row" and n: "nat n = Suc (nat (n - 1))"
    by (auto simp: ring_ok_def)
  have next_head: "(head + 1) smod int sz = (head + 1) mod int sz"
    using assms by (simp add: ring_ok_def smod_mod_positive)
  show "ring_ok sz row ((head + 1) smod int sz) (n - 1)"
    using assms unfolding next_head by (auto simp: ring_ok_def)
  have "nat ((head + 1) mod int sz) = Suc (nat head) mod length row"
    using assms by (simp add: ring_ok_def nat_mod_distrib nat_add_distrib)
  then have "ring_list row ((head + 1) smod int sz) (n - 1) = tl (ring_list row head n)"
    using n assms take_rotate_Suc [of "nat (n - 1)" row "nat head"]
      rotate_conv_mod [of "Suc (nat head)" row]
    by (auto simp: ring_list_def next_head ring_ok_def)
  moreover have "ring_list row head n = hd (rotate (nat head) row) # tl (ring_list row head n)"
    using ne n by (cases "rotate (nat head) row") (simp_all add: ring_list_def)
  moreover have "hd (rotate (nat head) row) = row ! nat head"
    using ne h by (simp add: hd_rotate_conv_nth)
  ultimately show "ring_list row head n =
      row ! nat head # ring_list row ((head + 1) smod int sz) (n - 1)"
    by simp
qed

text \<open>
  The compaction loop, seen through the rotation: reading position \<open>i\<close>, writing
  position \<open>j \<le> i\<close>, \<open>k\<close> entries to go. It appends to the first
  \<open>j\<close> entries those of the next \<open>k\<close> that do not match.
\<close>

lemma next_index:
  assumes "k < sz"
  shows "(if int ((h + k) mod sz) + 1 \<ge> int sz then 0 else int ((h + k) mod sz) + 1)
           = int ((h + Suc k) mod sz)"
proof -
  have "(h + k) mod sz < sz" using assms by (intro mod_less_divisor) linarith
  then show ?thesis by (auto simp: mod_Suc)
qed

lemma free_step_match:
  assumes "length row = sz" "i < sz" "ev_id (rotate h row ! i) = x"
  shows "free_step sz x (row, n, w, int ((h + i) mod sz), res) =
           (row, n - 1, w, int ((h + Suc i) mod sz), res + 1)"
  using assms next_index [of i sz h] by (simp add: free_step_def nth_rotate)

lemma free_step_keep:
  assumes "length row = sz" "i < sz" "j \<le> i" "ev_id (rotate h row ! i) \<noteq> x"
  shows "free_step sz x (row, n, int ((h + j) mod sz), int ((h + i) mod sz), res) =
           (row[(h + j) mod sz := rotate h row ! i], n, int ((h + Suc j) mod sz),
            int ((h + Suc i) mod sz), res)"
proof -
  have "(h + j) mod sz = (h + i) mod sz \<longleftrightarrow> j = i"
    using assms by (intro add_mod_inject) auto
  moreover have "row[(h + i) mod sz := row ! ((h + i) mod sz)] = row" by simp
  ultimately show ?thesis
    using assms next_index [of i sz h] next_index [of j sz h]
    by (auto simp: free_step_def nth_rotate)
qed

lemma free_loop_filter:
  assumes "length row = sz" "j \<le> i" "i + k \<le> sz"
  shows "\<exists>row' w r.
    free_loop sz x k (row, n, int ((h + j) mod sz), int ((h + i) mod sz), res) =
      (row', n - int (k - length (survivors x (take k (drop i (rotate h row))))), w, r,
       res + int (k - length (survivors x (take k (drop i (rotate h row)))))) \<and>
    length row' = sz \<and>
    take (j + length (survivors x (take k (drop i (rotate h row))))) (rotate h row') =
      take j (rotate h row) @ survivors x (take k (drop i (rotate h row)))"
  using assms
proof (induction k arbitrary: row j i n res)
  case 0
  then show ?case by simp
next
  case (Suc k)
  let ?v = "rotate h row"
  let ?P = "\<lambda>e. ev_id e \<noteq> x"
  from Suc.prems have i: "i < sz" "j < sz" and len: "length ?v = sz" by auto
  have seg: "take (Suc k) (drop i ?v) = ?v ! i # take k (drop (Suc i) ?v)"
    using i len by (metis Cons_nth_drop_Suc take_Suc_Cons)
  have short: "length (filter ?P xs) \<le> k" if "length xs \<le> k" for xs :: "client_event_t list"
    using that le_trans length_filter_le by blast
  show ?case
  proof (cases "?P (?v ! i)")
    case False
    have le: "length (survivors x (take k (drop (Suc i) ?v))) \<le> k" by (rule short) simp
    have "\<exists>row' w r. free_loop sz x k (row, n - 1, int ((h + j) mod sz), int ((h + Suc i) mod sz), res + 1) =
      (row', n - 1 - int (k - length (survivors x (take k (drop (Suc i) ?v)))), w, r,
       res + 1 + int (k - length (survivors x (take k (drop (Suc i) ?v))))) \<and> length row' = sz \<and>
      take (j + length (survivors x (take k (drop (Suc i) ?v)))) (rotate h row') =
        take j ?v @ survivors x (take k (drop (Suc i) ?v))"
      using Suc.prems by (intro Suc.IH) auto
    then show ?thesis
      using False Suc.prems le free_step_match [of row sz i h x n "int ((h + j) mod sz)" res] i
      by (auto simp: seg of_nat_diff Suc_diff_le algebra_simps)
  next
    case True
    let ?row1 = "row[(h + j) mod sz := ?v ! i]"
    have v1: "rotate h ?row1 = ?v[j := ?v ! i]"
      using i Suc.prems(1) rotate_list_update [of j row h] by simp
    have seg1: "take k (drop (Suc i) (rotate h ?row1)) = take k (drop (Suc i) ?v)"
      using Suc.prems(2) by (simp add: v1)
    have pre: "take (Suc j) (rotate h ?row1) = take j ?v @ [?v ! i]"
      using i len by (simp add: v1 take_update_Suc)
    have "\<exists>row' w r. free_loop sz x k (?row1, n, int ((h + Suc j) mod sz), int ((h + Suc i) mod sz), res) =
      (row', n - int (k - length (survivors x (take k (drop (Suc i) (rotate h ?row1))))), w, r,
       res + int (k - length (survivors x (take k (drop (Suc i) (rotate h ?row1)))))) \<and> length row' = sz \<and>
      take (Suc j + length (survivors x (take k (drop (Suc i) (rotate h ?row1))))) (rotate h row') =
        take (Suc j) (rotate h ?row1) @ survivors x (take k (drop (Suc i) (rotate h ?row1)))"
      using Suc.prems by (intro Suc.IH) auto
    then show ?thesis
      using True i Suc.prems free_step_keep [of row sz i j h x n res]
      unfolding seg1 pre by (simp add: seg)
  qed
qed

lemma ring_purge:
  fixes x :: int
  assumes "ring_ok sz row head n"
  defines "keep \<equiv> survivors x (ring_list row head n)"
  shows "\<exists>row' w r. free_loop sz x (nat n) (row, n, head, head, 0) =
           (row', int (length keep), w, r, n - int (length keep)) \<and>
         ring_ok sz row' head (int (length keep)) \<and> ring_list row' head (int (length keep)) = keep"
proof -
  have le: "length keep \<le> nat n"
    using ring_list_length [OF assms(1)] by (metis keep_def length_filter_le)
  have "int (nat head mod sz) = head" "length row = sz" "nat n \<le> sz" "0 \<le> n" "0 \<le> head"
    using assms(1) by (auto simp: ring_ok_def)
  moreover from this obtain row' w r where
    "free_loop sz x (nat n) (row, n, int ((nat head + 0) mod sz), int ((nat head + 0) mod sz), 0) =
       (row', n - int (nat n - length keep), w, r, 0 + int (nat n - length keep))"
    "length row' = sz" "take (0 + length keep) (rotate (nat head) row') = [] @ keep"
    using free_loop_filter [of row sz 0 0 "nat n" x n "nat head" 0]
    by (auto simp: keep_def ring_list_def)
  ultimately show ?thesis
    using assms(1) le by (auto simp: ring_ok_def ring_list_def of_nat_diff)
qed

section \<open>The operations on the queued lists\<close>

text \<open>Replacing one client's ring, the common shape of the three updates.\<close>

text \<open>Both indices of the loop stay inside the row, which keeps its length, at every iteration.\<close>

definition loop_in_bounds :: "nat \<Rightarrow> client_event_t list \<times> int \<times> int \<times> int \<times> int \<Rightarrow> bool" where
  "loop_in_bounds sz = (\<lambda>(row, num_events, write_index, read_index, result).
     length row = sz \<and> 0 \<le> write_index \<and> write_index < int sz \<and> 0 \<le> read_index \<and> read_index < int sz)"

lemma free_loop_in_bounds: "loop_in_bounds sz st \<Longrightarrow> loop_in_bounds sz (free_loop sz x k st)"
proof (induction k arbitrary: st)
  case (Suc k)
  then have "loop_in_bounds sz (free_step sz x st)"
    by (auto simp: loop_in_bounds_def free_step_def Let_def split: prod.splits if_splits)
  with Suc.IH show ?case by simp
qed simp

definition put_ring ::
  "nat \<Rightarrow> client_event_t list \<Rightarrow> int \<Rightarrow> int \<Rightarrow> queue_state \<Rightarrow> queue_state" where
  "put_ring c row head n qs =
     qs\<lparr>client_queue := (client_queue qs)[c := row], client_heads := (client_heads qs)[c := head],
        client_num_events := (client_num_events qs)[c := n]\<rparr>"

lemma put_ring_inv:
  assumes "queue_inv cfg qs" "ring_ok (CLIENT_QUEUE_SIZE cfg) row head n"
  shows "queue_inv cfg (put_ring c row head n qs)"
  using assms
  by (auto simp: queue_inv_def put_ring_def) (metis nth_list_update_eq nth_list_update_neq)

lemma put_ring_queued:
  assumes "queue_inv cfg qs" "valid_client cfg c"
  shows "queued (put_ring (unat c) row head n qs) = (queued qs)(c := ring_list row head n)"
  using assms
  by (auto simp: fun_eq_iff queued_def Let_def put_ring_def queue_inv_def valid_client_def
      word_unat_eq_iff)

lemma notify_update_inv [simp]:
  "queue_inv cfg (qs\<lparr>notify := nt\<rparr>) = queue_inv cfg qs" "queued (qs\<lparr>notify := nt\<rparr>) = queued qs"
  by (simp_all add: queue_inv_def queued_def fun_eq_iff Let_def)

lemma put_ring_notify [simp]: "notify (put_ring c row head n qs) = notify qs"
  by (simp add: put_ring_def)

lemma queue_inv_ring:
  "queue_inv cfg qs \<Longrightarrow> valid_client cfg c \<Longrightarrow>
     ring_ok (CLIENT_QUEUE_SIZE cfg) (client_queue qs ! unat c) (client_heads qs ! unat c)
       (client_num_events qs ! unat c)"
  by (simp add: queue_inv_def valid_client_def)

lemma queued_ring:
  "queue_inv cfg qs \<Longrightarrow> valid_client cfg c \<Longrightarrow>
     queued qs c = ring_list (client_queue qs ! unat c) (client_heads qs ! unat c)
       (client_num_events qs ! unat c)"
  by (simp add: queue_inv_def valid_client_def queued_def)

lemma xtcp_init_queue_inv:
  "config_ok cfg \<Longrightarrow> queue_inv cfg (xtcp_init_queue cfg qs)"
  by (simp add: queue_inv_def xtcp_init_queue_def ring_ok_def config_ok_def)

lemma xtcp_init_queue_queued: "queued (xtcp_init_queue cfg qs) c = []"
  by (simp add: queued_def xtcp_init_queue_def ring_list_def Let_def)

lemma xtcp_init_queue_notify [simp]: "notify (xtcp_init_queue cfg qs) = notify qs"
  by (simp add: xtcp_init_queue_def)

lemma enqueue_unfold:
  assumes "queue_inv cfg qs" "valid_client cfg c" "length (queued qs c) < CLIENT_QUEUE_SIZE cfg"
  shows "\<exists>row. enqueue_event_and_notify cfg c i e qs =
           map_option (\<lambda>n. (XTCP_SUCCESS,
               (put_ring (unat c) row (client_heads qs ! unat c)
                  (client_num_events qs ! unat c + 1) qs)\<lparr>notify := n\<rparr>))
             (client_intf_notify c (notify qs)) \<and>
         ring_ok (CLIENT_QUEUE_SIZE cfg) row (client_heads qs ! unat c)
           (client_num_events qs ! unat c + 1) \<and>
         ring_list row (client_heads qs ! unat c) (client_num_events qs ! unat c + 1) =
           queued qs c @ [event e i]"
proof -
  have room: "client_num_events qs ! unat c < int (CLIENT_QUEUE_SIZE cfg)"
    using queued_length [OF assms(1,2)] assms(3) by linarith
  show ?thesis
    using room assms(2)
      ring_enqueue [OF queue_inv_ring [OF assms(1,2)] room, of "event e i"] queued_ring [OF assms(1,2)]
    by (intro exI conjI)
      (auto simp: enqueue_event_and_notify_def Let_def put_ring_def valid_client_def
        split: bind_split)
qed

lemma enqueue_spec:
  assumes inv: "queue_inv cfg qs" and enq: "enqueue_event_and_notify cfg c i e qs = Some (r, qs')"
  shows "r = (if \<not> valid_client cfg c then XTCP_EINVAL
              else if length (queued qs c) < CLIENT_QUEUE_SIZE cfg then XTCP_SUCCESS else XTCP_ENOMEM) \<and>
    queued qs' = (if r = XTCP_SUCCESS then (queued qs)(c := queued qs c @ [event e i]) else queued qs) \<and>
    queue_inv cfg qs' \<and> (r \<noteq> XTCP_SUCCESS \<longrightarrow> qs' = qs) \<and>
    (r = XTCP_SUCCESS \<longrightarrow> client_intf_notify c (notify qs) = Some (notify qs'))"
proof -
  consider (bad) "\<not> valid_client cfg c"
    | (full) "valid_client cfg c" "\<not> length (queued qs c) < CLIENT_QUEUE_SIZE cfg"
    | (room) "valid_client cfg c" "length (queued qs c) < CLIENT_QUEUE_SIZE cfg"
    by blast
  then show ?thesis
  proof cases
    case bad
    with inv enq show ?thesis
      by (simp add: enqueue_event_and_notify_def valid_client_def)
  next
    case full
    with inv enq queued_length [OF inv full(1)] show ?thesis
      by (simp add: enqueue_event_and_notify_def valid_client_def Let_def split: if_splits)
  next
    case room
    from enqueue_unfold [OF inv room, of i e] obtain row n where
      "client_intf_notify c (notify qs) = Some n" "r = XTCP_SUCCESS"
      "qs' = (put_ring (unat c) row (client_heads qs ! unat c)
                (client_num_events qs ! unat c + 1) qs)\<lparr>notify := n\<rparr>"
      "ring_ok (CLIENT_QUEUE_SIZE cfg) row (client_heads qs ! unat c)
         (client_num_events qs ! unat c + 1)"
      "ring_list row (client_heads qs ! unat c) (client_num_events qs ! unat c + 1) =
         queued qs c @ [event e i]"
      using enq by (auto simp: Some_eq_map_option_iff)
    with room inv show ?thesis by (simp add: put_ring_inv put_ring_queued)
  qed
qed

lemma enqueue_total:
  assumes "notifiable (notify qs) c"
  shows "\<exists>r qs'. enqueue_event_and_notify cfg c i e qs = Some (r, qs')"
proof -
  from assms obtain n where "client_intf_notify c (notify qs) = Some n"
    using client_intf_notify_Some_iff by blast
  then show ?thesis by (simp add: enqueue_event_and_notify_def Let_def)
qed

lemma dequeue_spec:
  assumes inv: "queue_inv cfg qs" and deq: "dequeue_event cfg c qs = (x, qs')"
  shows "x = (case queued qs c of [] \<Rightarrow> event XTCP_EVENT_NONE (-1) | y # _ \<Rightarrow> y) \<and>
    queued qs' = (queued qs)(c := tl (queued qs c)) \<and> queue_inv cfg qs' \<and> notify qs' = notify qs"
proof -
  let ?n = "client_num_events qs ! unat c" and ?h = "client_heads qs ! unat c"
  let ?sz = "CLIENT_QUEUE_SIZE cfg" and ?row = "client_queue qs ! unat c"
  show ?thesis
  proof (cases "valid_client cfg c \<and> 0 < ?n")
    case True
    note ring = ring_dequeue [OF queue_inv_ring [OF inv], of c]
    from True deq have "x = ?row ! nat ?h"
      and "qs' = put_ring (unat c) ?row ((?h + 1) smod int ?sz) (?n - 1) qs"
      by (auto simp: dequeue_event_def Let_def valid_client_def put_ring_def)
    then show ?thesis
      using True inv ring queued_ring [OF inv, of c]
      by (simp add: put_ring_inv put_ring_queued)
  next
    case False
    then have "int (length (queued qs c)) \<le> 0"
      using queued_length [OF inv, of c] queued_invalid [OF inv, of c]
      by (cases "valid_client cfg c") auto
    moreover from False deq have "x = event XTCP_EVENT_NONE (-1)" "qs' = qs"
      by (auto simp: dequeue_event_def Let_def valid_client_def split: if_splits)
    ultimately show ?thesis using inv by (simp add: fun_upd_idem)
  qed
qed

lemma purge_spec:
  assumes inv: "queue_inv cfg qs" and fr: "free_notifications_on_queue cfg c i qs = (r, qs')"
  shows "r = int (length (queued qs c)) - int (length (survivors i (queued qs c))) \<and>
    queued qs' = (queued qs)(c := survivors i (queued qs c)) \<and>
    queue_inv cfg qs' \<and> notify qs' = notify qs"
proof (cases "valid_client cfg c")
  case True
  let ?h = "client_heads qs ! unat c"
  let ?keep = "survivors i (queued qs c)"
  obtain row w rd where
    "free_loop (CLIENT_QUEUE_SIZE cfg) i (nat (client_num_events qs ! unat c))
       (client_queue qs ! unat c, client_num_events qs ! unat c, ?h, ?h, 0) =
     (row, int (length ?keep), w, rd, client_num_events qs ! unat c - int (length ?keep))"
    and ring: "ring_ok (CLIENT_QUEUE_SIZE cfg) row ?h (int (length ?keep))"
      "ring_list row ?h (int (length ?keep)) = ?keep"
    using ring_purge [OF queue_inv_ring [OF inv True], of i] queued_ring [OF inv True] by auto
  with True fr have "qs' = put_ring (unat c) row ?h (int (length ?keep)) qs"
    and "r = client_num_events qs ! unat c - int (length ?keep)"
    by (auto simp: free_notifications_on_queue_def Let_def valid_client_def put_ring_def)
  then show ?thesis
    using True inv ring queued_length [OF inv True] by (simp add: put_ring_inv put_ring_queued)
next
  case False
  with inv fr queued_invalid [OF inv False] show ?thesis
    by (simp add: free_notifications_on_queue_def valid_client_def fun_upd_idem)
qed

section \<open>The module implements the contract\<close>

lemma notifiable_enqueue:
  assumes "queue_inv cfg qs" "enqueue_event_and_notify cfg c i e qs = Some (r, qs')"
  shows "notifiable (notify qs') = notifiable (notify qs)"
  using enqueue_spec [OF assms] notifiable_notify by (cases "r = XTCP_SUCCESS") auto

interpretation cq: event_queue "enqueue_event_and_notify cfg" "dequeue_event cfg"
  "free_notifications_on_queue cfg" queued "\<lambda>qs. notifiable (notify qs)" "valid_client cfg"
  "CLIENT_QUEUE_SIZE cfg" "queue_inv cfg"
  for cfg
proof
  show "enqueue_event_and_notify cfg c i e q \<noteq> None" if "notifiable (notify q) c" for q c i e
    using enqueue_total [OF that, of cfg i e] by auto
  show "(r, queued q') = fifo_enq (valid_client cfg) (CLIENT_QUEUE_SIZE cfg) c i e (queued q) \<and>
      queue_inv cfg q' \<and> notifiable (notify q') = notifiable (notify q)"
    if "queue_inv cfg q" "enqueue_event_and_notify cfg c i e q = Some (r, q')" for q c i e r q'
    using enqueue_spec [OF that] notifiable_enqueue [OF that] by (auto simp: fifo_enq_def)
  show "(x, queued q') = fifo_deq c (queued q) \<and> queue_inv cfg q' \<and>
      notifiable (notify q') = notifiable (notify q)"
    if "queue_inv cfg q" "dequeue_event cfg c q = (x, q')" for q c x q'
    using dequeue_spec [OF that] by (auto simp: fifo_deq_def no_event_def fun_upd_idem split: list.splits)
  show "(n, queued q') = fifo_purge c i (queued q) \<and> queue_inv cfg q' \<and>
      notifiable (notify q') = notifiable (notify q)"
    if "queue_inv cfg q" "free_notifications_on_queue cfg c i q = (n, q')" for q c i n q'
    using purge_spec [OF that] by (auto simp: fifo_purge_def)
qed (auto dest: enqueue_spec simp: queued_le_capacity queued_invalid)

end
