(* ===== verification/Xtcp_State.thy ===== *)
theory Xtcp_State
  imports Connection_Rx Client_Queue
begin

text \<open>
  The memory of the \<open>xtcp_lwip\<close> task: lwIP's state, the statics of \<open>connection.c\<close>
  and those of \<open>client_queue.c\<close> and \<open>xtcp_shim.xc\<close>, with the invariant that ties
  them together. The functions that span these modules (the callbacks and the socket calls) work on
  this record.
\<close>

record 'w xtcp_state = "'w conn_state" +
  queues :: queue_state

definition enqueue ::
  "xtcp_config \<Rightarrow> u32 \<Rightarrow> int \<Rightarrow> xtcp_event_type_t \<Rightarrow> 'w xtcp_state
     \<Rightarrow> (xtcp_error_code_t \<times> 'w xtcp_state) option" where
  "enqueue cfg c i e s = do {
     (r, q) \<leftarrow> enqueue_event_and_notify cfg c i e (queues s);
     Some (r, s\<lparr>queues := q\<rparr>) }"

section \<open>What the receive functions leave alone\<close>

text \<open>The entries of the table without their \<open>pbuf\<close> field.\<close>

definition sockets :: "('w, 'z) conn_state_scheme \<Rightarrow> connection_entry_t list" where
  "sockets s = map (\<lambda>c. c\<lparr>c_pbuf := None\<rparr>) (connections s)"

lemma sockets_simps [simp]:
  "sockets (upd_conn i (\<lambda>c. c\<lparr>c_pbuf := q\<rparr>) s) = sockets s"
  "sockets (store_pbuf a b s) = sockets s" "sockets (upd_lw f s) = sockets s"
proof -
  have "map (\<lambda>c. c\<lparr>c_pbuf := None\<rparr>) (xs[n := (xs ! n)\<lparr>c_pbuf := q\<rparr>]) = map (\<lambda>c. c\<lparr>c_pbuf := None\<rparr>) xs"
    for xs :: "connection_entry_t list" and n
    by (cases "n < length xs") (simp_all add: map_update list_update_same_conv list_update_beyond)
  then show "sockets (upd_conn i (\<lambda>c. c\<lparr>c_pbuf := q\<rparr>) s) = sockets s"
    by (simp add: sockets_def upd_conn_def)
  show "sockets (store_pbuf a b s) = sockets s" "sockets (upd_lw f s) = sockets s"
    by (simp_all add: sockets_def)
qed

lemma queues_simps [simp]:
  "queues (upd_conn i f s) = queues s" "queues (store_pbuf a b s) = queues s"
  "queues (upd_lw g s) = queues s"
  by (simp_all add: upd_conn_def store_pbuf_def upd_lw_def)

lemma sockets_entry:
  assumes "sockets s' = sockets s" "nat i < length (connections s)"
  shows "(conn s' i)\<lparr>c_pbuf := None\<rparr> = (conn s i)\<lparr>c_pbuf := None\<rparr>"
proof -
  have "length (connections s') = length (connections s)"
    using assms(1) unfolding sockets_def by (metis length_map)
  then show ?thesis
    using assms unfolding sockets_def by (metis nth_map)
qed

lemma entry_eqD:
  assumes "(e :: connection_entry_t)\<lparr>c_pbuf := None\<rparr> = e'\<lparr>c_pbuf := None\<rparr>"
  shows "c_is_active e = c_is_active e'" "c_client_num e = c_client_num e'"
    "c_protocol e = c_protocol e'" "c_pcb e = c_pcb e'" "c_client_data e = c_client_data e'"
  using assms by (cases e; cases e'; simp)+

lemma sockets_owner:
  fixes s :: "('a, 'b) conn_state_scheme" and s' :: "('c, 'd) conn_state_scheme"
  assumes "sockets s' = sockets s" "table_inv cfg s"
  shows "owner cfg s' = owner cfg s" "get_client_info cfg i s' = get_client_info cfg i s"
    "get_protocol cfg i s' = get_protocol cfg i s"
proof -
  have e: "c_is_active (conn s' j) = c_is_active (conn s j) \<and>
      c_client_num (conn s' j) = c_client_num (conn s j) \<and>
      c_protocol (conn s' j) = c_protocol (conn s j)" if "in_range cfg j" for j
    using sockets_entry [OF assms(1), of j, THEN entry_eqD(1)]
      sockets_entry [OF assms(1), of j, THEN entry_eqD(2)]
      sockets_entry [OF assms(1), of j, THEN entry_eqD(3)] that assms(2)
    by (simp add: in_range_def table_inv_def nat_less_iff)
  then show "owner cfg s' = owner cfg s" by (auto simp: owner_def fun_eq_iff)
  show "get_client_info cfg i s' = get_client_info cfg i s"
    "get_protocol cfg i s' = get_protocol cfg i s"
    using e by (auto simp: get_client_info_def get_protocol_def)
qed

lemma set_remote_frame:
  assumes "set_remote cfg i remote port p s = Some (r, s')"
  shows "sockets s' = sockets s \<and> last_guid s' = last_guid s"
  using assms
  by (auto simp: set_remote_def Let_def split: if_splits option.splits bind_splits)

lemma set_remote_queues:
  "set_remote cfg i remote port p s = Some (r, s') \<Longrightarrow> queues s' = queues s"
  by (auto simp: set_remote_def Let_def split: if_splits option.splits bind_splits)

lemma unlink_remote_frame:
  assumes "unlink_remote cfg i p s = Some (r, s')"
  shows "sockets s' = sockets s \<and> last_guid s' = last_guid s"
  using assms
  by (auto simp: unlink_remote_def Let_def split: if_splits option.splits bind_splits)

lemma unlink_remote_queues:
  "unlink_remote cfg i p s = Some (r, s') \<Longrightarrow> queues s' = queues s"
  by (auto simp: unlink_remote_def Let_def split: if_splits option.splits bind_splits)

lemma frame_lw [simp]:
  "sockets (s\<lparr>lw := st\<rparr>) = sockets s"
  "last_guid (store_pbuf a b s) = last_guid s" "last_guid (upd_lw f s) = last_guid s"
  by (simp_all add: sockets_def store_pbuf_def upd_lw_def)

lemma free_remote_data_frame:
  "free_remote_data L cfg i s = Some (r, s') \<Longrightarrow>
     sockets s' = sockets s \<and> last_guid s' = last_guid s \<and> queues s' = queues s"
  by (auto simp: free_remote_data_def Let_def split: if_splits option.splits bind_splits)

lemma clear_pending_frame:
  "clear_pending_rx_data_on_connection L cfg i s = Some s' \<Longrightarrow>
     sockets s' = sockets s \<and> last_guid s' = last_guid s \<and> queues s' = queues s"
  by (auto simp: clear_pending_rx_data_on_connection_def Let_def
      split: if_splits option.splits bind_splits)

text \<open>Linking a buffer leaves the control blocks alone.\<close>

lemma pcbs_simps [simp]:
  "tcp_pcbs (lw (store_pbuf a b s)) = tcp_pcbs (lw s)" "udp_pcbs (lw (store_pbuf a b s)) = udp_pcbs (lw s)"
  by (simp_all add: store_pbuf_def)

lemma set_remote_pcbs:
  "set_remote cfg i remote port p s = Some (r, s') \<Longrightarrow>
     tcp_pcbs (lw s') = tcp_pcbs (lw s) \<and> udp_pcbs (lw s') = udp_pcbs (lw s)"
  by (auto simp: set_remote_def Let_def split: if_splits option.splits bind_splits)

lemma set_remote_world:
  "set_remote cfg i remote port p s = Some (r, s') \<Longrightarrow> world (lw s') = world (lw s)"
  by (auto simp: set_remote_def Let_def split: if_splits option.splits bind_splits)

section \<open>The system invariant\<close>

definition clients_ok :: "xtcp_config \<Rightarrow> 'w xtcp_state \<Rightarrow> bool" where
  "clients_ok cfg s \<longleftrightarrow>
     (\<forall>i c p. owner cfg s i = Some (c, p) \<longrightarrow> notifiable (notify (queues s)) c)"

definition sys_inv ::
  "xtcp_config \<Rightarrow> ('w \<Rightarrow> addr set) \<Rightarrow> 'w xtcp_state \<Rightarrow> rx \<Rightarrow> bool" where
  "sys_inv cfg held s R \<longleftrightarrow>
     rx_rel cfg held s R \<and> queue_inv cfg (queues s) \<and> clients_ok cfg s"

lemma rx_rel_queues [simp]:
  "rx_rel cfg held (s\<lparr>queues := q\<rparr>) R = rx_rel cfg held s R"
  by (simp add: rx_rel_def table_inv_def)

lemma owner_queues [simp]: "owner cfg (s\<lparr>queues := q\<rparr>) = owner cfg s"
  by (simp add: owner_def fun_eq_iff)

lemma DEINIT_invalid: "config_ok cfg \<Longrightarrow> \<not> valid_client cfg DEINIT"
proof -
  have "unat DEINIT = 2 ^ 32 - 1" by (simp add: DEINIT_def unsigned_minus_1_eq_mask mask_eq_exp_minus_1)
  then show "config_ok cfg \<Longrightarrow> \<not> valid_client cfg DEINIT"
    by (auto simp: config_ok_def valid_client_def)
qed

text \<open>
  Delivering an event on a socket, to the client \<open>get_client_info\<close> names: it always
  returns, and fails only when there is no such client or its queue is full.
\<close>

lemma enqueue_client:
  assumes "sys_inv cfg held s R" "c = get_client_info cfg i s"
  shows "\<exists>r q. enqueue cfg c x e s = Some (r, s\<lparr>queues := q\<rparr>) \<and>
    enqueue_event_and_notify cfg c x e (queues s) = Some (r, q) \<and>
    sys_inv cfg held (s\<lparr>queues := q\<rparr>) R \<and> (r \<noteq> XTCP_SUCCESS \<longrightarrow> q = queues s) \<and>
    (r, queued q) = fifo_enq (valid_client cfg) (CLIENT_QUEUE_SIZE cfg) c x e (queued (queues s))"
proof -
  from assms(1) have qi: "queue_inv cfg (queues s)" and rel: "rx_rel cfg held s R"
    and cl: "clients_ok cfg s" by (simp_all add: sys_inv_def)
  have "\<exists>r q. enqueue_event_and_notify cfg c x e (queues s) = Some (r, q)"
  proof (cases "c = DEINIT")
    case True
    with DEINIT_invalid [OF queue_invD(1) [OF qi]] show ?thesis
      by (simp add: enqueue_event_and_notify_def valid_client_def)
  next
    case False
    then have r: "in_range cfg i" using assms(2) by (auto simp: get_client_info_def split: if_splits)
    with False have "owner cfg s i = Some (c, c_protocol (conn s i))"
      using table_inv_entry [OF rx_relD(1) [OF rel] r] assms(2)
      by (auto simp: owner_def entry_ok_def get_client_info_def)
    with cl have "notifiable (notify (queues s)) c" by (auto simp: clients_ok_def)
    then show ?thesis using enqueue_total by blast
  qed
  then obtain r q where q: "enqueue_event_and_notify cfg c x e (queues s) = Some (r, q)" by blast
  with cq.enq_law [OF qi q] cq.enq_refused [OF qi q] assms(1) show ?thesis
    by (auto simp: enqueue_def sys_inv_def clients_ok_def fun_eq_iff)
qed

section \<open>Changes of the table that keep the receive queues\<close>

lemma rx_rel_table:
  assumes "rx_rel cfg held s R" "table_inv cfg s'" "lw s' = lw s"
    and "\<And>j. in_range cfg j \<Longrightarrow> c_pbuf (conn s' j) = c_pbuf (conn s j)"
  shows "rx_rel cfg held s' R"
  using assms unfolding rx_rel_def by simp

lemma free_client_pbufs:
  assumes "table_inv cfg s" "in_range cfg j"
  shows "c_pbuf (conn (free_client_connection cfg i s) j) = c_pbuf (conn s j)"
  using assms conn_upd_conn [OF assms(1), of i j] by (simp add: free_client_connection_def in_range_def)

lemma lw_free_client [simp]: "lw (free_client_connection cfg i s) = lw s"
  by (simp add: free_client_connection_def)

lemma queues_free_client [simp]: "queues (free_client_connection cfg i s) = queues s"
  by (simp add: free_client_connection_def)

lemma sys_free_client:
  assumes "sys_inv cfg held s R"
  shows "sys_inv cfg held (free_client_connection cfg i s) R"
proof -
  have rel: "rx_rel cfg held s R" using assms by (simp add: sys_inv_def)
  note F = free_client_connection_law [OF rx_relD(1) [OF rel], of i]
  have "rx_rel cfg held (free_client_connection cfg i s) R"
    by (rule rx_rel_table [OF rel]) (use F free_client_pbufs [OF rx_relD(1) [OF rel]] in simp_all)
  with assms F show ?thesis by (auto simp: sys_inv_def clients_ok_def split: if_splits)
qed

lemma assign_pbufs:
  assumes "table_inv cfg s" "assign_client_connection cfg c p s = (r, s')" "in_range cfg j"
  shows "c_pbuf (conn s' j) = c_pbuf (conn s j)"
proof -
  have n: "nat j < length (connections s)" using assms(1,3) by (simp add: table_inv_def in_range_def nat_less_iff)
  have "c_pbuf (xs[k := e] ! m) = c_pbuf (xs ! m)"
    if "c_pbuf e = c_pbuf (xs ! k)" "m < length xs"
    for xs :: "connection_entry_t list" and k e m
    using that by (cases "k = m") simp_all
  with n assms(2) show ?thesis
    by (auto simp: assign_client_connection_eq [OF assms(1)] upd_conn_def split: option.splits)
qed

lemma assign_lw:
  "assign_client_connection cfg c p s = (r, s') \<Longrightarrow> lw s' = lw s"
  by (auto simp: assign_client_connection_def split: option.splits)

lemma assign_queues:
  "assign_client_connection cfg c p s = (r, s') \<Longrightarrow> queues s' = queues s"
  by (auto simp: assign_client_connection_def split: option.splits)

lemma sys_assign:
  assumes "sys_inv cfg held s R" "assign_client_connection cfg c p s = (r, s')" "c \<noteq> DEINIT"
    and "notifiable (notify (queues s)) c"
  shows "sys_inv cfg held s' R"
proof -
  have rel: "rx_rel cfg held s R" using assms(1) by (simp add: sys_inv_def)
  note t = rx_relD(1) [OF rel]
  note A = assign_client_connection_law [OF t assms(3,2)]
  have "rx_rel cfg held s' R"
    by (rule rx_rel_table [OF rel]) (use A assign_pbufs [OF t assms(2)] assign_lw [OF assms(2)] in simp_all)
  with assms(1,4) A assign_queues [OF assms(2)] show ?thesis
    by (auto simp: sys_inv_def clients_ok_def split: if_splits)
qed

lemma sys_inv_frame:
  assumes "sys_inv cfg held s R" "rx_rel cfg held s' R'" "sockets s' = sockets s" "queues s' = queues s"
  shows "sys_inv cfg held s' R'" "get_client_info cfg i s' = get_client_info cfg i s"
proof -
  have t: "table_inv cfg s" using assms(1) rx_relD(1) by (auto simp: sys_inv_def)
  show "sys_inv cfg held s' R'"
    using assms sockets_owner(1) [OF assms(3) t] by (simp add: sys_inv_def clients_ok_def)
  show "get_client_info cfg i s' = get_client_info cfg i s"
    by (rule sockets_owner(2) [OF assms(3) t])
qed

lemma sys_keeps:
  assumes "sys_inv cfg held s R" "keeps held f"
  shows "sys_inv cfg held (upd_lw f s) R"
proof -
  have "rx_rel cfg held s R" using assms(1) by (simp add: sys_inv_def)
  from sys_inv_frame(1) [OF assms(1) rx_rel_keeps [OF this assms(2)]] show ?thesis by simp
qed

end
