(* ===== verification/Event_Delivery.thy ===== *)
theory Event_Delivery
  imports Client_Queue
begin

text \<open>
  The path of an event from the queue to the client: the \<open>get_event\<close> case of
  \<open>xtcp_lwip.xc\<close>, which runs when a notified client collects an event, and what it gives
  together with \<open>enqueue_event_and_notify\<close>: a client with queued events always has a
  notification pending, and collecting until the queue is empty yields the events in order.
\<close>

text \<open>
  The client's call clears its notification before the case body runs; \<open>renotify\<close> sets it
  again when events are left.
\<close>

definition get_event ::
  "xtcp_config \<Rightarrow> u32 \<Rightarrow> queue_state \<Rightarrow> ((xtcp_event_type_t \<times> int) \<times> queue_state) option" where
  "get_event cfg i qs = do {
     let qs = qs\<lparr>notify := clear_notification i (notify qs)\<rparr>;
     let (head, qs) = dequeue_event cfg i qs;
     qs \<leftarrow> renotify cfg i qs;
     Some ((xtcp_event head, ev_id head), qs) }"

text \<open>The steps that change a queue while the server runs.\<close>

inductive queue_trans :: "xtcp_config \<Rightarrow> queue_state \<Rightarrow> queue_state \<Rightarrow> bool" for cfg where
  enqueue: "enqueue_event_and_notify cfg c i e qs = Some (r, qs') \<Longrightarrow> queue_trans cfg qs qs'"
| collect: "get_event cfg c qs = Some (x, qs') \<Longrightarrow> queue_trans cfg qs qs'"
| purge: "free_notifications_on_queue cfg c i qs = (n, qs') \<Longrightarrow> queue_trans cfg qs qs'"

inductive_cases queue_transE: "queue_trans cfg qs qs'"

definition awake :: "queue_state \<Rightarrow> bool" where
  "awake qs \<longleftrightarrow> n_xtcp (notify qs) \<noteq> 0 \<longrightarrow> (\<forall>c. queued qs c \<noteq> [] \<longrightarrow> pending (notify qs) c)"

section \<open>Collecting one event\<close>

lemma renotify_spec:
  assumes "queue_inv cfg qs" "renotify cfg c qs = Some qs'"
  shows "queued qs' = queued qs" "queue_inv cfg qs'" "n_xtcp (notify qs') = n_xtcp (notify qs)"
    "notifiable (notify qs') = notifiable (notify qs)"
    "(\<exists>n. qs' = qs\<lparr>notify := n\<rparr>)"
    "pending (notify qs) d \<Longrightarrow> pending (notify qs') d"
    "n_xtcp (notify qs) \<noteq> 0 \<Longrightarrow> queued qs c \<noteq> [] \<Longrightarrow> pending (notify qs') c"
    "queued qs c = [] \<Longrightarrow> qs' = qs"
proof -
  have "valid_client cfg c \<and> 0 < client_num_events qs ! unat c \<longleftrightarrow> queued qs c \<noteq> []"
    using queued_length [OF assms(1), of c] queued_invalid [OF assms(1), of c]
    by (cases "valid_client cfg c"; cases "queued qs c") auto
  then consider (notify) n where "queued qs c \<noteq> []" "client_intf_notify c (notify qs) = Some n"
      "qs' = qs\<lparr>notify := n\<rparr>" | (skip) "queued qs c = []" "qs' = qs"
    using assms(2) by (auto simp: renotify_def valid_client_def split: if_splits bind_splits)
  note C = this
  show "queued qs' = queued qs" "queue_inv cfg qs'" "n_xtcp (notify qs') = n_xtcp (notify qs)"
    "notifiable (notify qs') = notifiable (notify qs)" "\<exists>n. qs' = qs\<lparr>notify := n\<rparr>"
    "pending (notify qs) d \<Longrightarrow> pending (notify qs') d"
    "n_xtcp (notify qs) \<noteq> 0 \<Longrightarrow> queued qs c \<noteq> [] \<Longrightarrow> pending (notify qs') c"
    "queued qs c = [] \<Longrightarrow> qs' = qs"
    using assms(1)
    by (cases rule: C; auto simp: client_intf_notify_frame notifiable_notify fun_eq_iff
        intro: exI [of _ "notify qs"])+
qed

lemma get_event_spec:
  assumes inv: "queue_inv cfg qs" and get: "get_event cfg c qs = Some ((e, i), qs')"
  shows "event e i = (case queued qs c of [] \<Rightarrow> no_event | y # _ \<Rightarrow> y)"
    "queued qs' = (queued qs)(c := tl (queued qs c))"
    "queue_inv cfg qs'" "n_xtcp (notify qs') = n_xtcp (notify qs)"
    "notifiable (notify qs') = notifiable (notify qs)"
    "d \<noteq> c \<Longrightarrow> pending (notify qs) d \<Longrightarrow> pending (notify qs') d"
    "n_xtcp (notify qs) \<noteq> 0 \<Longrightarrow> queued qs' c \<noteq> [] \<Longrightarrow> pending (notify qs') c"
    "queued qs' c = [] \<Longrightarrow> \<not> pending (notify qs') c"
proof -
  let ?q0 = "qs\<lparr>notify := clear_notification c (notify qs)\<rparr>"
  obtain x q1 where d: "dequeue_event cfg c ?q0 = (x, q1)" by force
  from inv have "queue_inv cfg ?q0" by simp
  note D = dequeue_spec [OF this d]
  from get d have r: "renotify cfg c q1 = Some qs'" and x: "x = event e i"
    by (auto simp: get_event_def split: bind_splits)
  note R = renotify_spec [OF D [THEN conjunct2, THEN conjunct2, THEN conjunct1] r]
  show "event e i = (case queued qs c of [] \<Rightarrow> no_event | y # _ \<Rightarrow> y)"
    using D x by (simp add: no_event_def split: list.splits)
  show "queued qs' = (queued qs)(c := tl (queued qs c))" using D R(1) by simp
  show "queue_inv cfg qs'" by (rule R(2))
  show "n_xtcp (notify qs') = n_xtcp (notify qs)" using D R(3) by simp
  show "notifiable (notify qs') = notifiable (notify qs)" using D R(4) by (auto simp: fun_eq_iff)
  show "d \<noteq> c \<Longrightarrow> pending (notify qs) d \<Longrightarrow> pending (notify qs') d"
    using D R(6) [of d] by (simp add: pending_clear)
  show "n_xtcp (notify qs) \<noteq> 0 \<Longrightarrow> queued qs' c \<noteq> [] \<Longrightarrow> pending (notify qs') c"
    using D R(1,7) by simp
  show "queued qs' c = [] \<Longrightarrow> \<not> pending (notify qs') c"
    using D R(1,8) by (auto simp: pending_def clear_notification_def)
qed

lemma get_event_total:
  assumes "queue_inv cfg qs" "notifiable (notify qs) c"
  shows "\<exists>e i qs'. get_event cfg c qs = Some ((e, i), qs')"
proof -
  obtain x q1 where d: "dequeue_event cfg c (qs\<lparr>notify := clear_notification c (notify qs)\<rparr>) = (x, q1)"
    by force
  with dequeue_spec [OF _ d] assms have "notifiable (notify q1) c" by simp
  then obtain n where "client_intf_notify c (notify q1) = Some n"
    using client_intf_notify_Some_iff by blast
  with d show ?thesis by (auto simp: get_event_def renotify_def)
qed

section \<open>No lost notification\<close>

lemma queue_trans_inv:
  assumes "queue_trans cfg qs qs'" "queue_inv cfg qs"
  shows "queue_inv cfg qs'" "n_xtcp (notify qs') = n_xtcp (notify qs)"
    "notifiable (notify qs') = notifiable (notify qs)"
  using assms
proof (atomize (full), cases rule: queue_trans.cases)
  case (enqueue c i e r)
  with enqueue_spec [OF assms(2) enqueue] notifiable_enqueue [OF assms(2) enqueue]
  show "queue_inv cfg qs' \<and> n_xtcp (notify qs') = n_xtcp (notify qs) \<and>
      notifiable (notify qs') = notifiable (notify qs)"
    using client_intf_notify_frame(1) by (cases "r = XTCP_SUCCESS") auto
next
  case (collect c x)
  then have g: "get_event cfg c qs = Some ((fst x, snd x), qs')" by simp
  show "queue_inv cfg qs' \<and> n_xtcp (notify qs') = n_xtcp (notify qs) \<and>
      notifiable (notify qs') = notifiable (notify qs)"
    using get_event_spec(3-5) [OF assms(2) g] by simp
next
  case (purge c i n)
  show "queue_inv cfg qs' \<and> n_xtcp (notify qs') = n_xtcp (notify qs) \<and>
      notifiable (notify qs') = notifiable (notify qs)"
    using purge_spec [OF assms(2) purge] by simp
qed

lemma queue_trans_notify:
  assumes "queue_trans cfg qs qs'" "queue_inv cfg qs" "notify_inv (notify qs)"
  shows "notify_inv (notify qs')"
  using queue_trans_inv [OF assms(1,2)] assms(3) by (simp add: notify_inv_iff)

lemma queue_trans_awake:
  assumes "queue_trans cfg qs qs'" "queue_inv cfg qs" "awake qs"
  shows "awake qs'"
  using assms(1)
proof cases
  case (enqueue c i e r)
  note E = enqueue_spec [OF assms(2) enqueue]
  show ?thesis
  proof (cases "r = XTCP_SUCCESS")
    case True
    with E have n: "client_intf_notify c (notify qs) = Some (notify qs')"
      and q: "queued qs' = (queued qs)(c := queued qs c @ [event e i])" by simp_all
    show ?thesis
      using assms(3) client_intf_notify_frame [OF n] by (auto simp: awake_def q)
  qed (use E assms(3) in simp)
next
  case (collect c x)
  then have g: "get_event cfg c qs = Some ((fst x, snd x), qs')" by simp
  note G = get_event_spec [OF assms(2) g]
  show ?thesis unfolding awake_def
  proof (intro impI allI)
    fix d
    assume n: "n_xtcp (notify qs') \<noteq> 0" and d: "queued qs' d \<noteq> []"
    show "pending (notify qs') d"
    proof (cases "d = c")
      case True
      with n d G(4,7) show ?thesis by simp
    next
      case False
      with n d G(2,4) assms(3) have "pending (notify qs) d" by (simp add: awake_def)
      with False show ?thesis by (rule G(6))
    qed
  qed
next
  case (purge c i n)
  have "survivors i xs \<noteq> [] \<Longrightarrow> xs \<noteq> []" for xs by auto
  with purge_spec [OF assms(2) purge] assms(3) show ?thesis by (simp add: awake_def)
qed

text \<open>Collecting \<open>n\<close> times.\<close>

primrec collect_n ::
  "xtcp_config \<Rightarrow> u32 \<Rightarrow> nat \<Rightarrow> queue_state \<Rightarrow> (client_event_t list \<times> queue_state) option" where
  "collect_n cfg c 0 qs = Some ([], qs)"
| "collect_n cfg c (Suc n) qs = do {
     ((e, i), qs) \<leftarrow> get_event cfg c qs;
     (xs, qs) \<leftarrow> collect_n cfg c n qs;
     Some (event e i # xs, qs) }"

end
