(* ===== verification/Queue_Properties.thy ===== *)
theory Queue_Properties
  imports Event_Delivery
begin

text \<open>
  What the event queues of \<open>client_queue.c\<close> guarantee: refinement of a bounded queue,
  the behaviour of each operation on every branch, index bounds, and delivery to the clients.
\<close>

section \<open>Example data for the witnesses\<close>

definition ex_cfg :: xtcp_config where
  "ex_cfg = \<lparr>MAX_XTCP_CLIENTS = 2, CLIENT_QUEUE_SIZE = 2, MEMP_NUM_UDP_PCB = 1, MEMP_NUM_TCP_PCB = 2\<rparr>"

text \<open>A server with two clients, before its queues are initialised.\<close>

definition ex_boot :: queue_state where
  "ex_boot = \<lparr>client_queue = [], client_heads = [], client_num_events = [],
     notify = \<lparr>n_xtcp = 2, i_xtcp = [False, False]\<rparr>\<rparr>"

lemma ex_cfg_simps [simp]:
  "MAX_XTCP_CLIENTS ex_cfg = 2" "CLIENT_QUEUE_SIZE ex_cfg = 2" "MAX_OPEN_SOCKETS ex_cfg = 3"
  "config_ok ex_cfg"
  by (simp_all add: ex_cfg_def MAX_OPEN_SOCKETS_def config_ok_def)

lemma ex_boot_simps [simp]:
  "n_xtcp (notify ex_boot) = 2" "notifiable (notify ex_boot) c \<longleftrightarrow> unat c < 2"
  by (simp_all add: ex_boot_def notifiable_def numeral_2_eq_2)

section \<open>Refinement\<close>

text \<open>
  C4. From the state that \<open>xtcp_init_queue\<close> leaves, every sequence of
  \<open>enqueue_event_and_notify\<close>, \<open>dequeue_event\<close> and
  \<open>free_notifications_on_queue\<close> runs to its end, for every client whose interface
  exists, and returns exactly what one bounded first-in first-out list of events per client
  returns; the ring buffers hold that list afterwards and their indices are in range.
\<close>

theorem client_queue_refines_fifo:
  assumes "config_ok cfg"
    and "\<forall>p \<in> set ps. \<forall>c \<in> enq_client p. notifiable (notify qs) c"
  shows "\<exists>outs qs'.
    queue_run (enqueue_event_and_notify cfg) (dequeue_event cfg) (free_notifications_on_queue cfg)
      ps (xtcp_init_queue cfg qs) = Some (outs, qs') \<and>
    fifo_run (valid_client cfg) (CLIENT_QUEUE_SIZE cfg) ps (\<lambda>_. []) = (outs, queued qs') \<and>
    queue_inv cfg qs'"
proof -
  have "queued (xtcp_init_queue cfg qs) = (\<lambda>_. [])"
    by (simp add: fun_eq_iff xtcp_init_queue_queued)
  then show ?thesis
    using cq.run_refines [OF xtcp_init_queue_inv [OF assms(1), of qs], of ps] assms(2) by auto
qed

theorem client_queue_refines_fifo_witness:
  "\<exists>qs'. queue_run (enqueue_event_and_notify ex_cfg) (dequeue_event ex_cfg)
      (free_notifications_on_queue ex_cfg)
      [Enq 1 7 XTCP_RECV_DATA, Enq 1 8 XTCP_SENT_DATA, Enq 1 9 XTCP_CLOSED, Purge 1 7, Deq 1, Deq 1]
      (xtcp_init_queue ex_cfg ex_boot) =
    Some ([Code XTCP_SUCCESS, Code XTCP_SUCCESS, Code XTCP_ENOMEM, Count 1,
       Event (event XTCP_SENT_DATA 8), Event no_event], qs')"
  using client_queue_refines_fifo [of ex_cfg
      "[Enq 1 7 XTCP_RECV_DATA, Enq 1 8 XTCP_SENT_DATA, Enq 1 9 XTCP_CLOSED, Purge 1 7, Deq 1, Deq 1]"
      ex_boot]
  by (auto simp: fifo_enq_def fifo_deq_def fifo_purge_def valid_client_def)

section \<open>The operations\<close>

text \<open>
  \<open>enqueue_event_and_notify\<close> on every branch: an unknown client is refused with
  \<open>XTCP_EINVAL\<close>, a full queue with \<open>XTCP_ENOMEM\<close>, both without any change;
  otherwise the event becomes the newest of that client and of no other, the client is notified,
  and the invariant is kept.
\<close>

lemma enqueue_outcome:
  assumes "queue_inv cfg qs" "notifiable (notify qs) c"
  shows "\<exists>r qs'. enqueue_event_and_notify cfg c i e qs = Some (r, qs') \<and> queue_inv cfg qs' \<and>
    (if \<not> valid_client cfg c then r = XTCP_EINVAL \<and> qs' = qs
     else if length (queued qs c) = CLIENT_QUEUE_SIZE cfg then r = XTCP_ENOMEM \<and> qs' = qs
     else r = XTCP_SUCCESS \<and> queued qs' = (queued qs)(c := queued qs c @ [event e i]) \<and>
          (n_xtcp (notify qs) \<noteq> 0 \<longrightarrow> pending (notify qs') c))"
proof -
  obtain r qs' where enq: "enqueue_event_and_notify cfg c i e qs = Some (r, qs')"
    using enqueue_total [OF assms(2)] by blast
  show ?thesis
    using enq enqueue_spec [OF assms(1) enq] queued_le_capacity [OF assms(1), of c]
      client_intf_notify_frame(3) [of c "notify qs" "notify qs'"]
    by auto
qed

text \<open>
  C13. The in-place compaction of \<open>free_notifications_on_queue\<close>, across the wrap-around of
  the ring: exactly the events of the closed connection disappear, the others keep their order,
  other clients are untouched, and the result is the number of events removed.
\<close>

theorem free_notifications_filter:
  assumes "queue_inv cfg qs" "free_notifications_on_queue cfg c i qs = (n, qs')"
  shows "queued qs' = (queued qs)(c := filter (\<lambda>e. ev_id e \<noteq> i) (queued qs c)) \<and>
    n = int (length (filter (\<lambda>e. ev_id e = i) (queued qs c))) \<and>
    client_heads qs' = client_heads qs \<and> notify qs' = notify qs \<and> queue_inv cfg qs'"
proof -
  have "length (filter (\<lambda>e. ev_id e = i) xs) = length xs - length (survivors i xs)" for xs
    using sum_length_filter_compl [of "\<lambda>e. ev_id e = i" xs] by simp
  moreover have "length (survivors i xs) \<le> length xs" for xs by simp
  moreover have "client_heads qs' = client_heads qs"
    using assms(2) by (auto simp: free_notifications_on_queue_def Let_def split: if_splits prod.splits)
  ultimately show ?thesis using purge_spec [OF assms] by (simp add: of_nat_diff)
qed

text \<open>A ring that wraps around: its oldest event is in the last slot.\<close>

definition ex_wrapped :: queue_state where
  "ex_wrapped = ex_boot\<lparr>client_queue := [[event XTCP_SENT_DATA 4, event XTCP_RECV_DATA 3],
       [event XTCP_EVENT_NONE 0, event XTCP_EVENT_NONE 0]],
     client_heads := [1, 0], client_num_events := [2, 0]\<rparr>"

lemma ex_wrapped_inv: "queue_inv ex_cfg ex_wrapped"
  by (simp add: queue_inv_def ex_wrapped_def ring_ok_def less_Suc_eq numeral_2_eq_2)

lemma ex_wrapped_queued:
  "queued ex_wrapped 0 = [event XTCP_RECV_DATA 3, event XTCP_SENT_DATA 4]" "queued ex_wrapped 1 = []"
  by (simp_all add: queued_def ex_wrapped_def ring_list_def numeral_2_eq_2)

lemma ex_wrapped_notify: "notify ex_wrapped = notify ex_boot"
  by (simp add: ex_wrapped_def)

theorem free_notifications_filter_witness:
  "queued (snd (free_notifications_on_queue ex_cfg 0 3 ex_wrapped)) 0 = [event XTCP_SENT_DATA 4] \<and>
   fst (free_notifications_on_queue ex_cfg 0 3 ex_wrapped) = 1"
  using free_notifications_filter [OF ex_wrapped_inv prod.collapse [symmetric], of 0 3]
  by (simp add: ex_wrapped_queued)

section \<open>Bounds\<close>

text \<open>
  C30. No index of \<open>client_queue.c\<close> leaves its array and no sum of indices overflows an
  \<open>int32_t\<close>, after any sequence of operations from \<open>xtcp_init_queue\<close>: the head
  is a slot of the ring, the slot an enqueue writes is one too, and the largest sum computed fits. The
  two indices of the loop that withdraws the events of a connection are slots of the ring before each of its
  iterations.
\<close>

theorem queue_indices_in_bounds:
  fixes c :: u32
  assumes "config_ok cfg" "unat c < MAX_XTCP_CLIENTS cfg"
    and "queue_run (enqueue_event_and_notify cfg) (dequeue_event cfg) (free_notifications_on_queue cfg)
           ps (xtcp_init_queue cfg qs) = Some (outs, qs')"
    and "\<forall>p \<in> set ps. \<forall>c \<in> enq_client p. notifiable (notify qs) c"
  shows "0 \<le> client_heads qs' ! unat c \<and> client_heads qs' ! unat c < int (CLIENT_QUEUE_SIZE cfg) \<and>
    0 \<le> client_num_events qs' ! unat c \<and> client_num_events qs' ! unat c \<le> int (CLIENT_QUEUE_SIZE cfg) \<and>
    length (client_queue qs' ! unat c) = CLIENT_QUEUE_SIZE cfg \<and>
    (client_heads qs' ! unat c + client_num_events qs' ! unat c) smod int (CLIENT_QUEUE_SIZE cfg)
      \<in> {0..<int (CLIENT_QUEUE_SIZE cfg)} \<and>
    int32_range (client_heads qs' ! unat c + client_num_events qs' ! unat c + 1) \<and>
    (\<forall>x k. case free_loop (CLIENT_QUEUE_SIZE cfg) x k (client_queue qs' ! unat c, client_num_events qs' ! unat c,
        client_heads qs' ! unat c, client_heads qs' ! unat c, 0) of
      (row, num_events, write_index, read_index, result) \<Rightarrow> length row = CLIENT_QUEUE_SIZE cfg \<and>
        write_index \<in> {0..<int (CLIENT_QUEUE_SIZE cfg)} \<and> read_index \<in> {0..<int (CLIENT_QUEUE_SIZE cfg)})"
proof -
  have "queue_inv cfg qs'"
    using cq.run_refines [OF xtcp_init_queue_inv [OF assms(1), of qs], of ps] assms(3,4) by auto
  from queue_inv_ring [OF this, of c] assms(2)
  have R: "ring_ok (CLIENT_QUEUE_SIZE cfg) (client_queue qs' ! unat c) (client_heads qs' ! unat c) (client_num_events qs' ! unat c)"
    by (simp add: valid_client_def)
  have "loop_in_bounds (CLIENT_QUEUE_SIZE cfg) (free_loop (CLIENT_QUEUE_SIZE cfg) x k (client_queue qs' ! unat c,
      client_num_events qs' ! unat c, client_heads qs' ! unat c, client_heads qs' ! unat c, 0))" for x k
    by (rule free_loop_in_bounds) (use R in \<open>simp add: loop_in_bounds_def ring_ok_def\<close>)
  with R config_okD(1,2) [OF assms(1)] show ?thesis
    by (auto simp: ring_ok_def smod_mod_positive int32_range_def loop_in_bounds_def split: prod.splits)
qed

theorem queue_indices_in_bounds_witness:
  "\<exists>qs'. queue_run (enqueue_event_and_notify ex_cfg) (dequeue_event ex_cfg)
      (free_notifications_on_queue ex_cfg) [Enq 1 7 XTCP_RECV_DATA, Deq 1] (xtcp_init_queue ex_cfg ex_boot)
      = Some ([Code XTCP_SUCCESS, Event (event XTCP_RECV_DATA 7)], qs') \<and>
    client_heads qs' ! 1 < 2"
proof -
  obtain qs' where run: "queue_run (enqueue_event_and_notify ex_cfg) (dequeue_event ex_cfg)
      (free_notifications_on_queue ex_cfg) [Enq 1 7 XTCP_RECV_DATA, Deq 1] (xtcp_init_queue ex_cfg ex_boot)
      = Some ([Code XTCP_SUCCESS, Event (event XTCP_RECV_DATA 7)], qs')"
    using cq.run_refines [OF xtcp_init_queue_inv [of ex_cfg ex_boot], of "[Enq 1 7 XTCP_RECV_DATA, Deq 1]"]
    by (auto simp: fifo_enq_def fifo_deq_def valid_client_def xtcp_init_queue_queued)
  with queue_indices_in_bounds [of ex_cfg 1, OF _ _ run] show ?thesis by simp
qed

section \<open>Delivery\<close>

text \<open>
  C10. No notification is lost: in every state that enqueueing, collecting and purging can reach
  from an initialised queue, a client with events in its queue has a notification pending, so a
  client that collects one event per notification is woken again while there is more.
\<close>

theorem no_lost_notification:
  assumes "config_ok cfg" "(queue_trans cfg)\<^sup>*\<^sup>* (xtcp_init_queue cfg qs) qs'"
    and "n_xtcp (notify qs) \<noteq> 0" "queued qs' c \<noteq> []"
  shows "pending (notify qs') c"
proof -
  have "queue_inv cfg qs' \<and> awake qs' \<and> n_xtcp (notify qs') = n_xtcp (notify qs)"
    using assms(2)
  proof (induction rule: rtranclp_induct)
    case base
    then show ?case
      using xtcp_init_queue_inv [OF assms(1), of qs] by (simp add: awake_def xtcp_init_queue_queued)
  next
    case (step q1 q2)
    then show ?case using queue_trans_inv [of cfg q1 q2] queue_trans_awake [of cfg q1 q2] by simp
  qed
  with assms(3,4) show ?thesis by (simp add: awake_def)
qed

theorem no_lost_notification_witness:
  "\<exists>qs'. (queue_trans ex_cfg)\<^sup>*\<^sup>* (xtcp_init_queue ex_cfg ex_boot) qs' \<and>
     queued qs' 1 = [event XTCP_CLOSED 5] \<and> pending (notify qs') 1"
proof -
  let ?q0 = "xtcp_init_queue ex_cfg ex_boot"
  have inv: "queue_inv ex_cfg ?q0" by (rule xtcp_init_queue_inv) simp
  obtain r qs' where e: "enqueue_event_and_notify ex_cfg 1 5 XTCP_CLOSED ?q0 = Some (r, qs')"
    using enqueue_total [of ?q0 1 ex_cfg 5 XTCP_CLOSED] by auto
  from enqueue_spec [OF inv e] have q: "queued qs' 1 = [event XTCP_CLOSED 5]"
    by (simp add: valid_client_def xtcp_init_queue_queued)
  have "(queue_trans ex_cfg)\<^sup>*\<^sup>* ?q0 qs'"
    by (rule r_into_rtranclp) (rule queue_trans.enqueue [OF e])
  with no_lost_notification [of ex_cfg ex_boot qs' 1] q show ?thesis by auto
qed

lemma collect_all:
  "queue_inv cfg qs \<Longrightarrow> notifiable (notify qs) c \<Longrightarrow> queued qs c = xs \<Longrightarrow>
     \<exists>qs'. collect_n cfg c (length xs) qs = Some (xs, qs') \<and> queued qs' = (queued qs)(c := []) \<and>
       queue_inv cfg qs' \<and> (xs \<noteq> [] \<longrightarrow> \<not> pending (notify qs') c)"
proof (induction xs arbitrary: qs)
  case Nil
  then show ?case by (auto simp: fun_upd_idem)
next
  case (Cons x xs)
  obtain e i q1 where g: "get_event cfg c qs = Some ((e, i), q1)"
    using get_event_total [OF Cons.prems(1,2)] by blast
  note G = get_event_spec [OF Cons.prems(1) g]
  have "notifiable (notify q1) c" "queued q1 c = xs" using G(2,5) Cons.prems by simp_all
  from Cons.IH [OF G(3) this] obtain q2 where
    q2: "collect_n cfg c (length xs) q1 = Some (xs, q2)" "queued q2 = (queued q1)(c := [])"
    "queue_inv cfg q2" "xs \<noteq> [] \<longrightarrow> \<not> pending (notify q2) c"
    by blast
  have x: "event e i = x" using G(1) Cons.prems(3) by simp
  have "\<not> pending (notify q2) c"
    using q2(1,4) G(8) \<open>queued q1 c = xs\<close> by (cases "xs = []") simp_all
  moreover have "queued q2 = (queued qs)(c := [])" using q2(2) G(2) by simp
  moreover have "collect_n cfg c (length (x # xs)) qs = Some (x # xs, q2)"
    using g q2(1) x by simp
  ultimately show ?case using q2(3) by blast
qed

text \<open>
  C16. A client that calls \<open>get_event\<close> as many times as it has events gets exactly those
  events, oldest first, and is left with an empty queue and no notification pending; the events
  of the other clients stay where they are.
\<close>

theorem collect_everything:
  assumes "queue_inv cfg qs" "notifiable (notify qs) c" "queued qs c \<noteq> []"
  shows "\<exists>qs'. collect_n cfg c (length (queued qs c)) qs = Some (queued qs c, qs') \<and>
    queued qs' = (queued qs)(c := []) \<and> \<not> pending (notify qs') c"
  using collect_all [OF assms(1,2) refl] assms(3) by blast

theorem collect_everything_witness:
  "\<exists>qs'. collect_n ex_cfg 0 2 ex_wrapped =
     Some ([event XTCP_RECV_DATA 3, event XTCP_SENT_DATA 4], qs') \<and> \<not> pending (notify qs') 0"
  using collect_everything [OF ex_wrapped_inv, of 0] by (auto simp: ex_wrapped_queued ex_wrapped_notify numeral_2_eq_2 simp del: collect_n.simps)

end
