(* ===== verification/Xtcp_Example.thy ===== *)
theory Xtcp_Example
  imports Xtcp_State Queue_Properties
begin

text \<open>
  Concrete data for the witnesses: a small instance of the lwIP interface whose private state is
  the set of buffers handed out, and a state with two open sockets and received data. The instance
  shows that the contracts assumed of lwIP can be met.
\<close>

section \<open>An instance of the lwIP interface\<close>

definition reach :: "(addr \<rightharpoonup> pbuf) \<Rightarrow> addr \<Rightarrow> addr set" where
  "reach h a = {x. \<exists>as. chain h (Some a) as \<and> x \<in> set as}"

text \<open>
  One transmit buffer, at address 50. Memory that was freed is not unmapped, as in a pool; it no longer
  belongs to the library.
\<close>

definition ex_pbuf_free :: "addr \<Rightarrow> addr set lwip_state \<Rightarrow> addr set lwip_state" where
  "ex_pbuf_free a st = st\<lparr>world := world st - reach (pbufs st) a\<rparr>"

definition ex_lwip :: "addr set lwip" where
  "ex_lwip = \<lparr>
     pbuf_alloc = (\<lambda>n st. if 50 \<in> world st then (None, st) else (Some 50, st\<lparr>pbufs := (pbufs st)(50 \<mapsto> \<lparr>pb_next = None,
        pb_payload = replicate (unat n) 0, pb_tot_len = n, pb_len = n, pb_flags = 0,
        pb_timestamp = 0, pb_remote = \<lparr>ipaddr = (0, 0, 0, 0), port_number = 0\<rparr>\<rparr>),
        world := insert 50 (world st)\<rparr>)),
     pbuf_free = ex_pbuf_free,
     udp_new_ip_type = (\<lambda>st. (None, st)),
     udp_remove = (\<lambda>p st. st),
     udp_bind = (\<lambda>p a n st. (ERR_OK, st)),
     udp_connect = (\<lambda>p a n st. (ERR_OK, st)),
     udp_recv = (\<lambda>p i st. st),
     udp_send = (\<lambda>p b st. (ERR_OK, st)),
     udp_sendto = (\<lambda>p b a n st. (ERR_OK, st)),
     tcp_new_ip_type = (\<lambda>st. Done None st),
     tcp_close = (\<lambda>p st. st),
     tcp_bind = (\<lambda>p a n st. (ERR_OK, st)),
     tcp_listen = (\<lambda>p st. (Some p, st)),
     tcp_arg = (\<lambda>p i st. st),
     tcp_connect = (\<lambda>p a n st. (ERR_OK, st)),
     tcp_setprio_min = (\<lambda>p st. st),
     tcp_recved = (\<lambda>p n st. st),
     tcp_write_copy = (\<lambda>p d n st. (ERR_OK, st)),
     tcp_output = (\<lambda>p st. (ERR_OK, st)),
     igmp_joingroup = (\<lambda>a g st. (ERR_OK, st)),
     igmp_leavegroup = (\<lambda>a g st. (ERR_OK, st)),
     dns_setserver = (\<lambda>n a st. st),
     dns_gethostbyname = (\<lambda>h c st. ((ERR_INPROGRESS, (0, 0, 0, 0)), st)),
     udp_get_multicast_ttl = (\<lambda>p st. 1),
     udp_set_multicast_ttl = (\<lambda>p v st. st),
     udp_get_multicast_netif_index = (\<lambda>p st. 0),
     udp_set_multicast_netif_index = (\<lambda>p v st. st),
     udp_is_flag_set = (\<lambda>p f st. 0),
     udp_set_flags = (\<lambda>p f st. st)\<rparr>"

definition ex_flags :: lwip_flags where
  "ex_flags = \<lparr>PBUF_FLAG_TX_TIMESTAMP = 64, UDP_FLAGS_CONNECTED = 4, UDP_FLAGS_MULTICAST_LOOP = 8\<rparr>"

lemma reach_chain: "chain h (Some a) as \<Longrightarrow> reach h a = set as"
  by (auto simp: reach_def dest: chain_unique)

lemma ex_lwip_rx_contract: "rx_contract ex_lwip (\<lambda>w. w)"
  by (auto simp: rx_contract_def frees_chain_def keeps_def ex_lwip_def ex_pbuf_free_def reach_chain)

section \<open>A state with received data\<close>

definition ex_pbuf :: "ptr \<Rightarrow> u8 list \<Rightarrow> u32 \<Rightarrow> u16 \<Rightarrow> pbuf" where
  "ex_pbuf nxt data ts port = \<lparr>pb_next = nxt, pb_payload = data, pb_tot_len = of_nat (length data),
     pb_len = of_nat (length data), pb_flags = 0, pb_timestamp = ts,
     pb_remote = \<lparr>ipaddr = (10, 0, 0, 9), port_number = port\<rparr>\<rparr>"

text \<open>
  Socket 0 is a TCP socket of client 0 with buffers 1 and 2 queued, socket 1 a UDP socket of client
  1 with nothing queued, slot 2 is free; buffer 3 has arrived and is on no queue.
\<close>

definition ex_lw :: "addr set lwip_state" where
  "ex_lw = \<lparr>pbufs = [1 \<mapsto> ex_pbuf (Some 2) [65, 66] 7 80, 2 \<mapsto> ex_pbuf None [67] 8 80,
                    3 \<mapsto> ex_pbuf None [68] 9 0],
     tcp_pcbs = [100 \<mapsto> \<lparr>local_ip = (10, 0, 0, 1), remote_ip = (10, 0, 0, 9), tos = 0, ttl = 64,
                  tcp_local_port = 5000, tcp_remote_port = 80\<rparr>],
     udp_pcbs = [200 \<mapsto> \<lparr>local_ip = (10, 0, 0, 1), remote_ip = (0, 0, 0, 0), tos = 0, ttl = 64,
                  udp_local_port = 53, udp_remote_port = 0, udp_flags = 0\<rparr>],
     world = {1, 2, 3}\<rparr>"

lemma ex_lw_world [simp]: "world ex_lw = {1, 2, 3}"
  by (simp add: ex_lw_def)

definition ex_conns :: "connection_entry_t list" where
  "ex_conns =
     [\<lparr>c_is_active = 1, c_client_num = 0, c_protocol = XTCP_PROTOCOL_TCP, c_pcb = Some 100,
        c_pbuf = Some 1, c_client_data = None\<rparr>,
      \<lparr>c_is_active = 1, c_client_num = 1, c_protocol = XTCP_PROTOCOL_UDP, c_pcb = Some 200,
        c_pbuf = None, c_client_data = None\<rparr>,
      deinit_entry]"

definition ex_state :: "queue_state \<Rightarrow> addr set xtcp_state" where
  "ex_state q = \<lparr>connections = ex_conns, last_guid = 2, lw = ex_lw, queues = q\<rparr>"

definition ex_rx :: rx where
  "ex_rx = (\<lambda>_. [])(0 := [(1, ex_pbuf None [65, 66] 7 80), (2, ex_pbuf None [67] 8 80)])"

definition ex_idle :: queue_state where
  "ex_idle = xtcp_init_queue ex_cfg ex_boot"

lemma ex_in_range: "in_range ex_cfg i \<longleftrightarrow> i = 0 \<or> i = 1 \<or> i = 2"
  by (auto simp: in_range_def)

lemma ex_state_simps [simp]:
  "connections (ex_state q) = ex_conns" "last_guid (ex_state q) = 2" "lw (ex_state q) = ex_lw"
  "queues (ex_state q) = q"
  by (simp_all add: ex_state_def)

lemma DEINIT_neq [simp]: "DEINIT \<noteq> 0" "DEINIT \<noteq> 1" "0 \<noteq> DEINIT" "1 \<noteq> DEINIT"
  by (simp_all add: DEINIT_def)

lemma ex_table_inv: "table_inv ex_cfg (ex_state q)"
  by (auto simp: table_inv_def ex_conns_def entry_ok_def deinit_entry_def)

lemma ex_rx_rel: "rx_rel ex_cfg (\<lambda>w. w) (ex_state q) ex_rx"
  unfolding rx_rel_def
proof (intro conjI)
  show "table_inv ex_cfg (ex_state q)" by (rule ex_table_inv)
  show "\<forall>i. \<not> in_range ex_cfg i \<longrightarrow> ex_rx i = []" by (simp add: ex_in_range ex_rx_def)
  show "\<forall>i. in_range ex_cfg i \<longrightarrow>
      chain (pbufs (lw (ex_state q))) (c_pbuf (conn (ex_state q) i)) (map fst (ex_rx i))"
    by (auto simp: ex_in_range ex_rx_def ex_conns_def ex_lw_def ex_pbuf_def deinit_entry_def)
  show "\<forall>i a b. (a, b) \<in> set (ex_rx i) \<longrightarrow> map_option unlinked (pbufs (lw (ex_state q)) a) = Some b"
    by (auto simp: ex_rx_def ex_lw_def ex_pbuf_def unlinked_def)
  show "\<forall>i. fst ` set (ex_rx i) \<subseteq> world (lw (ex_state q))" by (auto simp: ex_rx_def ex_lw_def)
  show "\<forall>i j. i \<noteq> j \<longrightarrow> fst ` set (ex_rx i) \<inter> fst ` set (ex_rx j) = {}" by (auto simp: ex_rx_def)
qed

lemma ex_arrived: "rx_arrived (\<lambda>w. w) (ex_state q) ex_rx 3 (ex_pbuf None [68] 9 0)"
  by (auto simp: rx_arrived_def ex_lw_def ex_rx_def ex_pbuf_def)

lemma ex_owner:
  "owner ex_cfg (ex_state q) =
     [0 \<mapsto> (0, XTCP_PROTOCOL_TCP), 1 \<mapsto> (1, XTCP_PROTOCOL_UDP)]"
  by (auto simp: fun_eq_iff owner_def ex_in_range ex_conns_def deinit_entry_def)

lemma ex_sys_inv:
  assumes "queue_inv ex_cfg q" "notify q = notify ex_boot"
  shows "sys_inv ex_cfg (\<lambda>w. w) (ex_state q) ex_rx"
  using assms ex_rx_rel by (auto simp: sys_inv_def clients_ok_def ex_owner split: if_splits)

lemma ex_idle_inv: "queue_inv ex_cfg ex_idle" "notify ex_idle = notify ex_boot" "queued ex_idle c = []"
  by (simp_all add: ex_idle_def xtcp_init_queue_inv xtcp_init_queue_queued)

end
