(* ===== verification/Socket_Properties.thy ===== *)
theory Socket_Properties
  imports Xtcp_Example
begin

text \<open>
  What the socket table of \<open>connection.c\<close> guarantees: which id an allocation chooses,
  who can look it up, and that the table always agrees with the history of allocations and
  releases.
\<close>

section \<open>Allocation\<close>

lemma find_first:
  assumes "List.find P xs = Some x" "distinct xs"
  shows "\<exists>k < length xs. xs ! k = x \<and> P x \<and> (\<forall>k' < k. \<not> P (xs ! k'))"
  using assms by (auto simp: find_Some_iff)

lemma scan_order_nth:
  assumes "table_inv cfg s" "k < MAX_OPEN_SOCKETS cfg"
  shows "scan_order cfg s ! k = (nat (last_guid s) + k) mod MAX_OPEN_SOCKETS cfg"
  using assms config_okD(4) [of cfg] by (simp add: scan_order_def nth_rotate table_inv_def)

lemma assign_first_free:
  assumes "table_inv cfg s" "c \<noteq> DEINIT" "assign_client_connection cfg c p s = (r, s')"
    and "in_range cfg i" "c_is_active (conn s i) = 0"
  shows "\<exists>k < MAX_OPEN_SOCKETS cfg.
      let slot = (\<lambda>n. (nat (last_guid s) + n) mod MAX_OPEN_SOCKETS cfg) in
      r = err_int32 XTCP_SUCCESS (int (slot k)) \<and>
      c_is_active (connections s ! slot k) = 0 \<and>
      (\<forall>n < k. c_is_active (connections s ! slot n) \<noteq> 0) \<and>
      owner cfg s' = (owner cfg s)(int (slot k) \<mapsto> (c, p)) \<and>
      last_guid s' = int (slot k) + 1 \<and> table_inv cfg s'"
proof (cases "List.find (\<lambda>j. c_is_active (connections s ! j) = 0) (scan_order cfg s)")
  case None
  then have False
    using assms(4,5) by (auto simp: find_None_iff set_scan_order in_range_def nat_less_iff)
  then show ?thesis ..
next
  case (Some j)
  have "distinct (scan_order cfg s)" "length (scan_order cfg s) = MAX_OPEN_SOCKETS cfg"
    by (simp_all add: scan_order_def)
  with find_first [OF Some] obtain k where k: "k < MAX_OPEN_SOCKETS cfg"
    "scan_order cfg s ! k = j" "c_is_active (connections s ! j) = 0"
    "\<forall>n < k. c_is_active (connections s ! (scan_order cfg s ! n)) \<noteq> 0"
    by auto
  let ?slot = "\<lambda>n. (nat (last_guid s) + n) mod MAX_OPEN_SOCKETS cfg"
  have slot: "?slot k = j" "\<forall>n < k. c_is_active (connections s ! ?slot n) \<noteq> 0"
    using k scan_order_nth [OF assms(1)] by auto
  have j: "in_range cfg (int j)" using k(1) slot(1) by (auto simp: in_range_def)
  have r: "r = err_int32 XTCP_SUCCESS (int j)" "last_guid s' = int j + 1"
    using assms(3) Some by (auto simp: assign_client_connection_eq [OF assms(1)])
  from j k(3) have "owner cfg s (int j) = None" by (simp add: owner_def)
  then have "dom (owner cfg s) \<noteq> socket_ids cfg" using j by (auto simp: in_range_socket_ids)
  then have "owner cfg s' = (owner cfg s)(int j \<mapsto> (c, p))" "table_inv cfg s'"
    using assign_client_connection_law [OF assms(1-3)] r(1) by simp_all
  with k(1,3) slot r show ?thesis by (auto simp: Let_def intro!: exI [of _ k])
qed

text \<open>
  C14. \<open>assign_client_connection\<close> succeeds exactly when a slot is free. It takes the first
  free slot counting round from the one after the last it gave out, gives it to the client with the
  protocol asked for and changes no other entry; when every slot is taken it returns
  \<open>XTCP_ENOMEM\<close> and changes nothing.
\<close>

theorem assign_takes_first_free:
  assumes "table_inv cfg s" "c \<noteq> DEINIT" "assign_client_connection cfg c p s = (r, s')"
  shows "if \<forall>i. in_range cfg i \<longrightarrow> c_is_active (conn s i) \<noteq> 0
    then r = err_int32 XTCP_ENOMEM (-1) \<and> s' = s
    else \<exists>k < MAX_OPEN_SOCKETS cfg.
      let slot = (\<lambda>n. (nat (last_guid s) + n) mod MAX_OPEN_SOCKETS cfg) in
      r = err_int32 XTCP_SUCCESS (int (slot k)) \<and>
      c_is_active (connections s ! slot k) = 0 \<and>
      (\<forall>n < k. c_is_active (connections s ! slot n) \<noteq> 0) \<and>
      owner cfg s' = (owner cfg s)(int (slot k) \<mapsto> (c, p)) \<and>
      last_guid s' = int (slot k) + 1 \<and> table_inv cfg s'"
proof (cases "\<forall>i. in_range cfg i \<longrightarrow> c_is_active (conn s i) \<noteq> 0")
  case True
  then have "List.find (\<lambda>j. c_is_active (connections s ! j) = 0) (scan_order cfg s) = None"
    by (auto simp: find_None_iff set_scan_order in_range_def dest: spec [of _ "int _"])
  with True assms(3) show ?thesis by (simp add: assign_client_connection_eq [OF assms(1)])
next
  case False
  with assign_first_free [OF assms] show ?thesis by (simp only: if_False) blast
qed

theorem assign_takes_first_free_witness:
  "fst (assign_client_connection ex_cfg 1 XTCP_PROTOCOL_UDP (ex_state ex_idle)) =
     err_int32 XTCP_SUCCESS 2 \<and>
   last_guid (snd (assign_client_connection ex_cfg 1 XTCP_PROTOCOL_UDP (ex_state ex_idle))) = 3"
proof -
  let ?a = "assign_client_connection ex_cfg 1 XTCP_PROTOCOL_UDP (ex_state ex_idle)"
  have free: "\<not> (\<forall>i. in_range ex_cfg i \<longrightarrow> c_is_active (conn (ex_state ex_idle) i) \<noteq> 0)"
    by (auto simp: ex_in_range ex_conns_def deinit_entry_def)
  obtain k where k: "k < 3" "fst ?a = err_int32 XTCP_SUCCESS (int ((2 + k) mod 3))"
    "\<forall>n < k. c_is_active (ex_conns ! ((2 + n) mod 3)) \<noteq> 0" "last_guid (snd ?a) = int ((2 + k) mod 3) + 1"
    using assign_takes_first_free [of ex_cfg "ex_state ex_idle" 1 XTCP_PROTOCOL_UDP "fst ?a" "snd ?a",
        OF ex_table_inv, unfolded if_not_P [OF free]]
    by (auto simp: Let_def)
  have "\<not> 0 < k" using k(3) by (auto simp: ex_conns_def deinit_entry_def numeral_2_eq_2)
  with k show ?thesis by simp
qed

lemma ex_assign:
  "\<exists>s'. assign_client_connection ex_cfg 1 XTCP_PROTOCOL_UDP (ex_state ex_idle) =
     (err_int32 XTCP_SUCCESS 2, s')"
  by (simp add: assign_client_connection_def ex_conns_def deinit_entry_def numeral_3_eq_3)

text \<open>
  An id just handed out is found by the client it was given to and by no other client, and the
  lookups of every other id are as before.
\<close>

theorem assigned_id_is_private:
  assumes "table_inv cfg s" "c \<noteq> DEINIT" "assign_client_connection cfg c p s = (r, s')"
    and "status r = XTCP_SUCCESS" "d \<noteq> DEINIT"
  shows "find_client_connection cfg d i s' =
    (if i = val r
     then if d = c then err_int32 XTCP_SUCCESS i else err_int32 XTCP_EINVAL (-1)
     else find_client_connection cfg d i s)"
  using st.assign_then_find [OF assms(1-4)] assms(5) by auto

theorem assigned_id_is_private_witness:
  "\<exists>s'. find_client_connection ex_cfg 1 2 s' = err_int32 XTCP_SUCCESS 2 \<and>
        find_client_connection ex_cfg 0 2 s' = err_int32 XTCP_EINVAL (-1) \<and>
        assign_client_connection ex_cfg 1 XTCP_PROTOCOL_UDP (ex_state ex_idle) =
          (err_int32 XTCP_SUCCESS 2, s')"
proof -
  obtain s' where a: "assign_client_connection ex_cfg 1 XTCP_PROTOCOL_UDP (ex_state ex_idle) =
      (err_int32 XTCP_SUCCESS 2, s')" using ex_assign by blast
  from assigned_id_is_private [OF ex_table_inv _ a, of 1 2] assigned_id_is_private [OF ex_table_inv _ a, of 0 2] a
  show ?thesis by auto
qed

section \<open>Reuse of ids\<close>

lemma free_client_connection_last_guid [simp]:
  "last_guid (free_client_connection cfg i s) = last_guid s"
  by (simp add: free_client_connection_def)

lemma free_many:
  "table_inv cfg s \<Longrightarrow> table_inv cfg (fold (free_client_connection cfg) is s) \<and>
     last_guid (fold (free_client_connection cfg) is s) = last_guid s"
  by (induction "is" arbitrary: s) (auto simp: free_client_connection_law)

text \<open>
  C21. An id is not reused at once: after an allocation, whatever sockets are closed, the
  next allocation gives a different id as long as some other slot is free.
\<close>

theorem id_not_reused_at_once:
  assumes "table_inv cfg s" "c \<noteq> DEINIT" "d \<noteq> DEINIT"
    and "assign_client_connection cfg c p s = (r, s1)" "status r = XTCP_SUCCESS"
    and "s2 = fold (free_client_connection cfg) is s1"
    and "in_range cfg i" "i \<noteq> val r" "owner cfg s2 i = None"
    and "assign_client_connection cfg d q s2 = (r', s3)"
  shows "status r' = XTCP_SUCCESS \<and> val r' \<noteq> val r"
proof -
  let ?m = "MAX_OPEN_SOCKETS cfg"
  have inv1: "table_inv cfg s1" and r: "val r \<in> socket_ids cfg"
    using assign_client_connection_law [OF assms(1,2,4)] assms(5) by (auto split: if_splits)
  have "last_guid s1 = val r + 1"
    using assms(4,5) by (auto simp: assign_client_connection_def split: option.splits)
  with r obtain j where j: "val r = int j" "j < ?m" "last_guid s1 = int j + 1" "table_inv cfg s1"
    using inv1 by (metis atLeastLessThan_iff of_nat_less_iff socket_ids_def zero_le_imp_eq_int)
  have inv2: "table_inv cfg s2" and g2: "last_guid s2 = int j + 1"
    using free_many [OF j(4)] j(3) assms(6) by auto
  have free: "c_is_active (conn s2 i) = 0" using assms(7,9) by (simp add: owner_def split: if_splits)
  let ?slot = "\<lambda>n. (nat (last_guid s2) + n) mod ?m"
  obtain k where k: "k < ?m" "r' = err_int32 XTCP_SUCCESS (int (?slot k))"
    "\<forall>n < k. c_is_active (connections s2 ! ?slot n) \<noteq> 0"
    using assign_first_free [OF inv2 assms(3,10,7) free] by (auto simp: Let_def)
  have "?slot k \<noteq> j"
  proof
    assume kj: "?slot k = j"
    have last: "?slot (?m - 1) = j" using g2 j(2) by (simp add: nat_add_distrib)
    have "nat i \<in> set (scan_order cfg s2)"
      using assms(7) by (auto simp: set_scan_order in_range_def)
    then obtain n where "n < length (scan_order cfg s2)" "scan_order cfg s2 ! n = nat i"
      by (meson in_set_conv_nth)
    then have n: "n < ?m" "?slot n = nat i"
      using scan_order_nth [OF inv2] by (simp_all add: scan_order_def)
    have "nat i \<noteq> j" using assms(7,8) j(1) by (auto simp: in_range_def)
    with n last have "n \<noteq> ?m - 1" by metis
    moreover have "k = ?m - 1"
      using kj last k(1) add_mod_inject [of k ?m "?m - 1" "nat (last_guid s2)"] by simp
    ultimately have "n < k" using n(1) by linarith
    with k(3) n(2) free show False by metis
  qed
  with k(2) j(1) show ?thesis by simp
qed

theorem id_not_reused_at_once_witness:
  "\<exists>s1 r' s3. assign_client_connection ex_cfg 1 XTCP_PROTOCOL_UDP (ex_state ex_idle) =
       (err_int32 XTCP_SUCCESS 2, s1) \<and>
     assign_client_connection ex_cfg 0 XTCP_PROTOCOL_TCP
       (free_client_connection ex_cfg 2 (free_client_connection ex_cfg 0 s1)) = (r', s3) \<and>
     status r' = XTCP_SUCCESS \<and> val r' \<noteq> 2"
proof -
  obtain s1 where a: "assign_client_connection ex_cfg 1 XTCP_PROTOCOL_UDP (ex_state ex_idle) =
      (err_int32 XTCP_SUCCESS 2, s1)" using ex_assign by blast
  let ?s2 = "free_client_connection ex_cfg 2 (free_client_connection ex_cfg 0 s1)"
  have "table_inv ex_cfg s1" using assign_client_connection_law [OF ex_table_inv _ a] by simp
  then have "owner ex_cfg ?s2 0 = None" by (simp add: free_client_connection_law)
  with id_not_reused_at_once [OF ex_table_inv _ _ a _ _ _ _ _ prod.collapse [symmetric], of 0 ?s2 "[0, 2]" 0]
  show ?thesis by (auto simp: a ex_in_range intro!: exI prod.collapse [symmetric])
qed

section \<open>The table and its history\<close>

datatype table_op = Assign u32 xtcp_protocol_t | Release int

fun table_step ::
  "xtcp_config \<Rightarrow> table_op \<Rightarrow> ('w, 'z) conn_state_scheme
     \<Rightarrow> xtcp_error_int32_t option \<times> ('w, 'z) conn_state_scheme" where
  "table_step cfg (Assign c p) s = apfst Some (assign_client_connection cfg c p s)"
| "table_step cfg (Release i) s = (None, free_client_connection cfg i s)"

fun table_run ::
  "xtcp_config \<Rightarrow> table_op list \<Rightarrow> ('w, 'z) conn_state_scheme
     \<Rightarrow> xtcp_error_int32_t option list \<times> ('w, 'z) conn_state_scheme" where
  "table_run cfg [] s = ([], s)"
| "table_run cfg (x # xs) s =
     (let (r, s) = table_step cfg x s; (rs, s) = table_run cfg xs s in (r # rs, s))"

text \<open>
  The owners that a list of calls and results implies, starting from \<open>m\<close>, or
  \<open>None\<close> if an id was handed out while it was still owned, or refused while one was free.
\<close>

fun history ::
  "xtcp_config \<Rightarrow> owner_map \<Rightarrow> (table_op \<times> xtcp_error_int32_t option) list \<Rightarrow> owner_map option" where
  "history cfg m [] = Some m"
| "history cfg m ((Assign c p, Some r) # h) =
     (if status r = XTCP_SUCCESS
      then if in_range cfg (val r) \<and> m (val r) = None
           then history cfg (m(val r \<mapsto> (c, p))) h else None
      else if card (dom m) = MAX_OPEN_SOCKETS cfg then history cfg m h else None)"
| "history cfg m ((Release i, None) # h) = history cfg (m(i := None)) h"
| "history cfg m (_ # h) = None"

fun op_client_ok :: "table_op \<Rightarrow> bool" where
  "op_client_ok (Assign c p) \<longleftrightarrow> c \<noteq> DEINIT"
| "op_client_ok (Release i) \<longleftrightarrow> True"

lemma card_socket_ids: "card (socket_ids cfg) = MAX_OPEN_SOCKETS cfg"
  by (simp add: socket_ids_def)

lemma table_run_history:
  assumes "table_inv cfg s" "\<forall>x \<in> set ops. op_client_ok x" "table_run cfg ops s = (rs, s')"
  shows "table_inv cfg s' \<and> history cfg (owner cfg s) (zip ops rs) = Some (owner cfg s')"
  using assms
proof (induction ops arbitrary: s rs)
  case Nil
  then show ?case by simp
next
  case (Cons x xs)
  obtain r s1 where step: "table_step cfg x s = (r, s1)" by force
  obtain rs' where run: "table_run cfg xs s1 = (rs', s')" and rs: "rs = r # rs'"
    using Cons.prems(3) step by (auto split: prod.splits)
  show ?case
  proof (cases x)
    case (Release i)
    with step have s1: "s1 = free_client_connection cfg i s" and r: "r = None" by auto
    have inv1: "table_inv cfg s1" and o: "owner cfg s1 = (owner cfg s)(i := None)"
      using free_client_connection_law [OF Cons.prems(1), of i] s1 by simp_all
    have "table_inv cfg s' \<and> history cfg (owner cfg s1) (zip xs rs') = Some (owner cfg s')"
      by (rule Cons.IH [OF inv1 _ run]) (use Cons.prems(2) in simp)
    then show ?thesis unfolding o using Release rs r by simp
  next
    case (Assign c p)
    with step obtain a where a: "assign_client_connection cfg c p s = (a, s1)" "r = Some a"
      by (auto simp: apfst_def map_prod_def split: prod.splits)
    have c: "c \<noteq> DEINIT" using Cons.prems(2) Assign by auto
    note law = assign_client_connection_law [OF Cons.prems(1) c a(1)]
    have "status a = XTCP_SUCCESS \<or> dom (owner cfg s) = socket_ids cfg \<and> s1 = s \<and> status a = XTCP_ENOMEM"
      using law by (auto split: if_splits)
    with Cons.IH [OF _ _ run] Cons.prems(2) law Assign rs a(2) show ?thesis
      by (auto simp: card_socket_ids in_range_socket_ids split: if_splits)
  qed
qed

text \<open>
  C12. After \<open>init_client_connections\<close> and any sequence of
  \<open>assign_client_connection\<close> and \<open>free_client_connection\<close> calls by real
  clients, the table holds exactly the sockets that the returned ids say are open, each with its
  client and protocol; no id was ever handed out while in use, and none was refused while a slot
  was free.
\<close>

theorem table_agrees_with_history:
  assumes "config_ok cfg" "0 \<le> last_guid s" "last_guid s \<le> int (MAX_OPEN_SOCKETS cfg)"
    and "\<forall>x \<in> set ops. op_client_ok x"
    and "table_run cfg ops (init_client_connections cfg s) = (rs, s')"
  shows "history cfg Map.empty (zip ops rs) = Some (owner cfg s') \<and> table_inv cfg s'"
  using table_run_history [OF init_client_connections_inv(1) [OF assms(1-3)] assms(4,5)]
    init_client_connections_inv(2) [OF assms(1-3)] by simp

theorem table_agrees_with_history_witness:
  "\<exists>rs s'. table_run ex_cfg [Assign 0 XTCP_PROTOCOL_TCP, Assign 1 XTCP_PROTOCOL_UDP, Release 2]
      (init_client_connections ex_cfg (ex_state ex_idle)) = (rs, s') \<and>
    history ex_cfg Map.empty
      (zip [Assign 0 XTCP_PROTOCOL_TCP, Assign 1 XTCP_PROTOCOL_UDP, Release 2] rs) = Some (owner ex_cfg s')"
proof -
  let ?ops = "[Assign 0 XTCP_PROTOCOL_TCP, Assign 1 XTCP_PROTOCOL_UDP, Release 2]"
  obtain rs s' where run: "table_run ex_cfg ?ops (init_client_connections ex_cfg (ex_state ex_idle)) = (rs, s')"
    by (rule prod.exhaust)
  have "history ex_cfg Map.empty (zip ?ops rs) = Some (owner ex_cfg s') \<and> table_inv ex_cfg s'"
    by (rule table_agrees_with_history [OF _ _ _ _ run]) simp_all
  with run show ?thesis by blast
qed

end
