(* ===== verification/Tcp_Transport.thy ===== *)
theory Tcp_Transport
  imports Xtcp_State
begin

text \<open>
  \<open>lib_xtcp/src/tcp_transport.c\<close>: the one callback by which lwIP reports every TCP event,
  with \<open>shim_accept\<close> of \<open>lwip_shim.c\<close>, which it calls. \<open>lwip_tcp_event\<close>
  returns the \<open>err_t\<close> that tells lwIP what to do with the connection or the data.
\<close>

definition shim_accept ::
  "'w lwip \<Rightarrow> xtcp_config \<Rightarrow> u32 \<Rightarrow> ptr \<Rightarrow> int \<Rightarrow> 'w xtcp_state \<Rightarrow> xtcp_error_int32_t \<times> 'w xtcp_state" where
  "shim_accept L cfg client_num new_pcb old_id s =
     (case get_protocol cfg old_id s of
        XTCP_PROTOCOL_UDP \<Rightarrow> (err_int32 XTCP_EPROTONOSUPPORT (-1), s)
      | XTCP_PROTOCOL_TCP \<Rightarrow>
          (case new_pcb of
             None \<Rightarrow> (err_int32 XTCP_EINVAL (-1), s)
           | Some pcb \<Rightarrow>
               let (connection, s) = assign_client_connection cfg client_num XTCP_PROTOCOL_TCP s
               in if status connection \<noteq> XTCP_SUCCESS then (connection, s)
                  else let (_, s) = set_tcp_pcb cfg (val connection) (Some pcb) s
                       in (connection, upd_lw (tcp_arg L pcb (val connection)) s))
      | XTCP_PROTOCOL_NONE \<Rightarrow> (err_int32 XTCP_EINVAL (-1), s))"

text \<open>
  The cases of the \<open>switch\<close>, for the socket \<open>index\<close> of client \<open>client_num\<close>.
  Results that the code only prints are not looked at here either.
\<close>

definition tcp_accept_case ::
  "'w lwip \<Rightarrow> xtcp_config \<Rightarrow> u32 \<Rightarrow> int \<Rightarrow> ptr \<Rightarrow> err_t \<Rightarrow> 'w xtcp_state
     \<Rightarrow> (err_t \<times> 'w xtcp_state) option" where
  "tcp_accept_case L cfg client_num index pcb err s =
     (case pcb of
        Some new_pcb \<Rightarrow>
          if err \<noteq> ERR_OK then Some (ERR_VAL, s)
          else do {
            let s = upd_lw (tcp_setprio_min L new_pcb) s;
            let (accepted, s) = shim_accept L cfg client_num pcb index s;
            if status accepted \<noteq> XTCP_SUCCESS then Some (ERR_MEM, s)
            else do {
              (enq, s) \<leftarrow> enqueue cfg client_num (val accepted) XTCP_ACCEPTED s;
              Some (if enq \<noteq> XTCP_SUCCESS then ERR_INPROGRESS else ERR_OK, s) } }
      | None \<Rightarrow> Some (ERR_VAL, s))"

definition tcp_connected_case ::
  "xtcp_config \<Rightarrow> u32 \<Rightarrow> int \<Rightarrow> 'w xtcp_state \<Rightarrow> (err_t \<times> 'w xtcp_state) option" where
  "tcp_connected_case cfg client_num index s = do {
     (_, s) \<leftarrow> enqueue cfg client_num index XTCP_NEW_CONNECTION s;
     Some (ERR_OK, s) }"

definition tcp_recv_case ::
  "xtcp_config \<Rightarrow> u32 \<Rightarrow> int \<Rightarrow> ptr \<Rightarrow> 'w xtcp_state \<Rightarrow> (err_t \<times> 'w xtcp_state) option" where
  "tcp_recv_case cfg client_num index p s =
     (case p of
        None \<Rightarrow> do {
          (_, s) \<leftarrow> enqueue cfg client_num index XTCP_CLOSED s;
          Some (ERR_OK, s) }
      | Some _ \<Rightarrow> do {
          (_, s) \<leftarrow> set_remote cfg index None 0 p s;
          (enq, s) \<leftarrow> enqueue cfg client_num index XTCP_RECV_DATA s;
          if enq \<noteq> XTCP_SUCCESS
          then do { (_, s) \<leftarrow> unlink_remote cfg index p s; Some (ERR_INPROGRESS, s) }
          else Some (ERR_OK, s) })"

definition tcp_sent_case ::
  "xtcp_config \<Rightarrow> u32 \<Rightarrow> int \<Rightarrow> 'w xtcp_state \<Rightarrow> (err_t \<times> 'w xtcp_state) option" where
  "tcp_sent_case cfg client_num index s = do {
     (_, s) \<leftarrow> enqueue cfg client_num index XTCP_SENT_DATA s;
     Some (ERR_OK, s) }"

definition tcp_err_case ::
  "xtcp_config \<Rightarrow> u32 \<Rightarrow> int \<Rightarrow> err_t \<Rightarrow> 'w xtcp_state \<Rightarrow> (err_t \<times> 'w xtcp_state) option" where
  "tcp_err_case cfg client_num index err s = do {
     (_, s) \<leftarrow> (if err = ERR_ABRT then enqueue cfg client_num index XTCP_ABORTED s
               else if err = ERR_RST \<or> err = ERR_CLSD
               then enqueue cfg client_num index XTCP_TIMED_OUT s
               else Some (XTCP_EINVAL, s));
     Some (ERR_OK, free_client_connection cfg index s) }"

definition lwip_tcp_event ::
  "'w lwip \<Rightarrow> xtcp_config \<Rightarrow> int \<Rightarrow> ptr \<Rightarrow> lwip_event \<Rightarrow> ptr \<Rightarrow> u16 \<Rightarrow> err_t \<Rightarrow> 'w xtcp_state
     \<Rightarrow> (err_t \<times> 'w xtcp_state) option" where
  "lwip_tcp_event L cfg index pcb e p sz err s =
     (if \<not> in_range cfg index then Some (ERR_MEM, s)
      else let client_num = get_client_info cfg index s in
      case e of
        LWIP_EVENT_ACCEPT \<Rightarrow> tcp_accept_case L cfg client_num index pcb err s
      | LWIP_EVENT_CONNECTED \<Rightarrow> tcp_connected_case cfg client_num index s
      | LWIP_EVENT_RECV \<Rightarrow> tcp_recv_case cfg client_num index p s
      | LWIP_EVENT_SENT \<Rightarrow> tcp_sent_case cfg client_num index s
      | LWIP_EVENT_ERR \<Rightarrow> tcp_err_case cfg client_num index err s
      | LWIP_EVENT_POLL \<Rightarrow> Some (ERR_OK, s))"

lemmas lwip_tcp_event_defs =
  lwip_tcp_event_def tcp_accept_case_def tcp_connected_case_def tcp_recv_case_def tcp_sent_case_def
  tcp_err_case_def

end
