(* ===== verification/Udp_Recv.thy ===== *)
theory Udp_Recv
  imports Xtcp_State
begin

unbundle bit_operations_syntax

text \<open>
  \<open>lib_xtcp/src/udp_recv.c\<close>: the callback by which lwIP hands over a received datagram.
\<close>

definition xtcp_udp_recv ::
  "lwip_flags \<Rightarrow> 'w lwip \<Rightarrow> xtcp_config \<Rightarrow> int \<Rightarrow> addr \<Rightarrow> ptr \<Rightarrow> ip_addr_t option \<Rightarrow> u16
     \<Rightarrow> 'w xtcp_state \<Rightarrow> 'w xtcp_state option" where
  "xtcp_udp_recv F L cfg index upcb p remote port s =
     (case p of
        Some pb \<Rightarrow>
          if in_range cfg index
          then do {
            (_, s) \<leftarrow> set_remote cfg index remote port p s;
            u \<leftarrow> udp_pcbs (lw s) upcb;
            let ev = (if udp_flags u AND UDP_FLAGS_CONNECTED F \<noteq> 0 then XTCP_RECV_DATA
                      else XTCP_RECV_FROM_DATA);
            (result, s) \<leftarrow> enqueue cfg (get_client_info cfg index s) index ev s;
            Some (if result \<noteq> XTCP_SUCCESS then upd_lw (pbuf_free L pb) s else s) }
          else Some s
      | None \<Rightarrow> Some s)"

end
