(* ===== verification/Dns_Found.thy ===== *)
theory Dns_Found
  imports Xtcp_State
begin

text \<open>
  \<open>lib_xtcp/src/dns_found.c\<close>: the callback by which lwIP reports the end of a name lookup.
  The event's id carries the outcome, an \<open>xtcp_error_code_t\<close> as an \<open>int32_t\<close>.
\<close>

definition dns_outcome ::
  "xtcp_config \<Rightarrow> u32 \<Rightarrow> u8 list option \<Rightarrow> ip_addr_t option \<Rightarrow> xtcp_error_code_t" where
  "dns_outcome cfg client_num name addr =
     (if unat client_num < MAX_XTCP_CLIENTS cfg \<and> name \<noteq> None
      then if addr \<noteq> None then XTCP_SUCCESS else XTCP_ENOMEM
      else XTCP_EINVAL)"

definition xtcp_dns_found ::
  "xtcp_config \<Rightarrow> u8 list option \<Rightarrow> ip_addr_t option \<Rightarrow> u32 \<Rightarrow> 'w xtcp_state \<Rightarrow> 'w xtcp_state option" where
  "xtcp_dns_found cfg name addr client_num s = do {
     let result = dns_outcome cfg client_num name addr;
     (_, s) \<leftarrow> enqueue cfg client_num (error_code result) XTCP_DNS_RESULT s;
     Some s }"

end
