(* ===== verification/Lwip_Callbacks.thy ===== *)
theory Lwip_Callbacks
  imports Tcp_Transport Udp_Recv Dns_Found
begin

text \<open>
  Running an lwIP function that calls back: each \<open>Call\<close> node hands the lwIP state to the
  library, which handles the callback on its own statics and returns.
\<close>

fun handle_callback ::
  "lwip_flags \<Rightarrow> 'w lwip \<Rightarrow> xtcp_config \<Rightarrow> lwip_callback \<Rightarrow> 'w xtcp_state
     \<Rightarrow> (err_t \<times> 'w xtcp_state) option" where
  "handle_callback F L cfg (TcpEvent i pcb e p sz err) s = lwip_tcp_event L cfg i pcb e p sz err s"
| "handle_callback F L cfg (UdpRecv i upcb p remote port) s =
     map_option (Pair ERR_OK) (xtcp_udp_recv F L cfg i upcb p remote port s)"
| "handle_callback F L cfg (DnsFound name addr c) s =
     map_option (Pair ERR_OK) (xtcp_dns_found cfg name addr c s)"

primrec run_lwip ::
  "(lwip_callback \<Rightarrow> 'w xtcp_state \<Rightarrow> (err_t \<times> 'w xtcp_state) option) \<Rightarrow> ('w, 'r) lwip_prog
     \<Rightarrow> 'w xtcp_state \<Rightarrow> ('r \<times> 'w xtcp_state) option" where
  "run_lwip cb (Done r st) s = Some (r, s\<lparr>lw := st\<rparr>)"
| "run_lwip cb (Call c st k) s = do {
     (e, s') \<leftarrow> cb c (s\<lparr>lw := st\<rparr>);
     run_lwip cb (k e (lw s')) s' }"

end
