(* ===== verification/Lwip_Shim.thy ===== *)
theory Lwip_Shim
  imports Lwip_Callbacks
begin

text \<open>
  \<open>lib_xtcp/src/lwip_shim.c\<close>: the socket calls, in terms of the socket table, the event
  queues and lwIP's raw API (\<open>shim_accept\<close> is in \<open>Tcp_Transport\<close>). A call
  returns \<open>None\<close> when it dereferences a null or stale pointer itself. The functions of lwIP are total: what
  lwIP does inside a call with a control block that it has freed is not seen here.
\<close>

section \<open>Opening and closing\<close>

definition new_udp_pcb ::
  "'w lwip \<Rightarrow> xtcp_config \<Rightarrow> xtcp_error_int32_t \<Rightarrow> 'w xtcp_state \<Rightarrow> xtcp_error_int32_t \<times> 'w xtcp_state" where
  "new_udp_pcb L cfg connection s =
     (let (udp_pcb, st) = udp_new_ip_type L (lw s); s = s\<lparr>lw := st\<rparr>
      in case udp_pcb of
           None \<Rightarrow> (err_int32 XTCP_ENOMEM (-1), s)
         | Some pcb \<Rightarrow>
             let (e, s) = set_udp_pcb cfg (val connection) (Some pcb) s
             in if error_code e < 0 then (err_int32 XTCP_EINVAL (-1), upd_lw (udp_remove L pcb) s)
                else (connection, s))"

definition new_tcp_pcb ::
  "lwip_flags \<Rightarrow> 'w lwip \<Rightarrow> xtcp_config \<Rightarrow> xtcp_error_int32_t \<Rightarrow> 'w xtcp_state
     \<Rightarrow> (xtcp_error_int32_t \<times> 'w xtcp_state) option" where
  "new_tcp_pcb F L cfg connection s = do {
     (tcp_pcb, s) \<leftarrow> run_lwip (handle_callback F L cfg) (tcp_new_ip_type L (lw s)) s;
     Some (case tcp_pcb of
             None \<Rightarrow> (err_int32 XTCP_ENOMEM (-1), s)
           | Some pcb \<Rightarrow>
               let (e, s) = set_tcp_pcb cfg (val connection) (Some pcb) s
               in if error_code e < 0 then (err_int32 XTCP_EINVAL (-1), upd_lw (tcp_close L pcb) s)
                  else (connection, s)) }"

definition shim_new_socket ::
  "lwip_flags \<Rightarrow> 'w lwip \<Rightarrow> xtcp_config \<Rightarrow> u32 \<Rightarrow> xtcp_protocol_t \<Rightarrow> 'w xtcp_state
     \<Rightarrow> (xtcp_error_int32_t \<times> 'w xtcp_state) option" where
  "shim_new_socket F L cfg client_num protocol s =
     (let (connection, s) = assign_client_connection cfg client_num protocol s
      in if status connection \<noteq> XTCP_SUCCESS then Some (connection, s)
         else case protocol of
                XTCP_PROTOCOL_UDP \<Rightarrow> Some (new_udp_pcb L cfg connection s)
              | XTCP_PROTOCOL_TCP \<Rightarrow> new_tcp_pcb F L cfg connection s
              | XTCP_PROTOCOL_NONE \<Rightarrow> Some (connection, s))"

definition close_pcb :: "'w lwip \<Rightarrow> xtcp_config \<Rightarrow> int \<Rightarrow> 'w xtcp_state \<Rightarrow> 'w xtcp_state" where
  "close_pcb L cfg i s =
     (case get_protocol cfg i s of
        XTCP_PROTOCOL_UDP \<Rightarrow>
          (case get_udp_pcb cfg i s of None \<Rightarrow> s | Some pcb \<Rightarrow> upd_lw (udp_remove L pcb) s)
      | XTCP_PROTOCOL_TCP \<Rightarrow>
          (case get_tcp_pcb cfg i s of None \<Rightarrow> s | Some pcb \<Rightarrow> upd_lw (tcp_close L pcb) s)
      | XTCP_PROTOCOL_NONE \<Rightarrow> s)"

definition shim_close_socket ::
  "'w lwip \<Rightarrow> xtcp_config \<Rightarrow> u32 \<Rightarrow> int \<Rightarrow> 'w xtcp_state \<Rightarrow> 'w xtcp_state option" where
  "shim_close_socket L cfg client_num i s =
     (if status (find_client_connection cfg client_num i s) \<noteq> XTCP_SUCCESS then Some s
      else do {
        let (_, q) = free_notifications_on_queue cfg client_num i (queues s);
        let s = s\<lparr>queues := q\<rparr>;
        s \<leftarrow> clear_pending_rx_data_on_connection L cfg i s;
        let s = close_pcb L cfg i s;
        Some (free_client_connection cfg i s) })"

section \<open>Listening and connecting\<close>

definition shim_listen ::
  "'w lwip \<Rightarrow> xtcp_config \<Rightarrow> u32 \<Rightarrow> int \<Rightarrow> u16 \<Rightarrow> xtcp_ipaddr_t \<Rightarrow> 'w xtcp_state
     \<Rightarrow> xtcp_error_code_t \<times> 'w xtcp_state" where
  "shim_listen L cfg client_num i port addr s =
     (let connection = find_client_connection cfg client_num i s in
      if status connection \<noteq> XTCP_SUCCESS then (status connection, s)
      else case get_protocol cfg i s of
        XTCP_PROTOCOL_TCP \<Rightarrow>
          (case get_tcp_pcb cfg i s of
             None \<Rightarrow> (XTCP_EINVAL, s)
           | Some pcb \<Rightarrow>
               let (err, st) = tcp_bind L pcb addr port (lw s); s = s\<lparr>lw := st\<rparr>
               in if err = ERR_OK
                  then let (listen_pcb, st) = tcp_listen L pcb (lw s); s = s\<lparr>lw := st\<rparr>
                       in case listen_pcb of
                            None \<Rightarrow> (XTCP_EINVAL, s)
                          | Some lpcb \<Rightarrow>
                              let (_, s) = set_tcp_pcb cfg i (Some lpcb) s
                              in (XTCP_SUCCESS, upd_lw (tcp_arg L lpcb i) s)
                  else if err = ERR_USE then (XTCP_EINUSE, s)
                  else (XTCP_EINVAL, s))
      | XTCP_PROTOCOL_UDP \<Rightarrow>
          (case get_udp_pcb cfg i s of
             None \<Rightarrow> (XTCP_EINVAL, s)
           | Some pcb \<Rightarrow>
               let (err, st) = udp_bind L pcb addr port (lw s); s = s\<lparr>lw := st\<rparr>
               in if err = ERR_OK then (XTCP_SUCCESS, upd_lw (udp_recv L pcb i) s)
                  else (XTCP_EINVAL, s))
      | XTCP_PROTOCOL_NONE \<Rightarrow> (XTCP_EINVAL, s))"

definition shim_connect ::
  "'w lwip \<Rightarrow> xtcp_config \<Rightarrow> u32 \<Rightarrow> int \<Rightarrow> u16 \<Rightarrow> xtcp_ipaddr_t \<Rightarrow> 'w xtcp_state
     \<Rightarrow> xtcp_error_code_t \<times> 'w xtcp_state" where
  "shim_connect L cfg client_num i port addr s =
     (let connection = find_client_connection cfg client_num i s in
      if status connection \<noteq> XTCP_SUCCESS then (status connection, s)
      else case get_protocol cfg i s of
        XTCP_PROTOCOL_TCP \<Rightarrow>
          (case get_tcp_pcb cfg i s of
             None \<Rightarrow> (XTCP_EINVAL, s)
           | Some pcb \<Rightarrow>
               let (err, st) = tcp_connect L pcb addr port (lw s); s = s\<lparr>lw := st\<rparr>
               in (if err = ERR_OK then XTCP_SUCCESS else XTCP_EINVAL, s))
      | XTCP_PROTOCOL_UDP \<Rightarrow>
          (case get_udp_pcb cfg i s of
             None \<Rightarrow> (XTCP_EINVAL, s)
           | Some pcb \<Rightarrow>
               let (err, st) = udp_connect L pcb addr port (lw s); s = s\<lparr>lw := st\<rparr>
               in if err = ERR_OK then (XTCP_SUCCESS, upd_lw (udp_recv L pcb i) s)
                  else (XTCP_EINVAL, s))
      | XTCP_PROTOCOL_NONE \<Rightarrow> (XTCP_EINVAL, s))"

section \<open>Sending\<close>

definition shim_send ::
  "'w lwip \<Rightarrow> xtcp_config \<Rightarrow> u32 \<Rightarrow> int \<Rightarrow> ptr \<Rightarrow> 'w xtcp_state
     \<Rightarrow> (xtcp_error_code_t \<times> 'w xtcp_state) option" where
  "shim_send L cfg client_num i buffer_token s =
     (case buffer_token of
        None \<Rightarrow> Some (XTCP_EINVAL, s)
      | Some new_pbuf \<Rightarrow>
          let connection = find_client_connection cfg client_num i s in
          if status connection \<noteq> XTCP_SUCCESS then Some (status connection, s)
          else case get_protocol cfg i s of
            XTCP_PROTOCOL_UDP \<Rightarrow>
              let (result, s) =
                (case get_udp_pcb cfg i s of
                   None \<Rightarrow> (XTCP_EINVAL, s)
                 | Some pcb \<Rightarrow>
                     let (err, st) = udp_send L pcb new_pbuf (lw s); s = s\<lparr>lw := st\<rparr>
                     in (if err = ERR_OK then XTCP_SUCCESS else XTCP_EINVAL, s))
              in Some (result, upd_lw (pbuf_free L new_pbuf) s)
          | XTCP_PROTOCOL_TCP \<Rightarrow> do {
              (result, s) \<leftarrow>
                (case get_tcp_pcb cfg i s of
                   None \<Rightarrow> Some (XTCP_EINVAL, s)
                 | Some pcb \<Rightarrow> do {
                     b \<leftarrow> pbufs (lw s) new_pbuf;
                     let (err, st) = tcp_write_copy L pcb (pb_payload b) (pb_len b) (lw s);
                     let s = s\<lparr>lw := st\<rparr>;
                     if err = ERR_OK
                     then do {
                       let (out, st) = tcp_output L pcb (lw s);
                       let s = s\<lparr>lw := st\<rparr>;
                       Some (if out = ERR_OK then XTCP_SUCCESS else XTCP_EINVAL, s) }
                     else Some (XTCP_EINVAL, s) });
              Some (result, upd_lw (pbuf_free L new_pbuf) s) }
          | XTCP_PROTOCOL_NONE \<Rightarrow> Some (XTCP_EINVAL, s))"

definition shim_sendto ::
  "'w lwip \<Rightarrow> xtcp_config \<Rightarrow> u32 \<Rightarrow> int \<Rightarrow> ptr \<Rightarrow> xtcp_ipaddr_t \<Rightarrow> u16 \<Rightarrow> 'w xtcp_state
     \<Rightarrow> xtcp_error_code_t \<times> 'w xtcp_state" where
  "shim_sendto L cfg client_num i buffer_token remote_addr remote_port s =
     (case buffer_token of
        None \<Rightarrow> (XTCP_EINVAL, s)
      | Some new_pbuf \<Rightarrow>
          let connection = find_client_connection cfg client_num i s in
          if status connection \<noteq> XTCP_SUCCESS then (status connection, s)
          else case get_protocol cfg i s of
            XTCP_PROTOCOL_UDP \<Rightarrow>
              let (result, s) =
                (case get_udp_pcb cfg i s of
                   None \<Rightarrow> (XTCP_EINVAL, s)
                 | Some pcb \<Rightarrow>
                     let (err, st) = udp_sendto L pcb new_pbuf remote_addr remote_port (lw s);
                         s = s\<lparr>lw := st\<rparr>
                     in (if err = ERR_OK then XTCP_SUCCESS else XTCP_EINVAL, s))
              in (result, upd_lw (pbuf_free L new_pbuf) s)
          | XTCP_PROTOCOL_TCP \<Rightarrow> (XTCP_EPROTONOSUPPORT, s)
          | XTCP_PROTOCOL_NONE \<Rightarrow> (XTCP_EINVAL, s))"

section \<open>Multicast groups and names\<close>

definition shim_join_multicast_group ::
  "'w lwip \<Rightarrow> xtcp_ipaddr_t \<Rightarrow> 'w xtcp_state \<Rightarrow> xtcp_error_code_t \<times> 'w xtcp_state" where
  "shim_join_multicast_group L group_addr s =
     (let (err, st) = igmp_joingroup L IP_ANY group_addr (lw s)
      in (if err = ERR_OK then XTCP_SUCCESS else XTCP_EINVAL, s\<lparr>lw := st\<rparr>))"

definition shim_leave_multicast_group ::
  "'w lwip \<Rightarrow> xtcp_ipaddr_t \<Rightarrow> 'w xtcp_state \<Rightarrow> xtcp_error_code_t \<times> 'w xtcp_state" where
  "shim_leave_multicast_group L group_addr s =
     (let (err, st) = igmp_leavegroup L IP_ANY group_addr (lw s)
      in (if err = ERR_OK then XTCP_SUCCESS else XTCP_EINVAL, s\<lparr>lw := st\<rparr>))"

definition shim_request_host_by_name ::
  "'w lwip \<Rightarrow> u32 \<Rightarrow> u8 list \<Rightarrow> xtcp_ipaddr_t \<Rightarrow> 'w xtcp_state \<Rightarrow> xtcp_host_t \<times> 'w xtcp_state" where
  "shim_request_host_by_name L client_num hostname dns_server s =
     (let s = upd_lw (dns_setserver L 0 dns_server) s;
          ((dns_result, addr), st) = dns_gethostbyname L hostname client_num (lw s);
          s = s\<lparr>lw := st\<rparr>
      in (if dns_result = ERR_OK then no_host\<lparr>ipaddr := addr\<rparr> else no_host, s))"

section \<open>Socket options\<close>

definition ip_option_of :: "u32 \<Rightarrow> xtcp_ip_socket_option_t option" where
  "ip_option_of w =
     (if w = 1 then Some XTCP_IP_SOCKET_OPTION_TOS
      else if w = 2 then Some XTCP_IP_SOCKET_OPTION_TTL
      else if w = 5 then Some XTCP_IP_SOCKET_OPTION_MULTICAST_TTL
      else if w = 6 then Some XTCP_IP_SOCKET_OPTION_MULTICAST_IF
      else if w = 7 then Some XTCP_IP_SOCKET_OPTION_MULTICAST_LOOP
      else None)"

text \<open>
  Reading and writing \<open>ip_pcb->tos\<close> and \<open>ip_pcb->ttl\<close> through the pointer of
  either protocol.
\<close>

definition ip_pcb_at :: "xtcp_protocol_t \<Rightarrow> ptr \<Rightarrow> 'w lwip_state \<Rightarrow> ip_pcb option" where
  "ip_pcb_at protocol p st = do {
     a \<leftarrow> p;
     (case protocol of
        XTCP_PROTOCOL_UDP \<Rightarrow> map_option ip_pcb.truncate (udp_pcbs st a)
      | XTCP_PROTOCOL_TCP \<Rightarrow> map_option ip_pcb.truncate (tcp_pcbs st a)
      | XTCP_PROTOCOL_NONE \<Rightarrow> None) }"

definition put_ip_pcb ::
  "xtcp_protocol_t \<Rightarrow> ptr \<Rightarrow> ip_pcb \<Rightarrow> 'w lwip_state \<Rightarrow> 'w lwip_state option" where
  "put_ip_pcb protocol p v st = do {
     a \<leftarrow> p;
     (case protocol of
        XTCP_PROTOCOL_UDP \<Rightarrow> do {
          u \<leftarrow> udp_pcbs st a;
          Some (st\<lparr>udp_pcbs := (udp_pcbs st)(a \<mapsto> ip_pcb.extend v
                 (udp_pcb.fields (udp_local_port u) (udp_remote_port u) (udp_flags u)))\<rparr>) }
      | XTCP_PROTOCOL_TCP \<Rightarrow> do {
          t \<leftarrow> tcp_pcbs st a;
          Some (st\<lparr>tcp_pcbs := (tcp_pcbs st)(a \<mapsto> ip_pcb.extend v
                 (tcp_pcb.fields (tcp_local_port t) (tcp_remote_port t)))\<rparr>) }
      | XTCP_PROTOCOL_NONE \<Rightarrow> None) }"

definition ip_pcb_pointer :: "xtcp_config \<Rightarrow> int \<Rightarrow> 'w xtcp_state \<Rightarrow> ptr" where
  "ip_pcb_pointer cfg i s =
     (case get_protocol cfg i s of
        XTCP_PROTOCOL_UDP \<Rightarrow> get_udp_pcb cfg i s
      | XTCP_PROTOCOL_TCP \<Rightarrow> get_tcp_pcb cfg i s
      | XTCP_PROTOCOL_NONE \<Rightarrow> None)"

text \<open>The result carries what is stored through \<open>value\<close> (first byte) and \<open>*length\<close>.\<close>

definition shim_ip_getsockopt ::
  "lwip_flags \<Rightarrow> 'w lwip \<Rightarrow> xtcp_config \<Rightarrow> int \<Rightarrow> u32 \<Rightarrow> u8 list \<Rightarrow> u32 \<Rightarrow> 'w xtcp_state
     \<Rightarrow> (xtcp_error_code_t \<times> u8 list \<times> u32) option" where
  "shim_ip_getsockopt F L cfg i opt value len s =
     (let protocol = get_protocol cfg i s; ip_pcb = ip_pcb_pointer cfg i s in
      if protocol = XTCP_PROTOCOL_NONE then Some (XTCP_EINVAL, value, len)
      else case ip_option_of opt of
        None \<Rightarrow> Some (XTCP_EINVAL, value, len)
      | Some XTCP_IP_SOCKET_OPTION_TOS \<Rightarrow>
          if len < 1 then Some (XTCP_EINVAL, value, len)
          else do { p \<leftarrow> ip_pcb_at protocol ip_pcb (lw s); Some (XTCP_SUCCESS, value[0 := tos p], 1) }
      | Some XTCP_IP_SOCKET_OPTION_TTL \<Rightarrow>
          if len < 1 then Some (XTCP_EINVAL, value, len)
          else do { p \<leftarrow> ip_pcb_at protocol ip_pcb (lw s); Some (XTCP_SUCCESS, value[0 := ttl p], 1) }
      | Some XTCP_IP_SOCKET_OPTION_MULTICAST_TTL \<Rightarrow>
          if len < 1 then Some (XTCP_EINVAL, value, len)
          else if protocol \<noteq> XTCP_PROTOCOL_UDP then Some (XTCP_EPROTONOSUPPORT, value, len)
          else do { a \<leftarrow> ip_pcb; Some (XTCP_SUCCESS, value[0 := udp_get_multicast_ttl L a (lw s)], 1) }
      | Some XTCP_IP_SOCKET_OPTION_MULTICAST_IF \<Rightarrow>
          if len < 1 then Some (XTCP_EINVAL, value, len)
          else if protocol \<noteq> XTCP_PROTOCOL_UDP then Some (XTCP_EPROTONOSUPPORT, value, len)
          else do { a \<leftarrow> ip_pcb; Some (XTCP_SUCCESS, value[0 := udp_get_multicast_netif_index L a (lw s)], 1) }
      | Some XTCP_IP_SOCKET_OPTION_MULTICAST_LOOP \<Rightarrow>
          if len < 1 then Some (XTCP_EINVAL, value, len)
          else if protocol \<noteq> XTCP_PROTOCOL_UDP then Some (XTCP_EPROTONOSUPPORT, value, len)
          else do { a \<leftarrow> ip_pcb;
                    Some (XTCP_SUCCESS, value[0 := udp_is_flag_set L a (UDP_FLAGS_MULTICAST_LOOP F) (lw s)], 1) })"

definition shim_getsockopt ::
  "lwip_flags \<Rightarrow> 'w lwip \<Rightarrow> xtcp_config \<Rightarrow> u32 \<Rightarrow> int \<Rightarrow> xtcp_socket_level_t \<Rightarrow> u32 \<Rightarrow> u8 list \<Rightarrow> u32
     \<Rightarrow> 'w xtcp_state \<Rightarrow> (xtcp_error_code_t \<times> u8 list \<times> u32) option" where
  "shim_getsockopt F L cfg client_num i level opt value len s =
     (let connection = find_client_connection cfg client_num i s in
      if status connection \<noteq> XTCP_SUCCESS then Some (status connection, value, len)
      else case level of
        XTCP_SOCKET_LEVEL_IP \<Rightarrow> shim_ip_getsockopt F L cfg i opt value len s
      | _ \<Rightarrow> Some (XTCP_EINVAL, value, len))"

text \<open>Reading \<open>*value\<close> when the caller's array is empty is undefined.\<close>

definition first_byte :: "u8 list \<Rightarrow> u8 option" where
  "first_byte value = (case value of [] \<Rightarrow> None | v # _ \<Rightarrow> Some v)"

definition shim_ip_setsockopt ::
  "lwip_flags \<Rightarrow> 'w lwip \<Rightarrow> xtcp_config \<Rightarrow> int \<Rightarrow> u32 \<Rightarrow> u8 list \<Rightarrow> u32 \<Rightarrow> 'w xtcp_state
     \<Rightarrow> (xtcp_error_code_t \<times> 'w xtcp_state) option" where
  "shim_ip_setsockopt F L cfg i opt value len s =
     (let protocol = get_protocol cfg i s; ip_pcb = ip_pcb_pointer cfg i s in
      if protocol = XTCP_PROTOCOL_NONE then Some (XTCP_EINVAL, s)
      else case ip_option_of opt of
        None \<Rightarrow> Some (XTCP_EINVAL, s)
      | Some XTCP_IP_SOCKET_OPTION_TOS \<Rightarrow>
          if len < 1 then Some (XTCP_EINVAL, s)
          else do { v \<leftarrow> first_byte value; p \<leftarrow> ip_pcb_at protocol ip_pcb (lw s);
                    st \<leftarrow> put_ip_pcb protocol ip_pcb (p\<lparr>tos := v\<rparr>) (lw s);
                    Some (XTCP_SUCCESS, s\<lparr>lw := st\<rparr>) }
      | Some XTCP_IP_SOCKET_OPTION_TTL \<Rightarrow>
          if len < 1 then Some (XTCP_EINVAL, s)
          else do { v \<leftarrow> first_byte value; p \<leftarrow> ip_pcb_at protocol ip_pcb (lw s);
                    st \<leftarrow> put_ip_pcb protocol ip_pcb (p\<lparr>ttl := v\<rparr>) (lw s);
                    Some (XTCP_SUCCESS, s\<lparr>lw := st\<rparr>) }
      | Some XTCP_IP_SOCKET_OPTION_MULTICAST_TTL \<Rightarrow>
          if len < 1 then Some (XTCP_EINVAL, s)
          else if protocol \<noteq> XTCP_PROTOCOL_UDP then Some (XTCP_EPROTONOSUPPORT, s)
          else do { a \<leftarrow> ip_pcb; v \<leftarrow> first_byte value;
                    Some (XTCP_SUCCESS, upd_lw (udp_set_multicast_ttl L a v) s) }
      | Some XTCP_IP_SOCKET_OPTION_MULTICAST_IF \<Rightarrow>
          if len < 1 then Some (XTCP_EINVAL, s)
          else if protocol \<noteq> XTCP_PROTOCOL_UDP then Some (XTCP_EPROTONOSUPPORT, s)
          else do { a \<leftarrow> ip_pcb; v \<leftarrow> first_byte value;
                    Some (XTCP_SUCCESS, upd_lw (udp_set_multicast_netif_index L a v) s) }
      | Some XTCP_IP_SOCKET_OPTION_MULTICAST_LOOP \<Rightarrow>
          if len < 1 then Some (XTCP_EINVAL, s)
          else if protocol \<noteq> XTCP_PROTOCOL_UDP then Some (XTCP_EPROTONOSUPPORT, s)
          else do { a \<leftarrow> ip_pcb;
                    Some (XTCP_SUCCESS, upd_lw (udp_set_flags L a (UDP_FLAGS_MULTICAST_LOOP F)) s) })"

definition shim_setsockopt ::
  "lwip_flags \<Rightarrow> 'w lwip \<Rightarrow> xtcp_config \<Rightarrow> u32 \<Rightarrow> int \<Rightarrow> xtcp_socket_level_t \<Rightarrow> u32 \<Rightarrow> u8 list \<Rightarrow> u32
     \<Rightarrow> 'w xtcp_state \<Rightarrow> (xtcp_error_code_t \<times> 'w xtcp_state) option" where
  "shim_setsockopt F L cfg client_num i level opt value len s =
     (let connection = find_client_connection cfg client_num i s in
      if status connection \<noteq> XTCP_SUCCESS then Some (status connection, s)
      else case level of
        XTCP_SOCKET_LEVEL_IP \<Rightarrow> shim_ip_setsockopt F L cfg i opt value len s
      | _ \<Rightarrow> Some (XTCP_EINVAL, s))"

end
