(* ===== verification/Pbuf_Shim.thy ===== *)
theory Pbuf_Shim
  imports Connection
begin

unbundle bit_operations_syntax

text \<open>
  \<open>lib_xtcp/src/pbuf_shim.c\<close>: transmit buffers as the xC code sees them, opaque tokens.
  A pointer to a payload is named by the address of its buffer. \<open>debug_printf\<close> is a macro
  that a build without debug output removes with its arguments; it is not modelled.
\<close>

definition pbuf_shim_alloc_tx ::
  "lwip_flags \<Rightarrow> 'w lwip \<Rightarrow> u16 \<Rightarrow> bool \<Rightarrow> ('w, 'z) conn_state_scheme
     \<Rightarrow> (ptr \<times> ('w, 'z) conn_state_scheme) option" where
  "pbuf_shim_alloc_tx F L len send_timed s =
     (let (p, st) = pbuf_alloc L len (lw s); s = s\<lparr>lw := st\<rparr>
      in case p of
           None \<Rightarrow> Some (None, s)
         | Some a \<Rightarrow>
             if send_timed
             then do { b \<leftarrow> pbufs (lw s) a;
                       Some (Some a, store_pbuf a (b\<lparr>pb_flags := pb_flags b OR PBUF_FLAG_TX_TIMESTAMP F\<rparr>) s) }
             else Some (Some a, s))"

definition pbuf_shim_token_payload :: "ptr \<Rightarrow> ('w, 'z) conn_state_scheme \<Rightarrow> ptr option" where
  "pbuf_shim_token_payload buffer_token s =
     (case buffer_token of
        None \<Rightarrow> Some None
      | Some p \<Rightarrow> do { _ \<leftarrow> pbufs (lw s) p; Some (Some p) })"

definition pbuf_shim_token_timestamp :: "ptr \<Rightarrow> ('w, 'z) conn_state_scheme \<Rightarrow> u32 option" where
  "pbuf_shim_token_timestamp buffer_token s =
     (case buffer_token of
        None \<Rightarrow> Some 0
      | Some p \<Rightarrow> do { b \<leftarrow> pbufs (lw s) p; Some (pb_timestamp b) })"

text \<open>
  \<open>memcpy(payload, buffer, length)\<close>: copying past the end of the source or of the payload
  is undefined.
\<close>

definition memcpy_to_payload ::
  "ptr \<Rightarrow> u8 list \<Rightarrow> u32 \<Rightarrow> ('w, 'z) conn_state_scheme \<Rightarrow> ('w, 'z) conn_state_scheme option" where
  "memcpy_to_payload payload buffer len s = do {
     p \<leftarrow> payload;
     b \<leftarrow> pbufs (lw s) p;
     if unat len \<le> length buffer \<and> unat len \<le> length (pb_payload b)
     then Some (store_pbuf p (b\<lparr>pb_payload := take (unat len) buffer @ drop (unat len) (pb_payload b)\<rparr>) s)
     else None }"

text \<open>\<open>memcpy(buffer, data, n)\<close> into a client's buffer.\<close>

definition memcpy_from :: "u8 list \<Rightarrow> nat \<Rightarrow> u8 list \<Rightarrow> u8 list option" where
  "memcpy_from data n buffer =
     (if n \<le> length data \<and> n \<le> length buffer then Some (take n data @ drop n buffer) else None)"

end
