(* ===== verification/Xtcp_Lwip.thy ===== *)
theory Xtcp_Lwip
  imports Lwip_Shim Pbuf_Shim Event_Delivery
begin

unbundle bit_operations_syntax

text \<open>
  \<open>lib_xtcp/src/xtcp_lwip.xc\<close>: the server task. Its \<open>select\<close> loop takes one
  input at a time (a call by a client, a packet, a link change, a timer) and handles it to the end;
  each case is a definition, and \<open>server_step\<close> is one turn of the loop.

  The functions of the network port layer (\<open>ethernetif_input\<close>, \<open>xcore_timeout\<close>
  and so on) and the Ethernet interfaces belong to other libraries: they are fields of the
  environment record, and the calls made on \<open>i_eth_cfg\<close> and \<open>i_mii\<close> that change something
  there are recorded in the order they are made.
\<close>

section \<open>State and environment\<close>

text \<open>The filter structure of \<open>lib_ethernet\<close>, with the two fields that the server sets.\<close>

record ethernet_macaddr_filter_t =
  mac_addr :: "u8 list"
  appdata :: u32

datatype eth_call =
    Set_macaddr "u8 list"
  | Add_ethertype_filter nat u16
  | Add_macaddr_filter nat ethernet_macaddr_filter_t
  | Del_macaddr_filter nat ethernet_macaddr_filter_t
  | Mii_init
  | Mii_release_packet "u8 list"

record 'w server_state =
  sys :: "'w xtcp_state"
  netif_notify_state :: int
  period :: "u32 list"
  timeout :: "u32 list"
  eth_calls :: "eth_call list"

text \<open>
  \<open>i_eth_rx\<close> is the result of \<open>i_eth_rx.get_index()\<close> when that interface is
  connected; \<open>i_eth_cfg\<close>, \<open>i_eth_tx\<close> and \<open>i_mii\<close> say whether those are.
  \<open>configure_mac\<close> is the \<open>xtcp_configure_mac\<close> that the application links (the
  weak default is \<open>xtcp_configure_mac\<close> below), and \<open>stack_appdata\<close> the value of
  a field of a local variable that the source does not initialise.
\<close>

record 'w environment =
  i_eth_cfg :: bool
  i_eth_rx :: "nat option"
  i_eth_tx :: bool
  i_mii :: bool
  configure_mac :: "u32 \<Rightarrow> u8 list"
  stack_appdata :: u32
  ETHTYPE_ARP :: u16
  ETHTYPE_IP :: u16
  NUM_TIMEOUTS :: nat
  XS1_TIMER_KHZ :: u32
  xcore_lwip_init_timers :: "u32 list \<Rightarrow> u32 \<Rightarrow> u32 list \<times> u32 list"
  xcore_netif_output_init :: "bool \<Rightarrow> bool \<Rightarrow> 'w lwip_state \<Rightarrow> 'w lwip_state"
  xarch_init :: "'w lwip_state \<Rightarrow> 'w lwip_state"
  xcore_ethernetif_init :: "u8 list \<Rightarrow> xtcp_ipconfig_t \<Rightarrow> 'w lwip_state \<Rightarrow> 'w lwip_state"
  LL_IP4_MULTICAST_ADDR :: "u8 \<times> u8 \<times> u8"
  ethernetif_input :: "u8 list \<Rightarrow> u32 \<Rightarrow> u32 \<Rightarrow> 'w lwip_state \<Rightarrow> ('w, unit) lwip_prog"
  xcore_net_link_up :: "'w lwip_state \<Rightarrow> ('w, unit) lwip_prog"
  xcore_net_link_down :: "'w lwip_state \<Rightarrow> ('w, unit) lwip_prog"
  xcore_timeout :: "nat \<Rightarrow> 'w lwip_state \<Rightarrow> ('w, unit) lwip_prog"
  ethernetif_has_ip_address :: "'w lwip_state \<Rightarrow> int"
  get_if_state :: "'w lwip_state \<Rightarrow> int"
  xcore_netif_get_ipconfig :: "'w lwip_state \<Rightarrow> xtcp_ipconfig_t"

definition ipv4_multicast_to_mac :: "u8 \<times> u8 \<times> u8 \<Rightarrow> xtcp_ipaddr_t \<Rightarrow> ethernet_macaddr_filter_t" where
  "ipv4_multicast_to_mac prefix ipv4_addr =
     (case (prefix, ipv4_addr) of ((m0, m1, m2), (a0, a1, a2, a3)) \<Rightarrow>
        \<lparr>mac_addr = [m0, m1, m2, a1 AND 0x7F, a2, a3], appdata = 0\<rparr>)"

section \<open>Starting up\<close>

definition xtcp_configure_mac :: "u32 \<Rightarrow> u8 list" where
  "xtcp_configure_mac netif_id = replicate 6 0"

definition filter_calls :: "'w environment \<Rightarrow> u8 list \<Rightarrow> eth_call list option" where
  "filter_calls E mac =
     (if i_eth_cfg E
      then do {
        index \<leftarrow> i_eth_rx E;
        Some [Set_macaddr mac,
              Add_macaddr_filter index \<lparr>mac_addr = mac, appdata = stack_appdata E\<rparr>,
              Add_macaddr_filter index \<lparr>mac_addr = replicate 6 0xff, appdata = stack_appdata E\<rparr>,
              Add_ethertype_filter index (ETHTYPE_ARP E),
              Add_ethertype_filter index (ETHTYPE_IP E)] }
      else if i_mii E then Some [Mii_init] else Some [])"

text \<open>Everything before the loop; \<open>fail\<close> and a failed assertion stop the program.\<close>

definition server_init ::
  "'w environment \<Rightarrow> xtcp_config \<Rightarrow> u32 \<Rightarrow> xtcp_ipconfig_t \<Rightarrow> u32 \<Rightarrow> 'w xtcp_state
     \<Rightarrow> 'w server_state option" where
  "server_init E cfg n ipconfig time_now s =
     (if i_eth_cfg E \<and> i_mii E then None
      else if \<not> i_eth_cfg E \<and> \<not> i_mii E then None
      else do {
        let mac = configure_mac E 0;
        let s = upd_lw (xcore_netif_output_init E (i_eth_tx E) (i_mii E)) s;
        calls \<leftarrow> filter_calls E mac;
        let s = upd_lw (xarch_init E) s;
        let s = upd_lw (xcore_ethernetif_init E mac ipconfig) s;
        nt \<leftarrow> client_init_notification cfg n (notify (queues s));
        let s = s\<lparr>queues := xtcp_init_queue cfg ((queues s)\<lparr>notify := nt\<rparr>)\<rparr>;
        let s = init_client_connections cfg s;
        let (per, tmo) = xcore_lwip_init_timers E (replicate (NUM_TIMEOUTS E) (XS1_TIMER_KHZ E)) time_now;
        Some \<lparr>sys = s, netif_notify_state = 0, period = per, timeout = tmo, eth_calls = calls\<rparr> })"

section \<open>The macros for sending and receiving\<close>

definition send_common ::
  "lwip_flags \<Rightarrow> 'w lwip \<Rightarrow> xtcp_config \<Rightarrow> u32 \<Rightarrow> int \<Rightarrow> u8 list \<Rightarrow> u32 \<Rightarrow> bool \<Rightarrow> 'w xtcp_state
     \<Rightarrow> ((int \<times> u32 option) \<times> 'w xtcp_state) option" where
  "send_common F L cfg i ident buffer len timed s =
     (let connection = find_client_connection cfg i ident s in
      if status connection \<noteq> XTCP_SUCCESS then Some ((error_code (status connection), None), s)
      else do {
        (buffer_token, s) \<leftarrow> pbuf_shim_alloc_tx F L (u16_of_u32 len) timed s;
        (case buffer_token of
           None \<Rightarrow> Some ((error_code XTCP_ENOMEM, None), s)
         | Some _ \<Rightarrow> do {
             payload \<leftarrow> pbuf_shim_token_payload buffer_token s;
             s \<leftarrow> memcpy_to_payload payload buffer len s;
             (result, s) \<leftarrow> shim_send L cfg i ident buffer_token s;
             ts \<leftarrow> pbuf_shim_token_timestamp buffer_token s;
             Some ((error_code result, if timed then Some ts else None), s) }) })"

definition sendto_common ::
  "lwip_flags \<Rightarrow> 'w lwip \<Rightarrow> xtcp_config \<Rightarrow> u32 \<Rightarrow> int \<Rightarrow> u8 list \<Rightarrow> u32 \<Rightarrow> xtcp_ipaddr_t \<Rightarrow> u16 \<Rightarrow> bool
     \<Rightarrow> 'w xtcp_state \<Rightarrow> ((int \<times> u32 option) \<times> 'w xtcp_state) option" where
  "sendto_common F L cfg i ident buffer len remote_addr remote_port timed s =
     (let connection = find_client_connection cfg i ident s in
      if status connection \<noteq> XTCP_SUCCESS then Some ((error_code (status connection), None), s)
      else if get_protocol cfg ident s = XTCP_PROTOCOL_TCP
      then Some ((error_code XTCP_EPROTONOSUPPORT, None), s)
      else do {
        (buffer_token, s) \<leftarrow> pbuf_shim_alloc_tx F L (u16_of_u32 len) timed s;
        (case buffer_token of
           None \<Rightarrow> Some ((error_code XTCP_ENOMEM, None), s)
         | Some _ \<Rightarrow> do {
             payload \<leftarrow> pbuf_shim_token_payload buffer_token s;
             s \<leftarrow> memcpy_to_payload payload buffer len s;
             let (result, s) = shim_sendto L cfg i ident buffer_token remote_addr remote_port s;
             ts \<leftarrow> pbuf_shim_token_timestamp buffer_token s;
             Some ((error_code result, if timed then Some ts else None), s) }) })"

text \<open>
  The part of \<open>recv_common\<close> and \<open>recvfrom_common\<close> from
  \<open>get_remote_data\<close> to \<open>free_remote_data\<close>. The result is the call's return
  value, the client's buffer afterwards and the timestamp stored.
\<close>

definition take_remote_data ::
  "'w lwip \<Rightarrow> xtcp_config \<Rightarrow> int \<Rightarrow> u8 list \<Rightarrow> u32 \<Rightarrow> bool \<Rightarrow> 'w xtcp_state
     \<Rightarrow> ((int \<times> u8 list \<times> u32 option) \<times> 'w xtcp_state) option" where
  "take_remote_data L cfg ident buffer len timed s = do {
     (copy_length, data, ts) \<leftarrow> get_remote_data cfg ident (int32_of_u32 len) timed s;
     (result, buffer) \<leftarrow>
       (if status copy_length \<noteq> XTCP_SUCCESS then Some (error_code (status copy_length), buffer)
        else do { d \<leftarrow> data; buffer \<leftarrow> memcpy_from d (nat (val copy_length)) buffer;
                  Some (val copy_length, buffer) });
     (_, s) \<leftarrow> free_remote_data L cfg ident s;
     Some ((result, buffer, ts), s) }"

definition recv_common ::
  "'w lwip \<Rightarrow> xtcp_config \<Rightarrow> u32 \<Rightarrow> int \<Rightarrow> u8 list \<Rightarrow> u32 \<Rightarrow> bool \<Rightarrow> 'w xtcp_state
     \<Rightarrow> ((int \<times> u8 list \<times> u32 option) \<times> 'w xtcp_state) option" where
  "recv_common L cfg i ident buffer len timed s =
     (let connection = find_client_connection cfg i ident s in
      if status connection \<noteq> XTCP_SUCCESS
      then Some ((error_code (status connection), buffer, None), s)
      else take_remote_data L cfg ident buffer len timed s)"

definition recvfrom_common ::
  "'w lwip \<Rightarrow> xtcp_config \<Rightarrow> u32 \<Rightarrow> int \<Rightarrow> u8 list \<Rightarrow> u32 \<Rightarrow> bool \<Rightarrow> 'w xtcp_state
     \<Rightarrow> ((int \<times> u8 list \<times> u32 option \<times> xtcp_host_t option) \<times> 'w xtcp_state) option" where
  "recvfrom_common L cfg i ident buffer len timed s =
     (let connection = find_client_connection cfg i ident s in
      if status connection \<noteq> XTCP_SUCCESS
      then Some ((error_code (status connection), buffer, None, None), s)
      else if get_protocol cfg ident s = XTCP_PROTOCOL_TCP
      then Some ((error_code XTCP_EPROTONOSUPPORT, buffer, None, None), s)
      else do {
        remote \<leftarrow> get_remote cfg ident s;
        ((result, buffer, ts), s) \<leftarrow> take_remote_data L cfg ident buffer len timed s;
        Some ((result, buffer, ts, Some remote), s) })"

section \<open>Telling every client\<close>

primrec notify_from :: "xtcp_config \<Rightarrow> xtcp_event_type_t \<Rightarrow> u32 \<Rightarrow> nat \<Rightarrow> 'w xtcp_state \<Rightarrow> 'w xtcp_state option" where
  "notify_from cfg e i 0 s = Some s"
| "notify_from cfg e i (Suc k) s = do {
     (_, s) \<leftarrow> enqueue cfg i 0 e s;
     notify_from cfg e (i + 1) k s }"

text \<open>\<open>for (unsigned i = 0; i < n_xtcp; ++i) enqueue_event_and_notify(i, 0, e)\<close>\<close>

definition notify_all :: "xtcp_config \<Rightarrow> xtcp_event_type_t \<Rightarrow> 'w xtcp_state \<Rightarrow> 'w xtcp_state option" where
  "notify_all cfg e s = notify_from cfg e 0 (unat (n_xtcp (notify (queues s)))) s"

section \<open>Inputs and replies\<close>

datatype server_input =
    Packet_data "u8 list" u32 u32
  | Link_status bool
  | Mii_packets "(u8 list \<times> u32) list"
  | Get_event u32
  | Socket u32 xtcp_protocol_t
  | Close u32 int
  | Abort u32 int
  | Listen u32 int u16 xtcp_ipaddr_t
  | Connect u32 int u16 xtcp_ipaddr_t
  | Send u32 int "u8 list" u32 bool
  | Sendto u32 int "u8 list" u32 xtcp_ipaddr_t u16 bool
  | Recv u32 int "u8 list" u32 bool
  | Recvfrom u32 int "u8 list" u32 bool
  | Set_connection_client_data u32 int ptr
  | Get_connection_client_data u32 int
  | Join_multicast_group u32 xtcp_ipaddr_t
  | Leave_multicast_group u32 xtcp_ipaddr_t
  | Request_host_by_name u32 "u8 list" xtcp_ipaddr_t
  | Get_netif_ipconfig u32 int
  | Get_ipconfig_remote u32 int
  | Get_ipconfig_local u32 int
  | Getsockopt u32 int xtcp_socket_level_t u32 "u8 list" u32
  | Setsockopt u32 int xtcp_socket_level_t u32 "u8 list" u32
  | Is_ifup u32
  | Timer nat

datatype reply =
    Unit
  | Event_reply xtcp_event_type_t int
  | Int_reply int
  | Code_reply xtcp_error_code_t
  | Timed_reply int "u32 option"
  | Data_reply int "u8 list" "u32 option"
  | From_reply int "u8 list" "u32 option" "xtcp_host_t option"
  | Ptr_reply ptr
  | Host_reply xtcp_host_t
  | Config_reply xtcp_ipconfig_t
  | Option_reply xtcp_error_int32_t "u8 list"

section \<open>The cases that do more than call one function\<close>

definition socket_case ::
  "lwip_flags \<Rightarrow> 'w lwip \<Rightarrow> xtcp_config \<Rightarrow> u32 \<Rightarrow> xtcp_protocol_t \<Rightarrow> 'w xtcp_state
     \<Rightarrow> (int \<times> 'w xtcp_state) option" where
  "socket_case F L cfg i protocol s = do {
     (connection, s) \<leftarrow> shim_new_socket F L cfg i protocol s;
     Some (if status connection \<noteq> XTCP_SUCCESS then error_code (status connection)
           else val connection, s) }"

definition connect_case ::
  "'w lwip \<Rightarrow> xtcp_config \<Rightarrow> u32 \<Rightarrow> int \<Rightarrow> u16 \<Rightarrow> xtcp_ipaddr_t \<Rightarrow> 'w xtcp_state
     \<Rightarrow> xtcp_error_code_t \<times> 'w xtcp_state" where
  "connect_case L cfg i ident port addr s =
     (let connection = find_client_connection cfg i ident s in
      if status connection \<noteq> XTCP_SUCCESS then (status connection, s)
      else shim_connect L cfg i ident port addr s)"

definition set_client_data_case ::
  "xtcp_config \<Rightarrow> u32 \<Rightarrow> int \<Rightarrow> ptr \<Rightarrow> 'w xtcp_state \<Rightarrow> int \<times> 'w xtcp_state" where
  "set_client_data_case cfg i ident data s =
     (let connection = find_client_connection cfg i ident s in
      if status connection \<noteq> XTCP_SUCCESS then (error_code (status connection), s)
      else let (r, s) = set_connection_client_data cfg ident data s in (error_code r, s))"

definition get_client_data_case :: "xtcp_config \<Rightarrow> u32 \<Rightarrow> int \<Rightarrow> 'w xtcp_state \<Rightarrow> ptr" where
  "get_client_data_case cfg i ident s =
     (let connection = find_client_connection cfg i ident s in
      if status connection \<noteq> XTCP_SUCCESS then None else get_connection_client_data cfg ident s)"

definition multicast_case ::
  "'w environment \<Rightarrow> (nat \<Rightarrow> ethernet_macaddr_filter_t \<Rightarrow> eth_call)
     \<Rightarrow> (xtcp_ipaddr_t \<Rightarrow> 'w xtcp_state \<Rightarrow> xtcp_error_code_t \<times> 'w xtcp_state)
     \<Rightarrow> xtcp_ipaddr_t \<Rightarrow> 'w server_state \<Rightarrow> 'w server_state" where
  "multicast_case E call shim group_addr v =
     (let v = v\<lparr>sys := snd (shim group_addr (sys v))\<rparr>
      in case (i_eth_cfg E, i_eth_rx E) of
           (True, Some index) \<Rightarrow>
             v\<lparr>eth_calls := eth_calls v @
                [call index (ipv4_multicast_to_mac (LL_IP4_MULTICAST_ADDR E) group_addr)]\<rparr>
         | _ \<Rightarrow> v)"

definition request_host_case ::
  "'w environment \<Rightarrow> 'w lwip \<Rightarrow> u32 \<Rightarrow> u8 list \<Rightarrow> xtcp_ipaddr_t \<Rightarrow> 'w xtcp_state
     \<Rightarrow> xtcp_host_t \<times> 'w xtcp_state" where
  "request_host_case E L i hostname dns_server s =
     (let xipaddr = xcore_netif_get_ipconfig E (lw s)
      in if fst (cfg_gateway xipaddr) \<noteq> 0 then shim_request_host_by_name L i hostname dns_server s
         else (no_host, s))"

definition getsockopt_case ::
  "lwip_flags \<Rightarrow> 'w lwip \<Rightarrow> xtcp_config \<Rightarrow> u32 \<Rightarrow> int \<Rightarrow> xtcp_socket_level_t \<Rightarrow> u32 \<Rightarrow> u8 list \<Rightarrow> u32
     \<Rightarrow> 'w xtcp_state \<Rightarrow> (xtcp_error_int32_t \<times> u8 list) option" where
  "getsockopt_case F L cfg i ident level opt value len s = do {
     (r, value_copy, length_copy) \<leftarrow>
       shim_getsockopt F L cfg i ident level opt (replicate (unat len) 0) len s;
     if r = XTCP_SUCCESS
     then do { value \<leftarrow> memcpy_from value_copy (unat length_copy) value;
               Some (err_int32 r (int32_of_u32 length_copy), value) }
     else Some (err_int32 r 0, value) }"

primrec mii_case ::
  "lwip_flags \<Rightarrow> 'w environment \<Rightarrow> 'w lwip \<Rightarrow> xtcp_config \<Rightarrow> (u8 list \<times> u32) list \<Rightarrow> 'w server_state
     \<Rightarrow> 'w server_state option" where
  "mii_case F E L cfg [] v = Some v"
| "mii_case F E L cfg (pkt # pkts) v = do {
     (_, s) \<leftarrow> run_lwip (handle_callback F L cfg) (ethernetif_input E (fst pkt) (snd pkt) 0 (lw (sys v))) (sys v);
     mii_case F E L cfg pkts (v\<lparr>sys := s, eth_calls := eth_calls v @ [Mii_release_packet (fst pkt)]\<rparr>) }"

definition link_case ::
  "lwip_flags \<Rightarrow> 'w environment \<Rightarrow> 'w lwip \<Rightarrow> xtcp_config \<Rightarrow> bool \<Rightarrow> 'w server_state
     \<Rightarrow> 'w server_state option" where
  "link_case F E L cfg up v =
     (if up
      then do { (_, s) \<leftarrow> run_lwip (handle_callback F L cfg) (xcore_net_link_up E (lw (sys v))) (sys v);
                Some (v\<lparr>sys := s\<rparr>) }
      else do { (_, s) \<leftarrow> run_lwip (handle_callback F L cfg) (xcore_net_link_down E (lw (sys v))) (sys v);
                s \<leftarrow> notify_all cfg XTCP_IFDOWN s;
                Some (v\<lparr>sys := s, netif_notify_state := 0\<rparr>) })"

definition timer_case ::
  "lwip_flags \<Rightarrow> 'w environment \<Rightarrow> 'w lwip \<Rightarrow> xtcp_config \<Rightarrow> nat \<Rightarrow> 'w server_state
     \<Rightarrow> 'w server_state option" where
  "timer_case F E L cfg i v = do {
     (_, s) \<leftarrow> run_lwip (handle_callback F L cfg) (xcore_timeout E i (lw (sys v))) (sys v);
     let v = v\<lparr>sys := s\<rparr>;
     v \<leftarrow> (if i = 0 \<and> ethernetif_has_ip_address E (lw s) = error_code XTCP_SUCCESS \<and>
             netif_notify_state v = 0 \<and> get_if_state E (lw s) \<noteq> 0
          then do { s \<leftarrow> notify_all cfg XTCP_IFUP s;
                    Some (v\<lparr>sys := s, netif_notify_state := 1\<rparr>) }
          else Some v);
     Some (v\<lparr>timeout := (timeout v)[i := timeout v ! i + period v ! i]\<rparr>) }"

section \<open>One turn of the loop\<close>

definition reply_sys :: "'w server_state \<Rightarrow> ('a \<Rightarrow> reply) \<Rightarrow> 'a \<times> 'w xtcp_state \<Rightarrow> reply \<times> 'w server_state" where
  "reply_sys v f r = (f (fst r), v\<lparr>sys := snd r\<rparr>)"

fun server_step ::
  "lwip_flags \<Rightarrow> 'w environment \<Rightarrow> 'w lwip \<Rightarrow> xtcp_config \<Rightarrow> server_input \<Rightarrow> 'w server_state
     \<Rightarrow> (reply \<times> 'w server_state) option" where
  "server_step F E L cfg (Packet_data buffer len ts) v =
     map_option (reply_sys v (\<lambda>_. Unit))
       (run_lwip (handle_callback F L cfg) (ethernetif_input E buffer len ts (lw (sys v))) (sys v))"
| "server_step F E L cfg (Link_status up) v = map_option (Pair Unit) (link_case F E L cfg up v)"
| "server_step F E L cfg (Mii_packets pkts) v =
     map_option (Pair Unit) (mii_case F E L cfg pkts v)"
| "server_step F E L cfg (Get_event i) v =
     map_option (\<lambda>((e, x), q). (Event_reply e x, v\<lparr>sys := (sys v)\<lparr>queues := q\<rparr>\<rparr>))
       (get_event cfg i (queues (sys v)))"
| "server_step F E L cfg (Socket i protocol) v =
     map_option (reply_sys v Int_reply) (socket_case F L cfg i protocol (sys v))"
| "server_step F E L cfg (Close i ident) v =
     map_option (\<lambda>s. (Unit, v\<lparr>sys := s\<rparr>)) (shim_close_socket L cfg i ident (sys v))"
| "server_step F E L cfg (Abort i ident) v =
     map_option (\<lambda>s. (Unit, v\<lparr>sys := s\<rparr>)) (shim_close_socket L cfg i ident (sys v))"
| "server_step F E L cfg (Listen i ident port addr) v =
     Some (reply_sys v Code_reply (shim_listen L cfg i ident port addr (sys v)))"
| "server_step F E L cfg (Connect i ident port addr) v =
     Some (reply_sys v Code_reply (connect_case L cfg i ident port addr (sys v)))"
| "server_step F E L cfg (Send i ident buffer len timed) v =
     map_option (reply_sys v (\<lambda>(r, ts). Timed_reply r ts))
       (send_common F L cfg i ident buffer len timed (sys v))"
| "server_step F E L cfg (Sendto i ident buffer len addr port timed) v =
     map_option (reply_sys v (\<lambda>(r, ts). Timed_reply r ts))
       (sendto_common F L cfg i ident buffer len addr port timed (sys v))"
| "server_step F E L cfg (Recv i ident buffer len timed) v =
     map_option (reply_sys v (\<lambda>(r, buf, ts). Data_reply r buf ts))
       (recv_common L cfg i ident buffer len timed (sys v))"
| "server_step F E L cfg (Recvfrom i ident buffer len timed) v =
     map_option (reply_sys v (\<lambda>(r, buf, ts, h). From_reply r buf ts h))
       (recvfrom_common L cfg i ident buffer len timed (sys v))"
| "server_step F E L cfg (Set_connection_client_data i ident data) v =
     Some (reply_sys v Int_reply (set_client_data_case cfg i ident data (sys v)))"
| "server_step F E L cfg (Get_connection_client_data i ident) v =
     Some (Ptr_reply (get_client_data_case cfg i ident (sys v)), v)"
| "server_step F E L cfg (Join_multicast_group i addr) v =
     Some (Unit, multicast_case E Add_macaddr_filter (shim_join_multicast_group L) addr v)"
| "server_step F E L cfg (Leave_multicast_group i addr) v =
     Some (Unit, multicast_case E Del_macaddr_filter (shim_leave_multicast_group L) addr v)"
| "server_step F E L cfg (Request_host_by_name i hostname dns_server) v =
     Some (reply_sys v Host_reply (request_host_case E L i hostname dns_server (sys v)))"
| "server_step F E L cfg (Get_netif_ipconfig i netif) v =
     Some (Config_reply (xcore_netif_get_ipconfig E (lw (sys v))), v)"
| "server_step F E L cfg (Get_ipconfig_remote i ident) v =
     map_option (\<lambda>h. (Host_reply h, v)) (get_remote_from_pcb cfg ident (sys v))"
| "server_step F E L cfg (Get_ipconfig_local i ident) v =
     map_option (\<lambda>h. (Host_reply h, v)) (get_local_from_pcb cfg ident (sys v))"
| "server_step F E L cfg (Getsockopt i ident level opt value len) v =
     map_option (\<lambda>(r, value). (Option_reply r value, v))
       (getsockopt_case F L cfg i ident level opt value len (sys v))"
| "server_step F E L cfg (Setsockopt i ident level opt value len) v =
     map_option (reply_sys v Code_reply) (shim_setsockopt F L cfg i ident level opt value len (sys v))"
| "server_step F E L cfg (Is_ifup i) v = Some (Int_reply (get_if_state E (lw (sys v))), v)"
| "server_step F E L cfg (Timer i) v = map_option (Pair Unit) (timer_case F E L cfg i v)"

end
