(* ===== verification/Callback_Properties.thy ===== *)
theory Callback_Properties
  imports Tcp_Transport Udp_Recv Dns_Found Xtcp_Example
begin

unbundle bit_operations_syntax

text \<open>
  What the callbacks from lwIP do: received data is queued together with its event or refused
  without a trace, a new connection belongs to the listener's client, an error frees its socket
  and is reported under the code that matches.
\<close>

section \<open>Receiving on the whole state\<close>

lemma sys_set_remote:
  assumes "sys_inv cfg held s R" "in_range cfg i" "rx_arrived held s R p b"
  shows "\<exists>s'. set_remote cfg i remote port (Some p) s = Some (XTCP_SUCCESS, s') \<and>
    sys_inv cfg held s' (R(i := R i @ [(p, tag_remote remote port b)])) \<and> queues s' = queues s \<and>
    get_client_info cfg i s' = get_client_info cfg i s \<and> sockets s' = sockets s"
proof -
  have rel: "rx_rel cfg held s R" using assms(1) by (simp add: sys_inv_def)
  obtain s' where s': "set_remote cfg i remote port (Some p) s = Some (XTCP_SUCCESS, s')"
    "rx_rel cfg held s' (R(i := R i @ [(p, tag_remote remote port b)]))"
    using set_remote_law [OF rel assms(2,3)] by blast
  have f: "sockets s' = sockets s" "queues s' = queues s"
    using set_remote_frame [OF s'(1)] set_remote_queues [OF s'(1)] by simp_all
  show ?thesis using s'(1) f sys_inv_frame [OF assms(1) s'(2) f] by blast
qed

text \<open>Whether an event for client \<open>c\<close> would be accepted now.\<close>

definition has_room :: "xtcp_config \<Rightarrow> u32 \<Rightarrow> 'w xtcp_state \<Rightarrow> bool" where
  "has_room cfg c s \<longleftrightarrow>
     valid_client cfg c \<and> length (queued (queues s) c) < CLIENT_QUEUE_SIZE cfg"

lemma enqueue_cases:
  assumes "sys_inv cfg held s R" "c = get_client_info cfg i s"
  obtains (accepted) q where "has_room cfg c s" "enqueue cfg c x e s = Some (XTCP_SUCCESS, s\<lparr>queues := q\<rparr>)"
      "sys_inv cfg held (s\<lparr>queues := q\<rparr>) R" "queued q = (queued (queues s))(c := queued (queues s) c @ [event e x])"
  | (refused) r where "\<not> has_room cfg c s" "enqueue cfg c x e s = Some (r, s)" "r \<noteq> XTCP_SUCCESS"
proof -
  obtain r q where *: "enqueue cfg c x e s = Some (r, s\<lparr>queues := q\<rparr>)"
    "sys_inv cfg held (s\<lparr>queues := q\<rparr>) R" "r \<noteq> XTCP_SUCCESS \<longrightarrow> q = queues s"
    "(r, queued q) = fifo_enq (valid_client cfg) (CLIENT_QUEUE_SIZE cfg) c x e (queued (queues s))"
    using enqueue_client [OF assms] by blast
  show thesis
  proof (cases "has_room cfg c s")
    case True
    with * accepted show ?thesis by (auto simp: has_room_def fifo_enq_def)
  next
    case False
    then have r: "r \<noteq> XTCP_SUCCESS" using *(4) by (auto simp: has_room_def fifo_enq_def split: if_splits)
    with *(1,3) refused [OF False _ r] show ?thesis by simp
  qed
qed

section \<open>TCP data\<close>

lemma tcp_data:
  assumes "sys_inv cfg held s R" "in_range cfg i" "rx_arrived held s R p b"
    and "c = get_client_info cfg i s"
  shows "\<exists>r s'. lwip_tcp_event L cfg i pcb LWIP_EVENT_RECV (Some p) sz err s = Some (r, s') \<and>
    sockets s' = sockets s \<and>
    (if has_room cfg c s
     then r = ERR_OK \<and> sys_inv cfg held s' (R(i := R i @ [(p, tag_remote None 0 b)])) \<and>
       queued (queues s') = (queued (queues s))(c := queued (queues s) c @ [event XTCP_RECV_DATA i])
     else r = ERR_INPROGRESS \<and> sys_inv cfg held s' R \<and>
       rx_arrived held s' R p (tag_remote None 0 b) \<and> queues s' = queues s)"
proof -
  let ?b = "tag_remote None 0 b"
  obtain s1 where s1: "set_remote cfg i None 0 (Some p) s = Some (XTCP_SUCCESS, s1)"
    "sys_inv cfg held s1 (R(i := R i @ [(p, ?b)]))" "queues s1 = queues s"
    "get_client_info cfg i s1 = get_client_info cfg i s" "sockets s1 = sockets s"
    using sys_set_remote [OF assms(1-3)] by blast
  have c: "c = get_client_info cfg i s1" using s1(4) assms(4) by simp
  have room: "has_room cfg c s1 = has_room cfg c s" using s1(3) by (simp add: has_room_def)
  from s1(2) c show ?thesis
  proof (cases rule: enqueue_cases [where x = i and e = XTCP_RECV_DATA])
    case (accepted q)
    with s1 assms(2,4) room show ?thesis by (simp add: lwip_tcp_event_defs sockets_def)
  next
    case (refused r)
    have rel: "rx_rel cfg held s R" using assms(1) by (simp add: sys_inv_def)
    obtain s2 where s2: "unlink_remote cfg i (Some p) s1 = Some (XTCP_SUCCESS, s2)"
      "rx_rel cfg held s2 R" "rx_arrived held s2 R p ?b"
      using rxs.append_then_unlink [OF rel assms(2,3), of None 0] s1(1) by auto
    have f: "sockets s2 = sockets s" "queues s2 = queues s"
      using unlink_remote_frame(1) [OF s2(1)] unlink_remote_queues [OF s2(1)] s1(3,5) by simp_all
    have "sys_inv cfg held s2 R" using sys_inv_frame(1) [OF assms(1) s2(2) f] .
    with s2 f refused s1 assms(2,4) room show ?thesis by (simp add: lwip_tcp_event_defs)
  qed
qed

text \<open>
  C7. Data on a TCP socket. When the owner's event queue has room, the buffer becomes the last of
  the socket's receive queue, \<open>XTCP_RECV_DATA\<close> the last event of the owner, and lwIP is
  told \<open>ERR_OK\<close>. When it has not, lwIP is told to keep the data
  (\<open>ERR_INPROGRESS\<close>), no event is queued, the receive queues of all sockets are as
  before and the buffer is handed back unlinked, so that lwIP can offer it again.
\<close>

theorem tcp_data_queued_or_refused:
  assumes "sys_inv cfg held s R" "in_range cfg i" "rx_arrived held s R p b"
    and "c = get_client_info cfg i s"
  shows "\<exists>r s'. lwip_tcp_event L cfg i pcb LWIP_EVENT_RECV (Some p) sz err s = Some (r, s') \<and>
    (if has_room cfg c s
     then r = ERR_OK \<and> sys_inv cfg held s' (R(i := R i @ [(p, tag_remote None 0 b)])) \<and>
       queued (queues s') = (queued (queues s))(c := queued (queues s) c @ [event XTCP_RECV_DATA i])
     else r = ERR_INPROGRESS \<and> sys_inv cfg held s' R \<and>
       rx_arrived held s' R p (tag_remote None 0 b) \<and> queues s' = queues s)"
  using tcp_data [OF assms] by blast

theorem tcp_data_queued_or_refused_witness:
  "(\<exists>s'. lwip_tcp_event ex_lwip ex_cfg 0 (Some 100) LWIP_EVENT_RECV (Some 3) 0 ERR_OK (ex_state ex_idle)
       = Some (ERR_OK, s') \<and> queued (queues s') 0 = [event XTCP_RECV_DATA 0]) \<and>
   (\<exists>s'. lwip_tcp_event ex_lwip ex_cfg 0 (Some 100) LWIP_EVENT_RECV (Some 3) 0 ERR_OK (ex_state ex_wrapped)
       = Some (ERR_INPROGRESS, s') \<and> sys_inv ex_cfg (\<lambda>w. w) s' ex_rx)"
proof
  have c: "0 = get_client_info ex_cfg 0 (ex_state q)" for q
    by (simp add: get_client_info_def ex_in_range ex_conns_def)
  have r: "in_range ex_cfg 0" by (simp add: ex_in_range)
  show "\<exists>s'. lwip_tcp_event ex_lwip ex_cfg 0 (Some 100) LWIP_EVENT_RECV (Some 3) 0 ERR_OK (ex_state ex_idle)
       = Some (ERR_OK, s') \<and> queued (queues s') 0 = [event XTCP_RECV_DATA 0]"
    using tcp_data_queued_or_refused [OF ex_sys_inv r ex_arrived c, of ex_idle,
        where L = ex_lwip and pcb = "Some 100" and sz = 0 and err = ERR_OK]
    by (auto simp: ex_idle_inv has_room_def valid_client_def)
  show "\<exists>s'. lwip_tcp_event ex_lwip ex_cfg 0 (Some 100) LWIP_EVENT_RECV (Some 3) 0 ERR_OK (ex_state ex_wrapped)
       = Some (ERR_INPROGRESS, s') \<and> sys_inv ex_cfg (\<lambda>w. w) s' ex_rx"
    using tcp_data_queued_or_refused [OF ex_sys_inv r ex_arrived c, of ex_wrapped,
        where L = ex_lwip and pcb = "Some 100" and sz = 0 and err = ERR_OK]
    by (auto simp: ex_wrapped_inv ex_wrapped_notify ex_wrapped_queued has_room_def)
qed

section \<open>Datagrams\<close>

lemma udp_queued:
  assumes "sys_inv cfg held s R" "in_range cfg i" "rx_arrived held s R p b"
    and "c = get_client_info cfg i s" "has_room cfg c s" "udp_pcbs (lw s) upcb = Some u"
  shows "\<exists>s'. xtcp_udp_recv F L cfg i upcb (Some p) remote port s = Some s' \<and>
    sys_inv cfg held s' (R(i := R i @ [(p, tag_remote remote port b)])) \<and>
    queued (queues s') = (queued (queues s))(c := queued (queues s) c @
      [event (if udp_flags u AND UDP_FLAGS_CONNECTED F \<noteq> 0 then XTCP_RECV_DATA
              else XTCP_RECV_FROM_DATA) i]) \<and>
    sockets s' = sockets s \<and> world (lw s') = world (lw s)"
proof -
  let ?e = "if udp_flags u AND UDP_FLAGS_CONNECTED F \<noteq> 0 then XTCP_RECV_DATA else XTCP_RECV_FROM_DATA"
  obtain s1 where s1: "set_remote cfg i remote port (Some p) s = Some (XTCP_SUCCESS, s1)"
    "sys_inv cfg held s1 (R(i := R i @ [(p, tag_remote remote port b)]))" "queues s1 = queues s"
    "get_client_info cfg i s1 = get_client_info cfg i s" "sockets s1 = sockets s"
    using sys_set_remote [OF assms(1-3)] by blast
  have u: "udp_pcbs (lw s1) upcb = Some u"
    using set_remote_pcbs [OF s1(1)] assms(6) by simp
  have c: "c = get_client_info cfg i s1" using s1(4) assms(4) by simp
  have room: "has_room cfg c s1" using s1(3) assms(5) by (simp add: has_room_def)
  from s1(2) c show ?thesis
  proof (cases rule: enqueue_cases [where x = i and e = ?e])
    case (accepted q)
    with s1 u c assms(2) set_remote_world [OF s1(1)] show ?thesis
      by (simp add: xtcp_udp_recv_def sockets_def)
  next
    case (refused r)
    with room show ?thesis by simp
  qed
qed

text \<open>
  A datagram for a socket whose owner has room: the buffer, tagged with its sender, becomes the
  last of the socket's receive queue, and the owner gets \<open>XTCP_RECV_DATA\<close> on a connected
  socket and \<open>XTCP_RECV_FROM_DATA\<close> otherwise.
\<close>

theorem udp_datagram_queued:
  assumes "sys_inv cfg held s R" "in_range cfg i" "rx_arrived held s R p b"
    and "c = get_client_info cfg i s" "has_room cfg c s" "udp_pcbs (lw s) upcb = Some u"
  shows "\<exists>s'. xtcp_udp_recv F L cfg i upcb (Some p) remote port s = Some s' \<and>
    sys_inv cfg held s' (R(i := R i @ [(p, tag_remote remote port b)])) \<and>
    queued (queues s') = (queued (queues s))(c := queued (queues s) c @
      [event (if udp_flags u AND UDP_FLAGS_CONNECTED F \<noteq> 0 then XTCP_RECV_DATA
              else XTCP_RECV_FROM_DATA) i])"
  using udp_queued [OF assms] by blast

theorem udp_datagram_queued_witness:
  "\<exists>s'. xtcp_udp_recv ex_flags ex_lwip ex_cfg 1 200 (Some 3) (Some (10, 0, 0, 9)) 5353 (ex_state ex_idle)
       = Some s' \<and> queued (queues s') 1 = [event XTCP_RECV_FROM_DATA 1]"
proof -
  have c: "1 = get_client_info ex_cfg 1 (ex_state ex_idle)"
    by (simp add: get_client_info_def ex_in_range ex_conns_def)
  have u: "udp_pcbs (lw (ex_state ex_idle)) 200 = Some \<lparr>local_ip = (10, 0, 0, 1),
      remote_ip = (0, 0, 0, 0), tos = 0, ttl = 64, udp_local_port = 53, udp_remote_port = 0, udp_flags = 0\<rparr>"
    by (simp add: ex_lw_def)
  have "has_room ex_cfg 1 (ex_state ex_idle)" by (simp add: has_room_def valid_client_def ex_idle_inv)
  from udp_datagram_queued [OF ex_sys_inv [OF ex_idle_inv(1,2)] _ ex_arrived c this u,
      of ex_flags ex_lwip "Some (10, 0, 0, 9)" 5353]
  show ?thesis by (auto simp: ex_in_range ex_idle_inv)
qed

text \<open>
  C31. A datagram that arrives when the owner's event queue is full is freed but stays linked: the
  socket's receive queue still leads to the buffer that was handed back to lwIP, which
  from then on no longer belongs to the library.
\<close>

theorem udp_refused_datagram_left_linked:
  assumes "sys_inv cfg held s R" "in_range cfg i" "rx_arrived held s R p b" "R i = []"
    and "\<not> has_room cfg (get_client_info cfg i s) s" "udp_pcbs (lw s) upcb = Some u"
    and "frees_chain held (pbuf_free L)"
  shows "\<exists>s'. xtcp_udp_recv F L cfg i upcb (Some p) remote port s = Some s' \<and>
    c_pbuf (conn s' i) = Some p \<and> p \<notin> held (world (lw s')) \<and> (\<nexists>R'. rx_rel cfg held s' R')"
proof -
  let ?c = "get_client_info cfg i s"
  obtain s1 where s1: "set_remote cfg i remote port (Some p) s = Some (XTCP_SUCCESS, s1)"
    "sys_inv cfg held s1 (R(i := R i @ [(p, tag_remote remote port b)]))" "queues s1 = queues s"
    "get_client_info cfg i s1 = ?c"
    using sys_set_remote [OF assms(1-3)] by blast
  have rel: "rx_rel cfg held s1 (R(i := [(p, tag_remote remote port b)]))"
    using s1(2) assms(4) by (simp add: sys_inv_def)
  have ch: "chain (pbufs (lw s1)) (Some p) [p]" and head: "c_pbuf (conn s1 i) = Some p"
    using rx_relD(3) [OF rel assms(2)] by auto
  have "p \<in> held (world (lw s1))" using rx_relD(5) [OF rel, of i] by simp
  then have gone: "p \<notin> held (world (pbuf_free L p (lw s1)))"
    using frees_chainD(1) [OF assms(7) ch] by simp
  let ?s = "upd_lw (pbuf_free L p) s1"
  have "\<not> rx_rel cfg held ?s R'" for R'
  proof
    assume r: "rx_rel cfg held ?s R'"
    have "chain (pbufs (lw ?s)) (Some p) (map fst (R' i))" using rx_relD(3) [OF r assms(2)] head by simp
    then have "p \<in> fst ` set (R' i)" by (cases "R' i") auto
    then show False using rx_relD(5) [OF r, of i] gone by auto
  qed
  moreover have "xtcp_udp_recv F L cfg i upcb (Some p) remote port s = Some ?s"
  proof (rule enqueue_cases [OF s1(2) s1(4) [symmetric], of i "if udp_flags u AND UDP_FLAGS_CONNECTED F \<noteq> 0
      then XTCP_RECV_DATA else XTCP_RECV_FROM_DATA"])
    fix r
    assume "enqueue cfg ?c i (if udp_flags u AND UDP_FLAGS_CONNECTED F \<noteq> 0
      then XTCP_RECV_DATA else XTCP_RECV_FROM_DATA) s1 = Some (r, s1)" "r \<noteq> XTCP_SUCCESS"
    with s1 assms(2,6) set_remote_pcbs [OF s1(1)] show ?thesis by (simp add: xtcp_udp_recv_def)
  qed (use assms(5) s1(3) in \<open>simp add: has_room_def\<close>)
  ultimately show ?thesis using gone head by auto
qed

text \<open>A server whose client 1 has a full queue.\<close>

definition ex_full :: queue_state where
  "ex_full = ex_boot\<lparr>client_queue := [[event XTCP_EVENT_NONE 0, event XTCP_EVENT_NONE 0],
       [event XTCP_IFUP 0, event XTCP_SENT_DATA 1]],
     client_heads := [0, 0], client_num_events := [0, 2]\<rparr>"

lemma ex_full_inv: "queue_inv ex_cfg ex_full" "notify ex_full = notify ex_boot" "length (queued ex_full 1) = 2"
  by (simp_all add: queue_inv_def ex_full_def ring_ok_def less_Suc_eq numeral_2_eq_2 queued_def ring_list_def)

theorem udp_refused_datagram_left_linked_witness:
  "\<exists>s'. xtcp_udp_recv ex_flags ex_lwip ex_cfg 1 200 (Some 3) (Some (10, 0, 0, 9)) 5353 (ex_state ex_full)
       = Some s' \<and> c_pbuf (conn s' 1) = Some 3 \<and> 3 \<notin> world (lw s')"
proof -
  have c: "get_client_info ex_cfg 1 (ex_state ex_full) = 1"
    by (simp add: get_client_info_def ex_in_range ex_conns_def)
  have u: "udp_pcbs (lw (ex_state ex_full)) 200 = Some \<lparr>local_ip = (10, 0, 0, 1),
      remote_ip = (0, 0, 0, 0), tos = 0, ttl = 64, udp_local_port = 53, udp_remote_port = 0, udp_flags = 0\<rparr>"
    by (simp add: ex_lw_def)
  have full: "\<not> has_room ex_cfg (get_client_info ex_cfg 1 (ex_state ex_full)) (ex_state ex_full)"
    by (simp add: has_room_def ex_full_inv c)
  have free: "frees_chain (\<lambda>w. w) (pbuf_free ex_lwip)"
    using ex_lwip_rx_contract by (simp add: rx_contract_def)
  have "ex_rx 1 = []" by (simp add: ex_rx_def)
  from udp_refused_datagram_left_linked [OF ex_sys_inv [OF ex_full_inv(1,2)] _ ex_arrived this full u free,
      of ex_flags "Some (10, 0, 0, 9)" 5353]
  show ?thesis by (auto simp: ex_in_range)
qed

section \<open>Errors\<close>

fun error_event :: "err_t \<Rightarrow> xtcp_event_type_t option" where
  "error_event ERR_ABRT = Some XTCP_ABORTED"
| "error_event ERR_RST = Some XTCP_TIMED_OUT"
| "error_event ERR_CLSD = Some XTCP_TIMED_OUT"
| "error_event _ = None"

lemma tcp_error:
  assumes "sys_inv cfg held s R" "in_range cfg i" "c = get_client_info cfg i s"
  shows "\<exists>s'. lwip_tcp_event L cfg i pcb LWIP_EVENT_ERR p sz err s = Some (ERR_OK, s') \<and>
    sys_inv cfg held s' R \<and> owner cfg s' = (owner cfg s)(i := None) \<and> lw s' = lw s \<and>
    queued (queues s') =
      (case error_event err of
         Some e \<Rightarrow> if has_room cfg c s
           then (queued (queues s))(c := queued (queues s) c @ [event e i]) else queued (queues s)
       | None \<Rightarrow> queued (queues s))"
proof -
  have t: "table_inv cfg s" using assms(1) rx_relD(1) by (auto simp: sys_inv_def)
  have o: "owner cfg (free_client_connection cfg i (s\<lparr>queues := q\<rparr>)) = (owner cfg s)(i := None)"
    "owner cfg (free_client_connection cfg i s) = (owner cfg s)(i := None)" for q
    using free_client_connection_law [of cfg "s\<lparr>queues := q\<rparr>" i] free_client_connection_law [OF t, of i] t
    by (simp_all add: table_inv_def)
  show ?thesis
  proof (cases "error_event err")
    case None
    with assms o sys_free_client [OF assms(1)] show ?thesis
      by (cases err) (simp_all add: lwip_tcp_event_defs)
  next
    case (Some e)
    from assms(1,3) show ?thesis
    proof (cases rule: enqueue_cases [where x = i and e = e])
      case (accepted q)
      with Some assms o sys_free_client [OF accepted(3)] show ?thesis
        by (cases err) (auto simp: lwip_tcp_event_defs)
    next
      case (refused r)
      with Some assms o sys_free_client [OF assms(1)] show ?thesis
        by (cases err) (auto simp: lwip_tcp_event_defs)
    qed
  qed
qed



text \<open>
  C32. The received data of a connection that fails outlives it: when the slot of a failed
  connection is given to another client, the new owner's first read returns the payload that
  arrived for the old connection.
\<close>

theorem stale_data_reaches_next_owner:
  assumes "sys_inv cfg held s R" "in_range cfg i" "R i = (p, b) # ys"
    and "lwip_tcp_event L cfg i pcb LWIP_EVENT_ERR None sz err s = Some (r, s1)"
    and "assign_client_connection cfg d q s1 = (err_int32 XTCP_SUCCESS i, s2)"
    and "d \<noteq> DEINIT" "notifiable (notify (queues s1)) d" "int (unat (pb_len b)) \<le> len"
  shows "find_client_connection cfg d i s2 = err_int32 XTCP_SUCCESS i \<and>
    get_remote_data cfg i len False s2 =
      Some (err_int32 XTCP_SUCCESS (int (unat (pb_len b))), Some (pb_payload b), None)"
proof -
  have s1: "sys_inv cfg held s1 R" using tcp_error [OF assms(1,2) refl, of L pcb None sz err] assms(4) by auto
  then have t1: "table_inv cfg s1" using rx_relD(1) by (auto simp: sys_inv_def)
  have s2: "sys_inv cfg held s2 R" by (rule sys_assign [OF s1 assms(5,6,7)])
  then have rel: "rx_rel cfg held s2 R" by (simp add: sys_inv_def)
  obtain b0 where "pbufs (lw s2) p = Some b0" "unlinked b0 = b"
    using rx_rel_disjoint(4) [OF rel, of i "[]" p b ys] assms(3) by auto
  moreover have "c_pbuf (conn s2 i) = Some p" using rx_relD(3) [OF rel assms(2)] assms(3) by simp
  moreover have "find_client_connection cfg d i s2 = err_int32 XTCP_SUCCESS i"
    using st.assign_then_find(1) [OF t1 assms(6,5)] by simp
  ultimately show ?thesis
    using assms(2,8) by (auto simp: get_remote_data_def unlinked_def)
qed

theorem stale_data_reaches_next_owner_witness:
  "\<exists>s1 s2. lwip_tcp_event ex_lwip ex_cfg 0 None LWIP_EVENT_ERR None 0 ERR_VAL
        ((ex_state ex_idle)\<lparr>last_guid := 0\<rparr>) = Some (ERR_OK, s1) \<and>
     assign_client_connection ex_cfg 1 XTCP_PROTOCOL_UDP s1 = (err_int32 XTCP_SUCCESS 0, s2) \<and>
     get_remote_data ex_cfg 0 10 False s2 = Some (err_int32 XTCP_SUCCESS 2, Some [65, 66], None)"
proof -
  let ?s = "(ex_state ex_idle)\<lparr>last_guid := 0\<rparr>"
  have "rx_rel ex_cfg (\<lambda>w. w) ?s ex_rx"
    by (rule rx_rel_table [OF ex_rx_rel [of ex_idle]])
      (use ex_table_inv [of ex_idle] in \<open>auto simp: table_inv_def\<close>)
  moreover have "owner ex_cfg ?s = owner ex_cfg (ex_state ex_idle)" by (simp add: owner_def fun_eq_iff)
  ultimately have inv: "sys_inv ex_cfg (\<lambda>w. w) ?s ex_rx"
    using ex_sys_inv [OF ex_idle_inv(1,2)] by (simp add: sys_inv_def clients_ok_def)
  let ?s1 = "free_client_connection ex_cfg 0 ?s"
  have e: "lwip_tcp_event ex_lwip ex_cfg 0 None LWIP_EVENT_ERR None 0 ERR_VAL ?s = Some (ERR_OK, ?s1)"
    by (simp add: lwip_tcp_event_defs ex_in_range)
  have "\<exists>s2. assign_client_connection ex_cfg 1 XTCP_PROTOCOL_UDP ?s1 = (err_int32 XTCP_SUCCESS 0, s2)"
    by (simp add: assign_client_connection_def free_client_connection_def upd_conn_def ex_conns_def
        ex_in_range numeral_3_eq_3)
  then obtain s2 where a: "assign_client_connection ex_cfg 1 XTCP_PROTOCOL_UDP ?s1 = (err_int32 XTCP_SUCCESS 0, s2)"
    by blast
  have "ex_rx 0 = (1, ex_pbuf None [65, 66] 7 80) # [(2, ex_pbuf None [67] 8 80)]" by (simp add: ex_rx_def)
  from stale_data_reaches_next_owner [OF inv _ this e a, of 10] e a show ?thesis
    by (auto simp: ex_in_range ex_idle_inv ex_pbuf_def)
qed

section \<open>New connections\<close>

text \<open>
  What \<open>tcp_setprio\<close> and \<open>tcp_arg\<close> are relied on for: they set fields of a
  control block and leave the application's buffers alone.
\<close>

definition accept_contract :: "'w lwip \<Rightarrow> ('w \<Rightarrow> addr set) \<Rightarrow> bool" where
  "accept_contract L held \<longleftrightarrow>
     (\<forall>a. keeps held (tcp_setprio_min L a)) \<and> (\<forall>a i. keeps held (tcp_arg L a i))"

lemma sys_set_tcp_pcb:
  assumes "sys_inv cfg held s R" "set_tcp_pcb cfg i p s = (r, s')"
  shows "sys_inv cfg held s' R \<and> owner cfg s' = owner cfg s \<and> queues s' = queues s \<and>
    (get_protocol cfg i s = XTCP_PROTOCOL_TCP \<longrightarrow> get_tcp_pcb cfg i s' = p)"
proof (cases "in_range cfg i \<and> c_protocol (conn s i) = XTCP_PROTOCOL_TCP")
  case True
  have rel: "rx_rel cfg held s R" using assms(1) by (simp add: sys_inv_def)
  note t = rx_relD(1) [OF rel]
  have s': "s' = upd_conn i (\<lambda>c. c\<lparr>c_pcb := p\<rparr>) s" using True assms(2) by (simp add: set_tcp_pcb_def)
  have i: "in_range cfg i" "c_protocol (conn s i) \<noteq> XTCP_PROTOCOL_NONE" using True by simp_all
  note U = upd_pcb [OF t i, where q = p, folded s']
  note t' = U(1) and o = U(2) and c = U(3)
  have "rx_rel cfg held s' R"
    by (rule rx_rel_table [OF rel t']) (use c in \<open>simp_all add: s'\<close>)
  then show ?thesis
    using assms(1) True o c [of i] by (auto simp: sys_inv_def clients_ok_def s' get_tcp_pcb_def)
next
  case False
  then show ?thesis using assms by (auto simp: set_tcp_pcb_def get_protocol_def split: if_splits)
qed

lemma sys_shim_accept:
  assumes inv: "sys_inv cfg held s R" and L: "accept_contract L held"
    and own: "owner cfg s i = Some (c, XTCP_PROTOCOL_TCP)"
    and acc: "shim_accept L cfg c (Some a) i s = (k, s')"
  shows "sys_inv cfg held s' R \<and> queues s' = queues s \<and>
    (if dom (owner cfg s) = socket_ids cfg then k = err_int32 XTCP_ENOMEM (-1) \<and> owner cfg s' = owner cfg s
     else status k = XTCP_SUCCESS \<and> owner cfg s (val k) = None \<and>
       owner cfg s' = (owner cfg s)(val k \<mapsto> (c, XTCP_PROTOCOL_TCP)) \<and> get_tcp_pcb cfg (val k) s' = Some a)"
proof -
  have t: "table_inv cfg s" using inv rx_relD(1) by (auto simp: sys_inv_def)
  have p: "get_protocol cfg i s = XTCP_PROTOCOL_TCP" and c: "c \<noteq> DEINIT"
    using own table_inv_entry [OF t, of i] by (auto simp: owner_def get_protocol_def entry_ok_def split: if_splits)
  have n: "notifiable (notify (queues s)) c" using inv own by (auto simp: sys_inv_def clients_ok_def)
  obtain k1 s1 where a1: "assign_client_connection cfg c XTCP_PROTOCOL_TCP s = (k1, s1)" by force
  note A = assign_client_connection_law [OF t c a1] and s1 = sys_assign [OF inv a1 c n]
  obtain e s2 where a2: "set_tcp_pcb cfg (val k1) (Some a) s1 = (e, s2)" by force
  note B = sys_set_tcp_pcb [OF s1 a2]
  show ?thesis
  proof (cases "dom (owner cfg s) = socket_ids cfg")
    case True
    with A acc p a1 inv show ?thesis by (auto simp: shim_accept_def)
  next
    case False
    with A have k1: "status k1 = XTCP_SUCCESS" "val k1 \<in> socket_ids cfg" "owner cfg s (val k1) = None"
      "owner cfg s1 = (owner cfg s)(val k1 \<mapsto> (c, XTCP_PROTOCOL_TCP))" by auto
    have s': "k = k1" "s' = upd_lw (tcp_arg L a (val k1)) s2"
      using acc p a1 a2 k1(1) by (auto simp: shim_accept_def)
    have "get_protocol cfg (val k1) s1 = XTCP_PROTOCOL_TCP"
      using k1(4) by (auto simp: owner_def fun_eq_iff get_protocol_def split: if_splits)
    with B have pcb: "get_tcp_pcb cfg (val k1) s2 = Some a" by simp
    have "sys_inv cfg held s' R" using B L by (simp add: s' sys_keeps accept_contract_def)
    moreover have "owner cfg s' = owner cfg s2" "get_tcp_pcb cfg (val k1) s' = get_tcp_pcb cfg (val k1) s2"
      by (simp_all add: s' owner_def get_tcp_pcb_def fun_eq_iff)
    ultimately show ?thesis
      using False B k1 pcb assign_queues [OF a1] by (simp add: s')
  qed
qed

text \<open>
  C17. An incoming connection on a listening socket of client \<open>c\<close>. When every slot is
  taken, lwIP is told \<open>ERR_MEM\<close> and the table and the events stay as they are.
  Otherwise a slot that was free becomes a TCP socket of \<open>c\<close> holding the new control
  block, the listener and all other sockets keep theirs, and \<open>c\<close> gets
  \<open>XTCP_ACCEPTED\<close> with the new id; if its queue is full lwIP is told to abort the
  connection.
\<close>

theorem tcp_accept_belongs_to_listener:
  assumes "sys_inv cfg held s R" "accept_contract L held" "owner cfg s i = Some (c, XTCP_PROTOCOL_TCP)"
  shows "\<exists>r s'. lwip_tcp_event L cfg i (Some a) LWIP_EVENT_ACCEPT p sz ERR_OK s = Some (r, s') \<and>
    sys_inv cfg held s' R \<and>
    (if dom (owner cfg s) = socket_ids cfg
     then r = ERR_MEM \<and> owner cfg s' = owner cfg s \<and> queues s' = queues s
     else \<exists>j. owner cfg s j = None \<and> owner cfg s' = (owner cfg s)(j \<mapsto> (c, XTCP_PROTOCOL_TCP)) \<and>
       get_tcp_pcb cfg j s' = Some a \<and>
       (if has_room cfg c s
        then r = ERR_OK \<and>
          queued (queues s') = (queued (queues s))(c := queued (queues s) c @ [event XTCP_ACCEPTED j])
        else r = ERR_INPROGRESS \<and> queues s' = queues s))"
proof -
  let ?s = "upd_lw (tcp_setprio_min L a) s"
  have i: "in_range cfg i" and c: "get_client_info cfg i s = c"
    using assms(3) by (auto simp: owner_def get_client_info_def split: if_splits)
  have s0: "sys_inv cfg held ?s R" using assms(1,2) by (simp add: sys_keeps accept_contract_def)
  have o: "owner cfg ?s = owner cfg s" by (simp add: owner_def fun_eq_iff)
  obtain k s1 where k: "shim_accept L cfg c (Some a) i ?s = (k, s1)" by force
  have "owner cfg ?s i = Some (c, XTCP_PROTOCOL_TCP)" using o assms(3) by simp
  note A = sys_shim_accept [OF s0 assms(2) this k]
  show ?thesis
  proof (cases "dom (owner cfg s) = socket_ids cfg")
    case True
    with A i c k o show ?thesis by (auto simp: lwip_tcp_event_defs)
  next
    case False
    have new: "status k = XTCP_SUCCESS" "owner cfg s (val k) = None" "get_tcp_pcb cfg (val k) s1 = Some a"
      "owner cfg s1 = (owner cfg s)(val k \<mapsto> (c, XTCP_PROTOCOL_TCP))" "sys_inv cfg held s1 R"
      "queues s1 = queues s"
      using A False o by auto
    have "owner cfg s1 i = Some (c, XTCP_PROTOCOL_TCP)" using new(2,4) assms(3) by auto
    then have c1: "c = get_client_info cfg i s1" by (auto simp: owner_def get_client_info_def split: if_splits)
    have room: "has_room cfg c s1 = has_room cfg c s" using new(6) by (simp add: has_room_def)
    from new(5) c1 show ?thesis
    proof (cases rule: enqueue_cases [where x = "val k" and e = XTCP_ACCEPTED])
      case (accepted q)
      have "get_tcp_pcb cfg (val k) (s1\<lparr>queues := q\<rparr>) = Some a"
        using new(3) by (simp add: get_tcp_pcb_def split: if_splits)
      with accepted new i c k room False show ?thesis
        by (auto simp: lwip_tcp_event_defs intro!: exI [of _ "val k"])
    next
      case (refused r)
      with new i c k room False show ?thesis
        by (auto simp: lwip_tcp_event_defs intro!: exI [of _ "val k"])
    qed
  qed
qed

lemma ex_accept_contract: "accept_contract ex_lwip (\<lambda>w. w)"
  by (simp add: accept_contract_def keeps_def ex_lwip_def)

theorem tcp_accept_belongs_to_listener_witness:
  "\<exists>r s'. lwip_tcp_event ex_lwip ex_cfg 0 (Some 101) LWIP_EVENT_ACCEPT None 0 ERR_OK (ex_state ex_idle)
     = Some (r, s') \<and> r = ERR_OK \<and>
     (\<exists>j. owner ex_cfg s' j = Some (0, XTCP_PROTOCOL_TCP) \<and> queued (queues s') 0 = [event XTCP_ACCEPTED j])"
proof -
  have o: "owner ex_cfg (ex_state ex_idle) 0 = Some (0, XTCP_PROTOCOL_TCP)" by (simp add: ex_owner)
  have "2 \<in> socket_ids ex_cfg" "2 \<notin> dom (owner ex_cfg (ex_state ex_idle))"
    by (simp_all add: ex_owner socket_ids_def)
  then have ne: "dom (owner ex_cfg (ex_state ex_idle)) \<noteq> socket_ids ex_cfg" by blast
  have room: "has_room ex_cfg 0 (ex_state ex_idle)" by (simp add: has_room_def valid_client_def ex_idle_inv)
  from tcp_accept_belongs_to_listener [OF ex_sys_inv [OF ex_idle_inv(1,2)] ex_accept_contract o,
      of 101 None 0, unfolded if_not_P [OF ne] if_P [OF room]]
  show ?thesis by (fastforce simp: ex_idle_inv)
qed

section \<open>Name lookups\<close>

text \<open>
  C27. The end of a name lookup is always reported to the client that asked, as an
  \<open>XTCP_DNS_RESULT\<close> event whose id is 0 when an address was found and
  \<open>XTCP_ENOMEM\<close> (-2) when not, as long as its queue has room; nothing else changes.
\<close>

theorem dns_result_reported:
  assumes "queue_inv cfg (queues s)" "notifiable (notify (queues s)) c" "has_room cfg c s"
  shows "\<exists>q. xtcp_dns_found cfg (Some name) addr c s = Some (s\<lparr>queues := q\<rparr>) \<and> queue_inv cfg q \<and>
    queued q = (queued (queues s))(c := queued (queues s) c @
      [event XTCP_DNS_RESULT (if addr = None then -2 else 0)])"
proof -
  have v: "valid_client cfg c" "length (queued (queues s) c) < CLIENT_QUEUE_SIZE cfg"
    using assms(3) by (simp_all add: has_room_def)
  let ?i = "if addr = None then -2 else 0 :: int"
  have i: "error_code (dns_outcome cfg c (Some name) addr) = ?i"
    using v by (simp add: dns_outcome_def valid_client_def)
  obtain r q where q: "enqueue_event_and_notify cfg c ?i XTCP_DNS_RESULT (queues s) = Some (r, q)"
    using enqueue_total [OF assms(2)] by blast
  from enqueue_spec [OF assms(1) q] v
  have "queued q = (queued (queues s))(c := queued (queues s) c @ [event XTCP_DNS_RESULT ?i])"
    "queue_inv cfg q" by simp_all
  moreover have "xtcp_dns_found cfg (Some name) addr c s = Some (s\<lparr>queues := q\<rparr>)"
    using q i by (simp only: xtcp_dns_found_def enqueue_def Let_def) simp
  ultimately show ?thesis by blast
qed

theorem dns_result_reported_witness:
  "\<exists>q. xtcp_dns_found ex_cfg (Some [102]) None 1 (ex_state ex_idle) = Some ((ex_state ex_idle)\<lparr>queues := q\<rparr>) \<and>
     queued q 1 = [event XTCP_DNS_RESULT (-2)]"
  using dns_result_reported [of ex_cfg "ex_state ex_idle" 1 "[102]" None]
  by (auto simp: ex_idle_inv has_room_def valid_client_def)

end
