(* ===== verification/Server_Properties.thy ===== *)
theory Server_Properties
  imports Xtcp_Lwip Callback_Properties
begin

unbundle bit_operations_syntax

text \<open>
  What the socket calls of \<open>lwip_shim.c\<close> and the cases of \<open>xtcp_lwip.xc\<close>
  guarantee to the clients.
\<close>

section \<open>Receiving\<close>

lemma sys_owner:
  assumes "sys_inv cfg held s R" "owner cfg s x = Some (c, pr)"
  shows "in_range cfg x" "c \<noteq> DEINIT" "c_client_num (conn s x) = c" "c_protocol (conn s x) = pr"
    "find_client_connection cfg c x s = err_int32 XTCP_SUCCESS x"
    "get_protocol cfg x s = pr" "table_inv cfg s" "notifiable (notify (queues s)) c"
proof -
  show t: "table_inv cfg s" using assms(1) rx_relD(1) by (auto simp: sys_inv_def)
  show r: "in_range cfg x" and n: "c_client_num (conn s x) = c" and p: "c_protocol (conn s x) = pr"
    using assms(2) by (auto simp: owner_def split: if_splits)
  show "c \<noteq> DEINIT"
    using table_inv_entry [OF t r] assms(2) by (auto simp: owner_def entry_ok_def split: if_splits)
  show "find_client_connection cfg c x s = err_int32 XTCP_SUCCESS x"
    using r n by (simp add: find_client_connection_eq)
  show "get_protocol cfg x s = pr" using r p by (simp add: get_protocol_def)
  show "notifiable (notify (queues s)) c" using assms by (auto simp: sys_inv_def clients_ok_def)
qed

lemma sys_free_remote_data:
  assumes "sys_inv cfg held s R" "rx_contract L held" "R x = (p, b) # ys"
  shows "\<exists>s'. free_remote_data L cfg x s = Some (XTCP_SUCCESS, s') \<and> sys_inv cfg held s' (R(x := ys)) \<and>
    queues s' = queues s \<and> held (world (lw s')) = held (world (lw s)) - {p}"
proof -
  have rel: "rx_rel cfg held s R" using assms(1) by (simp add: sys_inv_def)
  obtain s' where s': "free_remote_data L cfg x s = Some (XTCP_SUCCESS, s')"
    "rx_rel cfg held s' (R(x := ys))" "held (world (lw s')) = held (world (lw s)) - {p}"
    using free_remote_data_law [OF rel assms(2,3)] by blast
  with free_remote_data_frame [OF s'(1)] sys_inv_frame(1) [OF assms(1) s'(2)] show ?thesis by blast
qed

lemma take_oldest:
  assumes "sys_inv cfg held s R" "rx_contract L held" "in_range cfg x"
    and "R x = (p, b) # ys" "unat (pb_len b) \<le> length (pb_payload b)"
    and "unat len \<le> length buffer" "unat len < 2 ^ 31"
  shows "\<exists>s'. take_remote_data L cfg x buffer len timed s =
      Some ((if unat (pb_len b) \<le> unat len
             then (int (unat (pb_len b)),
                   take (unat (pb_len b)) (pb_payload b) @ drop (unat (pb_len b)) buffer,
                   if timed then Some (pb_timestamp b) else None)
             else (-3, buffer, if timed then Some (pb_timestamp b) else None)), s') \<and>
    sys_inv cfg held s' (R(x := ys)) \<and> queues s' = queues s \<and>
    held (world (lw s')) = held (world (lw s)) - {p}"
proof -
  have rel: "rx_rel cfg held s R" using assms(1) by (simp add: sys_inv_def)
  obtain b0 where b0: "pbufs (lw s) p = Some b0" "unlinked b0 = b"
    using rx_rel_disjoint(4) [OF rel, of x "[]" p b ys] assms(4) by auto
  then have b: "pb_len b0 = pb_len b" "pb_payload b0 = pb_payload b" "pb_timestamp b0 = pb_timestamp b"
    by (auto simp: unlinked_def)
  have head: "c_pbuf (conn s x) = Some p" using rx_relD(3) [OF rel assms(3)] assms(4) by simp
  obtain s' where s': "free_remote_data L cfg x s = Some (XTCP_SUCCESS, s')"
    "sys_inv cfg held s' (R(x := ys))" "queues s' = queues s"
    "held (world (lw s')) = held (world (lw s)) - {p}"
    using sys_free_remote_data [OF assms(1,2,4)] by blast
  have len: "int32_of_u32 len = int (unat len)" by (rule int32_of_u32_small [OF assms(7)])
  show ?thesis
    using assms(3) head b0(1) b s' len assms(5,6)
    by (auto simp: take_remote_data_def get_remote_data_def memcpy_from_def simp del: of_nat_unat)
qed

text \<open>
  C11. A read by the owner of a socket with data queued takes the oldest buffer, whatever happens:
  it returns its length and copies its bytes when they fit the client's buffer, and returns
  \<open>XTCP_EAGAIN\<close> (-3) with the client's buffer unchanged when they do not; the timestamp is
  that buffer's. Exactly that buffer is given back to lwIP; the other buffers of the socket and
  those of other sockets stay queued.
\<close>

theorem recv_takes_oldest:
  assumes "sys_inv cfg held s R" "rx_contract L held" "owner cfg s x = Some (c, pr)"
    and "R x = (p, b) # ys" "unat (pb_len b) \<le> length (pb_payload b)"
    and "unat len \<le> length buffer" "unat len < 2 ^ 31"
  shows "\<exists>s'. recv_common L cfg c x buffer len timed s =
      Some ((if unat (pb_len b) \<le> unat len
             then (int (unat (pb_len b)),
                   take (unat (pb_len b)) (pb_payload b) @ drop (unat (pb_len b)) buffer,
                   if timed then Some (pb_timestamp b) else None)
             else (-3, buffer, if timed then Some (pb_timestamp b) else None)), s') \<and>
    sys_inv cfg held s' (R(x := ys)) \<and> queues s' = queues s \<and>
    held (world (lw s')) = held (world (lw s)) - {p}"
proof -
  note O = sys_owner [OF assms(1,3)]
  show ?thesis
    using take_oldest [OF assms(1,2) O(1) assms(4-7), of timed] O(5) by (simp add: recv_common_def)
qed

theorem recv_takes_oldest_witness:
  "\<exists>s'. recv_common ex_lwip ex_cfg 0 0 [0, 0, 0] 3 True (ex_state ex_idle) =
      Some ((2, [65, 66, 0], Some 7), s') \<and>
    sys_inv ex_cfg (\<lambda>w. w) s' (ex_rx(0 := [(2, ex_pbuf None [67] 8 80)]))"
proof -
  have o: "owner ex_cfg (ex_state ex_idle) 0 = Some (0, XTCP_PROTOCOL_TCP)" by (simp add: ex_owner)
  have r: "ex_rx 0 = (1, ex_pbuf None [65, 66] 7 80) # [(2, ex_pbuf None [67] 8 80)]" by (simp add: ex_rx_def)
  from recv_takes_oldest [OF ex_sys_inv [OF ex_idle_inv(1,2)] ex_lwip_rx_contract o r, of 3 "[0, 0, 0]" True]
  show ?thesis by (auto simp: ex_pbuf_def)
qed

section \<open>Closing\<close>

text \<open>Closing a control block leaves the application's buffers alone.\<close>

definition close_contract :: "'w lwip \<Rightarrow> ('w \<Rightarrow> addr set) \<Rightarrow> bool" where
  "close_contract L held \<longleftrightarrow>
     rx_contract L held \<and> (\<forall>a. keeps held (tcp_close L a)) \<and> (\<forall>a. keeps held (udp_remove L a))"

lemma sys_close_pcb:
  "sys_inv cfg held s R \<Longrightarrow> close_contract L held \<Longrightarrow> sys_inv cfg held (close_pcb L cfg i s) R"
  by (simp add: close_pcb_def close_contract_def sys_keeps split: xtcp_protocol_t.splits option.splits)

lemma close_pcb_frame [simp]:
  "queues (close_pcb L cfg i s) = queues s" "connections (close_pcb L cfg i s) = connections s"
  by (simp_all add: close_pcb_def split: xtcp_protocol_t.splits option.splits)

lemma sys_purge:
  assumes "sys_inv cfg held s R" "free_notifications_on_queue cfg c i (queues s) = (n, q)"
  shows "sys_inv cfg held (s\<lparr>queues := q\<rparr>) R"
  using assms purge_spec [of cfg "queues s" c i n q] by (simp add: sys_inv_def clients_ok_def)

lemma close_pcb_held:
  "close_contract L held \<Longrightarrow> held (world (lw (close_pcb L cfg i s))) = held (world (lw s))"
  by (simp add: close_pcb_def close_contract_def keepsD(1) split: xtcp_protocol_t.splits option.splits)

lemma close_law:
  assumes "sys_inv cfg held s R" "close_contract L held" "owner cfg s x = Some (c, pr)"
  shows "\<exists>s'. shim_close_socket L cfg c x s = Some s' \<and> sys_inv cfg held s' (R(x := [])) \<and>
    held (world (lw s')) = held (world (lw s)) - fst ` set (R x) \<and>
    owner cfg s' = (owner cfg s)(x := None) \<and>
    queued (queues s') = (queued (queues s))(c := filter (\<lambda>e. ev_id e \<noteq> x) (queued (queues s) c)) \<and>
    (\<forall>d. d \<noteq> DEINIT \<longrightarrow> find_client_connection cfg d x s' = err_int32 XTCP_EINVAL (-1))"
proof -
  note O = sys_owner [OF assms(1,3)]
  have L: "rx_contract L held" using assms(2) by (simp add: close_contract_def)
  obtain n q where q: "free_notifications_on_queue cfg c x (queues s) = (n, q)" by force
  let ?s1 = "s\<lparr>queues := q\<rparr>"
  have s1: "sys_inv cfg held ?s1 R" by (rule sys_purge [OF assms(1) q])
  then have rel1: "rx_rel cfg held ?s1 R" by (simp add: sys_inv_def)
  obtain s2 where s2: "clear_pending_rx_data_on_connection L cfg x ?s1 = Some s2"
    "rx_rel cfg held s2 (R(x := []))" "held (world (lw s2)) = held (world (lw s)) - fst ` set (R x)"
    using clear_pending_law [OF rel1 L O(1)] by auto
  note f2 = clear_pending_frame [OF s2(1)]
  have i2: "sys_inv cfg held s2 (R(x := []))"
    by (rule sys_inv_frame(1) [OF s1 s2(2)]) (use f2 in simp_all)
  let ?s3 = "close_pcb L cfg x s2"
  have i3: "sys_inv cfg held ?s3 (R(x := []))" by (rule sys_close_pcb [OF i2 assms(2)])
  then have t3: "table_inv cfg ?s3" using rx_relD(1) by (auto simp: sys_inv_def)
  let ?s' = "free_client_connection cfg x ?s3"
  have "owner cfg ?s3 = owner cfg s2" by (simp add: owner_def fun_eq_iff)
  also have "\<dots> = owner cfg s"
    using sockets_owner(1) [of s2 ?s1 cfg] f2 O(7) by (simp add: table_inv_def)
  finally have own: "owner cfg ?s' = (owner cfg s)(x := None)"
    using free_client_connection_law [OF t3, of x] by simp
  have "shim_close_socket L cfg c x s = Some ?s'"
    using O(5) q s2(1) by (simp add: shim_close_socket_def)
  moreover have "queued (queues ?s') = (queued (queues s))(c := survivors x (queued (queues s) c))"
    using f2 purge_spec [of cfg "queues s" c x n q] q assms(1) by (simp add: sys_inv_def)
  moreover have "find_client_connection cfg d x ?s' = err_int32 XTCP_EINVAL (-1)" if "d \<noteq> DEINIT" for d
    using st.release_then_find(1) [OF t3 that] .
  moreover have "held (world (lw ?s')) = held (world (lw s)) - fst ` set (R x)"
    using s2(3) close_pcb_held [OF assms(2)] by simp
  ultimately show ?thesis using own sys_free_client [OF i3] by blast
qed

text \<open>
  C8. Closing a socket by its owner: the id is released, exactly the owner's events for that id
  are withdrawn, the received data of the socket is given back to lwIP, and nothing changes for any other
  socket or client. Afterwards no client can look the id up.
\<close>

theorem close_releases_everything:
  assumes "sys_inv cfg held s R" "close_contract L held" "owner cfg s x = Some (c, pr)"
  shows "\<exists>s'. shim_close_socket L cfg c x s = Some s' \<and> sys_inv cfg held s' (R(x := [])) \<and>
    held (world (lw s')) = held (world (lw s)) - fst ` set (R x) \<and>
    owner cfg s' = (owner cfg s)(x := None) \<and>
    queued (queues s') = (queued (queues s))(c := filter (\<lambda>e. ev_id e \<noteq> x) (queued (queues s) c)) \<and>
    (\<forall>d. d \<noteq> DEINIT \<longrightarrow> find_client_connection cfg d x s' = err_int32 XTCP_EINVAL (-1))"
  by (rule close_law [OF assms])

lemma ex_close_contract: "close_contract ex_lwip (\<lambda>w. w)"
  using ex_lwip_rx_contract by (simp add: close_contract_def keeps_def ex_lwip_def)

theorem close_releases_everything_witness:
  "\<exists>s'. shim_close_socket ex_lwip ex_cfg 0 0 (ex_state ex_wrapped) = Some s' \<and>
     owner ex_cfg s' = [1 \<mapsto> (1, XTCP_PROTOCOL_UDP)] \<and> sys_inv ex_cfg (\<lambda>w. w) s' (ex_rx(0 := []))"
proof -
  have o: "owner ex_cfg (ex_state ex_wrapped) 0 = Some (0, XTCP_PROTOCOL_TCP)" by (simp add: ex_owner)
  have "notify ex_wrapped = notify ex_boot" by (rule ex_wrapped_notify)
  from close_releases_everything [OF ex_sys_inv [OF ex_wrapped_inv this] ex_close_contract o]
  obtain s' where s': "shim_close_socket ex_lwip ex_cfg 0 0 (ex_state ex_wrapped) = Some s'"
    "sys_inv ex_cfg (\<lambda>w. w) s' (ex_rx(0 := []))" "owner ex_cfg s' = (owner ex_cfg (ex_state ex_wrapped))(0 := None)"
    by blast
  moreover have "owner ex_cfg s' = [1 \<mapsto> (1, XTCP_PROTOCOL_UDP)]"
    unfolding s'(3) by (simp add: ex_owner fun_eq_iff)
  ultimately show ?thesis by blast
qed

section \<open>Opening\<close>

text \<open>
  C40. Opening a UDP socket when lwIP has no control block left fails with
  \<open>XTCP_ENOMEM\<close> but does not give the slot back: the table has one open socket more
  than before, whose id the client was not told.
\<close>

theorem failed_open_keeps_slot:
  assumes "table_inv cfg s" "c \<noteq> DEINIT" "card (dom (owner cfg s)) < MAX_OPEN_SOCKETS cfg"
    and "\<forall>st. fst (udp_new_ip_type L st) = None"
  shows "\<exists>s'. shim_new_socket F L cfg c XTCP_PROTOCOL_UDP s = Some (err_int32 XTCP_ENOMEM (-1), s') \<and>
    card (dom (owner cfg s')) = Suc (card (dom (owner cfg s)))"
proof -
  obtain r s1 where a: "assign_client_connection cfg c XTCP_PROTOCOL_UDP s = (r, s1)" by force
  have r: "status r = XTCP_SUCCESS"
    using st.assign_success_iff [OF assms(1,2) a] assms(3) by (simp add: socket_ids_def)
  have card: "card (dom (owner cfg s1)) = Suc (card (dom (owner cfg s)))"
    by (rule st.assign_card [OF assms(1,2) a r])
  obtain st where st: "udp_new_ip_type L (lw s1) = (None, st)"
    using assms(4) by (metis prod.collapse)
  have "owner cfg (s1\<lparr>lw := st\<rparr>) = owner cfg s1" by (simp add: owner_def fun_eq_iff)
  with a r st card show ?thesis by (simp add: shim_new_socket_def new_udp_pcb_def)
qed

theorem failed_open_keeps_slot_witness:
  "\<exists>s'. shim_new_socket ex_flags ex_lwip ex_cfg 1 XTCP_PROTOCOL_UDP (ex_state ex_idle)
     = Some (err_int32 XTCP_ENOMEM (-1), s') \<and> card (dom (owner ex_cfg s')) = 3"
proof -
  have "card (dom (owner ex_cfg (ex_state ex_idle))) = 2" by (simp add: ex_owner)
  with failed_open_keeps_slot [OF ex_table_inv [of ex_idle], of 1 ex_lwip ex_flags] show ?thesis
    by (auto simp: ex_lwip_def)
qed

section \<open>Access control\<close>

text \<open>The calls on a socket, with the caller and the id, and the reply that refuses each.\<close>

fun socket_call :: "server_input \<Rightarrow> (u32 \<times> int) option" where
  "socket_call (Close i x) = Some (i, x)"
| "socket_call (Abort i x) = Some (i, x)"
| "socket_call (Listen i x p a) = Some (i, x)"
| "socket_call (Connect i x p a) = Some (i, x)"
| "socket_call (Send i x b n t) = Some (i, x)"
| "socket_call (Sendto i x b n a p t) = Some (i, x)"
| "socket_call (Recv i x b n t) = Some (i, x)"
| "socket_call (Recvfrom i x b n t) = Some (i, x)"
| "socket_call (Set_connection_client_data i x d) = Some (i, x)"
| "socket_call (Get_connection_client_data i x) = Some (i, x)"
| "socket_call (Getsockopt i x l opt v n) = Some (i, x)"
| "socket_call (Setsockopt i x l opt v n) = Some (i, x)"
| "socket_call _ = None"

fun refusal :: "server_input \<Rightarrow> reply" where
  "refusal (Listen i x p a) = Code_reply XTCP_EINVAL"
| "refusal (Connect i x p a) = Code_reply XTCP_EINVAL"
| "refusal (Send i x b n t) = Timed_reply (-1) None"
| "refusal (Sendto i x b n a p t) = Timed_reply (-1) None"
| "refusal (Recv i x b n t) = Data_reply (-1) b None"
| "refusal (Recvfrom i x b n t) = From_reply (-1) b None None"
| "refusal (Set_connection_client_data i x d) = Int_reply (-1)"
| "refusal (Get_connection_client_data i x) = Ptr_reply None"
| "refusal (Getsockopt i x l opt v n) = Option_reply (err_int32 XTCP_EINVAL 0) v"
| "refusal (Setsockopt i x l opt v n) = Code_reply XTCP_EINVAL"
| "refusal _ = Unit"

lemma foreign_call:
  assumes "table_inv cfg (sys v)" "c \<noteq> DEINIT" "socket_call inp = Some (c, x)"
    and "\<nexists>p. owner cfg (sys v) x = Some (c, p)"
  shows "server_step F E L cfg inp v = Some (refusal inp, v)"
proof -
  have no: "find_client_connection cfg c x (sys v) = err_int32 XTCP_EINVAL (-1)"
    using find_client_connection_law [OF assms(1,2)] assms(4) by simp
  show ?thesis
    using assms(3) no
    by (cases inp)
      (simp_all add: reply_sys_def shim_close_socket_def shim_listen_def connect_case_def send_common_def
        sendto_common_def recv_common_def recvfrom_common_def set_client_data_case_def
        get_client_data_case_def getsockopt_case_def shim_getsockopt_def shim_setsockopt_def)
qed

text \<open>
  C9. A client cannot use a socket it does not own: every call that takes a socket id, apart from
  the two queries for a socket's addresses, made by a client that is not the owner of that id
  (another client's socket, a closed one, or no socket at all), is refused (with
  \<open>XTCP_EINVAL\<close> where the call returns a code, a null pointer for the data pointer, and
  silently for \<open>close\<close> and \<open>abort\<close>), and leaves the whole state of the server as
  it was.
\<close>

theorem foreign_socket_refused:
  assumes "table_inv cfg (sys v)" "c \<noteq> DEINIT" "socket_call inp = Some (c, x)"
    and "\<nexists>p. owner cfg (sys v) x = Some (c, p)"
  shows "server_step F E L cfg inp v = Some (refusal inp, v)"
  using foreign_call [OF assms] .

text \<open>An environment for the witnesses: an Ethernet interface with index 4, no MII.\<close>

definition ex_env :: "addr set environment" where
  "ex_env = \<lparr>i_eth_cfg = True, i_eth_rx = Some 4, i_eth_tx = True, i_mii = False, configure_mac = xtcp_configure_mac,
     stack_appdata = 0, ETHTYPE_ARP = 0x0806, ETHTYPE_IP = 0x0800, NUM_TIMEOUTS = 1,
     XS1_TIMER_KHZ = 100000, xcore_lwip_init_timers = (\<lambda>per t. (per, map (\<lambda>_. t) per)),
     xcore_netif_output_init = (\<lambda>tx mii st. st), xarch_init = (\<lambda>st. st),
     xcore_ethernetif_init = (\<lambda>mac ip st. st), LL_IP4_MULTICAST_ADDR = (1, 0, 0x5e),
     ethernetif_input = (\<lambda>b n ts st. Done () st), xcore_net_link_up = (\<lambda>st. Done () st),
     xcore_net_link_down = (\<lambda>st. Done () st), xcore_timeout = (\<lambda>i st. Done () st),
     ethernetif_has_ip_address = (\<lambda>st. 0), get_if_state = (\<lambda>st. 1),
     xcore_netif_get_ipconfig = (\<lambda>st. \<lparr>cfg_ipaddr = (10, 0, 0, 1), cfg_netmask = (255, 0, 0, 0),
       cfg_gateway = (10, 0, 0, 254)\<rparr>)\<rparr>"

definition ex_server :: "addr set server_state" where
  "ex_server = \<lparr>sys = ex_state ex_idle, netif_notify_state = 0, period = [100000], timeout = [0],
     eth_calls = []\<rparr>"

theorem foreign_socket_refused_witness:
  "server_step ex_flags ex_env ex_lwip ex_cfg (Recv 1 0 [0, 0] 2 False) ex_server =
     Some (Data_reply (-1) [0, 0] None, ex_server)"
  using foreign_socket_refused [of ex_cfg ex_server 1 "Recv 1 0 [0, 0] 2 False" 0 ex_flags ex_env ex_lwip]
  by (simp add: ex_server_def ex_table_inv ex_owner)

section \<open>Socket options\<close>

lemma ip_pcb_truncate_extend [simp]: "ip_pcb.truncate (ip_pcb.extend w e) = w"
  by (cases w) (simp add: ip_pcb.defs)

lemma put_get_ip_pcb:
  assumes "ip_pcb_at pr p st = Some v"
  shows "\<exists>st'. put_ip_pcb pr p w st = Some st' \<and> ip_pcb_at pr p st' = Some w"
  using assms by (cases pr) (auto simp: ip_pcb_at_def put_ip_pcb_def bind_eq_Some_conv)

text \<open>
  C25. Setting the type of service or the time to live of an open socket and reading it back gives
  the value that was set, on UDP and TCP sockets alike.
\<close>

theorem sockopt_roundtrip:
  assumes "find_client_connection cfg c x s = err_int32 XTCP_SUCCESS x"
    and "get_protocol cfg x s \<noteq> XTCP_PROTOCOL_NONE"
    and "ip_pcb_at (get_protocol cfg x s) (ip_pcb_pointer cfg x s) (lw s) = Some pcb"
    and "opt = 1 \<or> opt = 2" "1 \<le> n" "1 \<le> m" "value \<noteq> []"
  shows "\<exists>s'. shim_setsockopt F L cfg c x XTCP_SOCKET_LEVEL_IP opt (v # rest) n s = Some (XTCP_SUCCESS, s') \<and>
    shim_getsockopt F L cfg c x XTCP_SOCKET_LEVEL_IP opt value m s' =
      Some (XTCP_SUCCESS, v # tl value, 1)"
proof -
  have nm: "\<not> n < 1" "\<not> m < 1" using leD [OF assms(5)] leD [OF assms(6)] by blast+
  obtain w ws where val: "value = w # ws" using assms(7) by (cases "value") auto
  have fr: "find_client_connection cfg c x (s\<lparr>lw := st\<rparr>) = find_client_connection cfg c x s"
    "get_protocol cfg x (s\<lparr>lw := st\<rparr>) = get_protocol cfg x s"
    "ip_pcb_pointer cfg x (s\<lparr>lw := st\<rparr>) = ip_pcb_pointer cfg x s" for st
    by (simp_all add: find_client_connection_def get_protocol_def ip_pcb_pointer_def get_udp_pcb_def
        get_tcp_pcb_def split: xtcp_protocol_t.splits)
  from assms(4) show ?thesis
  proof
    assume [simp]: "opt = 1"
    obtain st where "put_ip_pcb (get_protocol cfg x s) (ip_pcb_pointer cfg x s) (pcb\<lparr>tos := v\<rparr>) (lw s) = Some st"
      "ip_pcb_at (get_protocol cfg x s) (ip_pcb_pointer cfg x s) st = Some (pcb\<lparr>tos := v\<rparr>)"
      using put_get_ip_pcb [OF assms(3), of "pcb\<lparr>tos := v\<rparr>"] by blast
    with assms(1-3) nm val fr show ?thesis
      by (simp add: shim_setsockopt_def shim_getsockopt_def shim_ip_setsockopt_def shim_ip_getsockopt_def
          ip_option_of_def first_byte_def)
  next
    assume [simp]: "opt = 2"
    obtain st where "put_ip_pcb (get_protocol cfg x s) (ip_pcb_pointer cfg x s) (pcb\<lparr>ttl := v\<rparr>) (lw s) = Some st"
      "ip_pcb_at (get_protocol cfg x s) (ip_pcb_pointer cfg x s) st = Some (pcb\<lparr>ttl := v\<rparr>)"
      using put_get_ip_pcb [OF assms(3), of "pcb\<lparr>ttl := v\<rparr>"] by blast
    with assms(1-3) nm val fr show ?thesis
      by (simp add: shim_setsockopt_def shim_getsockopt_def shim_ip_setsockopt_def shim_ip_getsockopt_def
          ip_option_of_def first_byte_def)
  qed
qed

theorem sockopt_roundtrip_witness:
  "\<exists>s'. shim_setsockopt ex_flags ex_lwip ex_cfg 0 0 XTCP_SOCKET_LEVEL_IP 2 [9] 1 (ex_state ex_idle)
       = Some (XTCP_SUCCESS, s') \<and>
     shim_getsockopt ex_flags ex_lwip ex_cfg 0 0 XTCP_SOCKET_LEVEL_IP 2 [0] 1 s'
       = Some (XTCP_SUCCESS, [9], 1)"
proof -
  have f: "find_client_connection ex_cfg 0 0 (ex_state ex_idle) = err_int32 XTCP_SUCCESS 0"
    by (simp add: find_client_connection_eq ex_in_range ex_conns_def)
  have p: "get_protocol ex_cfg 0 (ex_state ex_idle) = XTCP_PROTOCOL_TCP"
    by (simp add: get_protocol_def ex_in_range ex_conns_def)
  have i: "ip_pcb_at XTCP_PROTOCOL_TCP (ip_pcb_pointer ex_cfg 0 (ex_state ex_idle)) (lw (ex_state ex_idle)) =
      Some \<lparr>local_ip = (10, 0, 0, 1), remote_ip = (10, 0, 0, 9), tos = 0, ttl = 64\<rparr>"
    by (simp add: ip_pcb_at_def ip_pcb_pointer_def p get_tcp_pcb_def ex_in_range ex_conns_def ex_lw_def
        ip_pcb.defs)
  from sockopt_roundtrip [OF f, of _ 2 1 1 "[0]" ex_flags ex_lwip 9 "[]", unfolded p, OF _ i]
  show ?thesis by simp
qed

end
