(* ===== verification/Transfer_Properties.thy ===== *)
theory Transfer_Properties
  imports Server_Properties
begin

unbundle bit_operations_syntax

text \<open>
  Sending, walking the receive chains, announcing a change of the link to every client, and
  multicast addresses.
\<close>

section \<open>The walks along a chain\<close>

lemma find_pbuf_absent:
  "chain h (Some a) as \<Longrightarrow> t \<notin> set as \<Longrightarrow> find_pbuf h t a prev = Some None"
proof (induction as arbitrary: a prev)
  case (Cons x as)
  then obtain b where b: "x = a" "h a = Some b" "chain h (pb_next b) as" by auto
  show ?case
  proof (cases "pb_next b")
    case None
    with b Cons.prems show ?thesis by (simp add: find_pbuf.simps)
  next
    case (Some a')
    with b Cons.IH [of a' "Some a"] Cons.prems show ?thesis
      by (simp add: find_pbuf.simps [of h t a])
  qed
qed simp

text \<open>
  C28. The two loops of \<open>connection.c\<close> over a chain of buffers end on every well-formed
  chain and stay inside it: the walk of \<open>set_remote\<close> stops at the last buffer, and the
  search of \<open>unlink_remote\<close> finds a buffer exactly when it is on the chain, together with
  the buffer before it.
\<close>

theorem chain_walks_end:
  assumes "chain h (Some a) as"
  shows "last_pbuf h a = Some (last as) \<and>
    (\<forall>t. find_pbuf h t a None =
       (if t \<in> set as then Some (Some (case takeWhile (\<lambda>x. x \<noteq> t) as of [] \<Rightarrow> None | xs \<Rightarrow> Some (last xs)))
        else Some None))"
proof (intro conjI allI)
  show "last_pbuf h a = Some (last as)" by (rule last_pbuf_chain [OF assms])
  fix t
  show "find_pbuf h t a None =
       (if t \<in> set as then Some (Some (case takeWhile (\<lambda>x. x \<noteq> t) as of [] \<Rightarrow> None | xs \<Rightarrow> Some (last xs)))
        else Some None)"
  proof (cases "t \<in> set as")
    case True
    then obtain xs ys where as: "as = xs @ t # ys" "t \<notin> set xs" by (meson split_list_first)
    then have "takeWhile (\<lambda>x. x \<noteq> t) as = xs" by (subst as(1), subst takeWhile_append2) auto
    with find_pbuf_chain [OF assms [unfolded as(1)], of None] True as show ?thesis
      by (auto split: list.splits)
  next
    case False
    with find_pbuf_absent [OF assms] show ?thesis by simp
  qed
qed

theorem chain_walks_end_witness:
  "last_pbuf (pbufs ex_lw) 1 = Some 2 \<and> find_pbuf (pbufs ex_lw) 2 1 None = Some (Some (Some 1)) \<and>
   find_pbuf (pbufs ex_lw) 3 1 None = Some None"
proof -
  have "chain (pbufs ex_lw) (Some 1) [1, 2]" by (simp add: ex_lw_def ex_pbuf_def)
  from chain_walks_end [OF this] show ?thesis by simp
qed

section \<open>Lookup\<close>

text \<open>
  The search loop of \<open>find_client_connection\<close> is equivalent to reading one entry: it
  succeeds exactly when the id is a slot of the table and that slot's client is the caller.
\<close>

theorem find_loop_is_indexing:
  "find_client_connection cfg c i s =
     (if 0 \<le> i \<and> i < int (MAX_OPEN_SOCKETS cfg) \<and> c_client_num (connections s ! nat i) = c
      then err_int32 XTCP_SUCCESS i else err_int32 XTCP_EINVAL (-1))"
  by (simp add: find_client_connection_eq in_range_def)

section \<open>Plain TCP events\<close>

fun plain_event :: "lwip_event \<Rightarrow> ptr \<Rightarrow> xtcp_event_type_t option" where
  "plain_event LWIP_EVENT_CONNECTED p = Some XTCP_NEW_CONNECTION"
| "plain_event LWIP_EVENT_SENT p = Some XTCP_SENT_DATA"
| "plain_event LWIP_EVENT_RECV None = Some XTCP_CLOSED"
| "plain_event _ p = None"

text \<open>
  C20. A connection that is established, acknowledged data and a close by the peer are each
  reported to the owner of the socket as one event with the socket's id; when the owner's queue is
  full the event is dropped and nothing changes. lwIP is told \<open>ERR_OK\<close> in every case.
\<close>

theorem tcp_plain_event_reported:
  assumes "sys_inv cfg held s R" "in_range cfg i" "plain_event e p = Some ev"
    and "c = get_client_info cfg i s"
  shows "\<exists>q. lwip_tcp_event L cfg i pcb e p sz err s = Some (ERR_OK, s\<lparr>queues := q\<rparr>) \<and>
    sys_inv cfg held (s\<lparr>queues := q\<rparr>) R \<and>
    (if has_room cfg c s then queued q = (queued (queues s))(c := queued (queues s) c @ [event ev i])
     else q = queues s)"
proof -
  have step: "lwip_tcp_event L cfg i pcb e p sz err s =
      Option.bind (enqueue cfg c i ev s) (\<lambda>(_, s). Some (ERR_OK, s))"
    using assms(2-4) by (cases e; cases p) (auto simp: lwip_tcp_event_defs)
  from assms(1,4) show ?thesis
  proof (cases rule: enqueue_cases [where x = i and e = ev])
    case (accepted q)
    with step show ?thesis by auto
  next
    case (refused r)
    with step assms(1) show ?thesis by (auto intro!: exI [of _ "queues s"])
  qed
qed

theorem tcp_plain_event_reported_witness:
  "\<exists>q. lwip_tcp_event ex_lwip ex_cfg 0 (Some 100) LWIP_EVENT_RECV None 0 ERR_OK (ex_state ex_idle) =
     Some (ERR_OK, (ex_state ex_idle)\<lparr>queues := q\<rparr>) \<and> queued q 0 = [event XTCP_CLOSED 0]"
proof -
  have c: "0 = get_client_info ex_cfg 0 (ex_state ex_idle)"
    by (simp add: get_client_info_def ex_in_range ex_conns_def)
  have room: "has_room ex_cfg 0 (ex_state ex_idle)" by (simp add: has_room_def valid_client_def ex_idle_inv)
  from tcp_plain_event_reported [OF ex_sys_inv [OF ex_idle_inv(1,2)] _ _ c, of LWIP_EVENT_RECV None
      XTCP_CLOSED ex_lwip "Some 100" 0 ERR_OK] room
  show ?thesis by (auto simp: ex_in_range ex_idle_inv)
qed

section \<open>Telling every client\<close>

lemma notify_from_spec:
  "queue_inv cfg (queues s) \<Longrightarrow> unat i + k < 2 ^ 32 \<Longrightarrow>
   (\<forall>c. unat i \<le> unat c \<and> unat c < unat i + k \<longrightarrow> notifiable (notify (queues s)) c) \<Longrightarrow>
   \<exists>q. notify_from cfg e i k s = Some (s\<lparr>queues := q\<rparr>) \<and> queue_inv cfg q \<and>
     queued q = (\<lambda>c. if unat i \<le> unat c \<and> unat c < unat i + k \<and> has_room cfg c s
                     then queued (queues s) c @ [event e 0] else queued (queues s) c)"
proof (induction k arbitrary: i s)
  case 0
  then show ?case by (auto intro!: exI [of _ "queues s"] simp: fun_eq_iff)
next
  case (Suc k)
  have "notifiable (notify (queues s)) i" using Suc.prems(3) by auto
  then obtain r q1 where e: "enqueue_event_and_notify cfg i 0 e (queues s) = Some (r, q1)"
    using enqueue_total by blast
  note E = enqueue_spec [OF Suc.prems(1) e]
  have i1: "unat (i + 1) = Suc (unat i)"
    using Suc.prems(2) by (simp add: unat_word_ariths)
  let ?s1 = "s\<lparr>queues := q1\<rparr>"
  have n: "notifiable (notify q1) = notifiable (notify (queues s))"
    by (rule notifiable_enqueue [OF Suc.prems(1) e])
  have q1: "queued q1 = (\<lambda>c. if c = i \<and> has_room cfg c s then queued (queues s) c @ [event e 0]
                         else queued (queues s) c)"
    using E by (auto simp: fun_eq_iff has_room_def)
  have "\<exists>q. notify_from cfg e (i + 1) k ?s1 = Some (?s1\<lparr>queues := q\<rparr>) \<and> queue_inv cfg q \<and>
      queued q = (\<lambda>c. if unat (i + 1) \<le> unat c \<and> unat c < unat (i + 1) + k \<and> has_room cfg c ?s1
        then queued (queues ?s1) c @ [event e 0] else queued (queues ?s1) c)"
    by (rule Suc.IH) (use E n i1 Suc.prems in auto)
  then obtain q where q: "notify_from cfg e (i + 1) k ?s1 = Some (?s1\<lparr>queues := q\<rparr>)" "queue_inv cfg q"
    "queued q = (\<lambda>c. if unat (i + 1) \<le> unat c \<and> unat c < unat (i + 1) + k \<and> has_room cfg c ?s1
        then queued (queues ?s1) c @ [event e 0] else queued (queues ?s1) c)" by blast
  have "queued q = (\<lambda>c. if unat i \<le> unat c \<and> unat c < unat i + Suc k \<and> has_room cfg c s
      then queued (queues s) c @ [event e 0] else queued (queues s) c)"
  proof
    fix c
    consider "c = i" | "c \<noteq> i" "unat c \<noteq> unat i" by (metis word_unat_eq_iff)
    then show "queued q c = (if unat i \<le> unat c \<and> unat c < unat i + Suc k \<and> has_room cfg c s
      then queued (queues s) c @ [event e 0] else queued (queues s) c)"
      by cases (auto simp: q(3) q1 i1 has_room_def)
  qed
  with q(1,2) e show ?case by (auto simp: enqueue_def)
qed

text \<open>
  C22. A change of the link is announced to every client: the loop that queues
  \<open>XTCP_IFUP\<close> or \<open>XTCP_IFDOWN\<close> runs to its end, adds the event (with id 0) to
  the queue of each connected client that has room, and changes no other queue.
\<close>

theorem notify_all_reaches_everyone:
  assumes "queue_inv cfg (queues s)" "notify_inv (notify (queues s))"
  shows "\<exists>q. notify_all cfg e s = Some (s\<lparr>queues := q\<rparr>) \<and> queue_inv cfg q \<and>
    queued q = (\<lambda>c. if c < n_xtcp (notify (queues s)) \<and> has_room cfg c s
                    then queued (queues s) c @ [event e 0] else queued (queues s) c)"
proof -
  let ?n = "n_xtcp (notify (queues s))"
  have "unat ?n < 2 ^ 32" using unsigned_less [of ?n] by simp
  moreover have "notifiable (notify (queues s)) c" if "unat c < unat ?n" for c
    using that assms(2) by (auto simp: notifiable_def notify_inv_def)
  ultimately show ?thesis
    using notify_from_spec [OF assms(1), of 0 "unat ?n" e]
    by (simp add: notify_all_def word_less_nat_alt)
qed

theorem notify_all_reaches_everyone_witness:
  "\<exists>q. notify_all ex_cfg XTCP_IFDOWN (ex_state ex_full) = Some ((ex_state ex_full)\<lparr>queues := q\<rparr>) \<and>
     queued q 0 = queued ex_full 0 @ [event XTCP_IFDOWN 0] \<and> queued q 1 = queued ex_full 1"
proof -
  let ?s = "ex_state ex_full"
  have "queue_inv ex_cfg (queues ?s)" "notify_inv (notify (queues ?s))"
    by (simp_all add: notify_inv_def ex_full_inv(1,2)) (simp add: ex_boot_def)
  from notify_all_reaches_everyone [OF this, of XTCP_IFDOWN]
  obtain q where q: "notify_all ex_cfg XTCP_IFDOWN ?s = Some (?s\<lparr>queues := q\<rparr>)"
    "queued q = (\<lambda>c. if c < n_xtcp (notify (queues ?s)) \<and> has_room ex_cfg c ?s
       then queued (queues ?s) c @ [event XTCP_IFDOWN 0] else queued (queues ?s) c)"
    by blast
  have "queued ex_full 0 = []" by (simp add: queued_def ex_full_def ring_list_def)
  then have "has_room ex_cfg 0 (ex_state ex_full)" "\<not> has_room ex_cfg 1 (ex_state ex_full)"
    by (simp_all add: has_room_def valid_client_def ex_full_inv)
  then have "queued q 0 = queued ex_full 0 @ [event XTCP_IFDOWN 0]" "queued q 1 = queued ex_full 1"
    using q(2) by (simp_all add: ex_full_inv)
  with q(1) show ?thesis by blast
qed

section \<open>Multicast addresses\<close>

lemma digits_inject:
  fixes x y z u v w :: nat
  assumes "y < 256 \<and> z < 256" "v < 256 \<and> w < 256"
  shows "x * 65536 + y * 256 + z = u * 65536 + v * 256 + w \<longleftrightarrow> x = u \<and> y = v \<and> z = w"
proof -
  have d: "(256 * n + r) div 256 = n \<and> (256 * n + r) mod 256 = r" if "r < 256" for n r :: nat
    using that by simp
  have e: "x * 65536 + y * 256 + z = 256 * (256 * x + y) + z" for x y z :: nat by simp
  show ?thesis unfolding e by (metis d assms)
qed

fun low23 :: "xtcp_ipaddr_t \<Rightarrow> nat" where
  "low23 (a0, a1, a2, a3) = (unat a0 * 2 ^ 24 + unat a1 * 2 ^ 16 + unat a2 * 2 ^ 8 + unat a3) mod 2 ^ 23"

lemma low23_eq: "low23 (a0, a1, a2, a3) = unat (a1 AND 0x7F) * 2 ^ 16 + unat a2 * 2 ^ 8 + unat a3"
proof -
  have m: "unat (a1 AND 0x7F) = unat a1 mod 128"
  proof -
    have "a1 AND 0x7F = take_bit 7 a1" by (simp only: take_bit_eq_mask mask_eq_exp_minus_1) simp
    then have "unat (a1 AND 0x7F) = take_bit 7 (unat a1)" by (simp only: unsigned_take_bit_eq)
    then show ?thesis by (simp add: take_bit_eq_mod)
  qed
  have "unat a2 < 256" "unat a3 < 256" "unat a1 < 256"
    using unsigned_less [of a2] unsigned_less [of a3] unsigned_less [of a1] by simp_all
  then have b: "unat a1 mod 128 * 65536 + unat a2 * 256 + unat a3 < 8388608"
    using mod_less_divisor [of 128 "unat a1"] by linarith
  have e: "unat a0 * 16777216 + unat a1 * 65536 + unat a2 * 256 + unat a3 =
      (unat a1 mod 128 * 65536 + unat a2 * 256 + unat a3) + 8388608 * (2 * unat a0 + unat a1 div 128)"
  proof -
    define q r where "q = unat a1 div 128" and "r = unat a1 mod 128"
    have "unat a1 = q * 128 + r" using div_mult_mod_eq [of "unat a1" 128] by (simp only: q_def r_def)
    then show ?thesis unfolding q_def [symmetric] r_def [symmetric] by simp
  qed
  have "low23 (a0, a1, a2, a3) =
      (unat a0 * 16777216 + unat a1 * 65536 + unat a2 * 256 + unat a3) mod 8388608" by simp
  also have "\<dots> = (unat a1 mod 128 * 65536 + unat a2 * 256 + unat a3) mod 8388608"
    unfolding e by (rule mod_mult_self2)
  finally have "low23 (a0, a1, a2, a3) =
      (unat a1 mod 128 * 65536 + unat a2 * 256 + unat a3) mod 8388608" .
  with b m show ?thesis by simp
qed

text \<open>
  C26. The mapping of RFC 1112: the Ethernet filter of an IPv4 group starts with the multicast prefix, and
  its last three octets, read in network byte order, are the low 23 bits of the group's address. So two
  groups get the same filter exactly when their addresses agree in the low 23 bits.
\<close>

theorem multicast_mac_low23:
  "(ipv4_multicast_to_mac prefix a = ipv4_multicast_to_mac prefix b \<longleftrightarrow> low23 a = low23 b) \<and>
   take 3 (mac_addr (ipv4_multicast_to_mac prefix a)) = [fst prefix, fst (snd prefix), snd (snd prefix)] \<and>
   foldl (\<lambda>n x. n * 256 + unat x) 0 (drop 3 (mac_addr (ipv4_multicast_to_mac prefix a))) = low23 a"
proof -
  obtain a0 a1 a2 a3 b0 b1 b2 b3 m0 m1 m2 where
    ab: "a = (a0, a1, a2, a3)" "b = (b0, b1, b2, b3)" "prefix = (m0, m1, m2)"
    by (cases a; cases b; cases prefix) auto
  have l: "unat x2 < 256 \<and> unat x3 < 256" for x2 x3 :: u8
    using unsigned_less [of x2] unsigned_less [of x3] by simp
  have "low23 a = low23 b \<longleftrightarrow>
      unat (a1 AND 0x7F) = unat (b1 AND 0x7F) \<and> unat a2 = unat b2 \<and> unat a3 = unat b3"
    using l [of a2 a3] l [of b2 b3] unfolding ab low23_eq by (simp add: digits_inject)
  moreover have "foldl (\<lambda>n x. n * 256 + unat x) 0 (drop 3 (mac_addr (ipv4_multicast_to_mac prefix a))) = low23 a"
    unfolding ab low23_eq by (simp add: ipv4_multicast_to_mac_def)
  ultimately show ?thesis
    by (auto simp: ab ipv4_multicast_to_mac_def word_unat_eq_iff numeral_3_eq_3)
qed

section \<open>Sending\<close>

text \<open>The transmit buffer that \<open>send_common\<close> hands to \<open>shim_send\<close>.\<close>

definition tx_buffer :: "lwip_flags \<Rightarrow> u8 list \<Rightarrow> u32 \<Rightarrow> bool \<Rightarrow> pbuf \<Rightarrow> pbuf" where
  "tx_buffer F buffer len timed b =
     (if timed then b\<lparr>pb_flags := pb_flags b OR PBUF_FLAG_TX_TIMESTAMP F\<rparr> else b)
       \<lparr>pb_payload := take (unat len) buffer @ drop (unat len) (pb_payload b)\<rparr>"

lemma store_pbuf_twice [simp]: "store_pbuf a b (store_pbuf a b' s) = store_pbuf a b s"
  by (simp add: store_pbuf_def)

lemma find_store_pbuf [simp]:
  "find_client_connection cfg c x (store_pbuf a b s) = find_client_connection cfg c x s"
  "find_client_connection cfg c x (s\<lparr>lw := st\<rparr>) = find_client_connection cfg c x s"
  by (simp_all add: find_client_connection_def store_pbuf_def)

text \<open>What both macros do before they send: the buffer that was allocated gets the client's bytes.\<close>

lemma fill_tx:
  assumes "pbuf_alloc L (u16_of_u32 len) (lw s) = (Some a, st)" "pbufs st a = Some b"
  shows "do { (t, s) \<leftarrow> pbuf_shim_alloc_tx F L (u16_of_u32 len) timed s;
      (case t of
         None \<Rightarrow> e s
       | Some _ \<Rightarrow> do { payload \<leftarrow> pbuf_shim_token_payload t s;
                         s \<leftarrow> memcpy_to_payload payload buffer len s; k t s }) } =
    (if unat len \<le> length buffer \<and> unat len \<le> length (pb_payload b)
     then k (Some a) (store_pbuf a (tx_buffer F buffer len timed b) (s\<lparr>lw := st\<rparr>)) else None)"
  using assms
  by (cases timed) (simp_all add: pbuf_shim_alloc_tx_def pbuf_shim_token_payload_def memcpy_to_payload_def
      tx_buffer_def cong: if_cong)

lemma send_common_unfold:
  assumes "find_client_connection cfg c x s = err_int32 XTCP_SUCCESS x"
    and "pbuf_alloc L (u16_of_u32 len) (lw s) = (Some a, st)" "pbufs st a = Some b"
  shows "send_common F L cfg c x buffer len timed s =
    (if unat len \<le> length buffer \<and> unat len \<le> length (pb_payload b)
     then do {
       (r, s') \<leftarrow> shim_send L cfg c x (Some a)
         (store_pbuf a (tx_buffer F buffer len timed b) (s\<lparr>lw := st\<rparr>));
       f \<leftarrow> pbufs (lw s') a;
       Some ((error_code r, if timed then Some (pb_timestamp f) else None), s') }
     else None)"
  using assms(1) unfolding send_common_def fill_tx [OF assms(2,3)]
  by (simp add: pbuf_shim_token_timestamp_def cong: if_cong)

lemma sendto_common_unfold:
  assumes "find_client_connection cfg c x s = err_int32 XTCP_SUCCESS x"
    and "pbuf_alloc L (u16_of_u32 len) (lw s) = (Some a, st)" "pbufs st a = Some b"
    and "get_protocol cfg x s \<noteq> XTCP_PROTOCOL_TCP"
  shows "sendto_common F L cfg c x buffer len ip port timed s =
    (if unat len \<le> length buffer \<and> unat len \<le> length (pb_payload b)
     then do {
       let (r, s') = shim_sendto L cfg c x (Some a) ip port
         (store_pbuf a (tx_buffer F buffer len timed b) (s\<lparr>lw := st\<rparr>));
       f \<leftarrow> pbufs (lw s') a;
       Some ((error_code r, if timed then Some (pb_timestamp f) else None), s') }
     else None)"
  using assms(1,4) unfolding sendto_common_def fill_tx [OF assms(2,3)]
  by (simp add: pbuf_shim_token_timestamp_def cong: if_cong)

text \<open>
  C24. A message that the allocator gave a buffer of its own size goes out unchanged: what
  \<open>shim_send\<close> is handed is a buffer whose payload is exactly the first \<open>length\<close>
  bytes of the client's, flagged for a timestamp exactly when the client asked for one; the
  result is the code of \<open>shim_send\<close> and the timestamp is read from that buffer afterwards.
\<close>

theorem send_hands_over_exact_bytes:
  assumes "find_client_connection cfg c x s = err_int32 XTCP_SUCCESS x"
    and "pbuf_alloc L (u16_of_u32 len) (lw s) = (Some a, st)" "pbufs st a = Some b"
    and "length (pb_payload b) = unat len" "unat len \<le> length buffer"
  shows "\<exists>tx. pb_payload tx = take (unat len) buffer \<and>
    pb_flags tx = (if timed then pb_flags b OR PBUF_FLAG_TX_TIMESTAMP F else pb_flags b) \<and>
    send_common F L cfg c x buffer len timed s = do {
      (r, s') \<leftarrow> shim_send L cfg c x (Some a) (store_pbuf a tx (s\<lparr>lw := st\<rparr>));
      f \<leftarrow> pbufs (lw s') a;
      Some ((error_code r, if timed then Some (pb_timestamp f) else None), s') }"
  using send_common_unfold [OF assms(1-3), of F buffer timed] assms(4,5)
  by (intro exI [of _ "tx_buffer F buffer len timed b"]) (simp add: tx_buffer_def)

lemma ex_send:
  "find_client_connection ex_cfg 0 0 (ex_state ex_idle) = err_int32 XTCP_SUCCESS 0"
  "\<exists>st b. pbuf_alloc ex_lwip n (lw (ex_state ex_idle)) = (Some 50, st) \<and> pbufs st 50 = Some b \<and>
     length (pb_payload b) = unat n \<and> pb_flags b = 0"
  "get_protocol ex_cfg 0 (ex_state ex_idle) = XTCP_PROTOCOL_TCP"
  "get_tcp_pcb ex_cfg 0 (ex_state ex_idle) = Some 100"
  by (simp_all add: find_client_connection_eq ex_in_range ex_conns_def ex_lwip_def get_protocol_def
      get_tcp_pcb_def)

lemma ex_tx_flag: "PBUF_FLAG_TX_TIMESTAMP ex_flags = 64"
  by (simp add: ex_flags_def)

theorem send_hands_over_exact_bytes_witness:
  "\<exists>tx st. pb_payload tx = [104, 105] \<and> pb_flags tx = 64 \<and>
     send_common ex_flags ex_lwip ex_cfg 0 0 [104, 105, 33] 2 True (ex_state ex_idle) = do {
       (r, s') \<leftarrow> shim_send ex_lwip ex_cfg 0 0 (Some 50) (store_pbuf 50 tx ((ex_state ex_idle)\<lparr>lw := st\<rparr>));
       f \<leftarrow> pbufs (lw s') 50;
       Some ((error_code r, Some (pb_timestamp f)), s') }"
proof -
  obtain st b where a: "pbuf_alloc ex_lwip (u16_of_u32 2) (lw (ex_state ex_idle)) = (Some 50, st)"
    "pbufs st 50 = Some b" "length (pb_payload b) = unat (2 :: u32)" "pb_flags b = 0"
    using ex_send(2) [of "u16_of_u32 2"] by (auto simp: unat_u16_of_u32)
  from send_hands_over_exact_bytes [OF ex_send(1) a(1-3), of "[104, 105, 33]" True ex_flags] a(4)
  show ?thesis by (auto simp: ex_tx_flag)
qed

text \<open>
  C33. A length of 65536 or more is cut to 16 bits for the allocation but not for the copy: with a
  buffer of the size asked for, the copy runs past its end, which is undefined behaviour.
\<close>

theorem long_send_overruns:
  assumes "find_client_connection cfg c x s = err_int32 XTCP_SUCCESS x"
    and "pbuf_alloc L (u16_of_u32 len) (lw s) = (Some a, st)" "pbufs st a = Some b"
    and "length (pb_payload b) = unat (u16_of_u32 len)" "2 ^ 16 \<le> unat len"
  shows "send_common F L cfg c x buffer len timed s = None"
proof -
  have "unat (u16_of_u32 len) < 2 ^ 16" unfolding unat_u16_of_u32 by simp
  with assms(4,5) have "\<not> unat len \<le> length (pb_payload b)" by linarith
  with send_common_unfold [OF assms(1-3)] show ?thesis by simp
qed

theorem long_send_overruns_witness:
  "send_common ex_flags ex_lwip ex_cfg 0 0 (replicate 65537 0) 65537 False (ex_state ex_idle) = None"
proof -
  obtain st b where a: "pbuf_alloc ex_lwip (u16_of_u32 65537) (lw (ex_state ex_idle)) = (Some 50, st)"
    "pbufs st 50 = Some b" "length (pb_payload b) = unat (u16_of_u32 65537)"
    using ex_send(2) [of "u16_of_u32 65537"] by auto
  from long_send_overruns [OF ex_send(1) a] show ?thesis by simp
qed

text \<open>
  C34. After a TCP send the timestamp is read from the buffer that \<open>shim_send\<close> has just
  freed, also when the client asked for none: if freeing releases the buffer, the read is of
  memory that no longer belongs to the library.
\<close>

theorem tcp_send_reads_freed_buffer:
  assumes "find_client_connection cfg c x s = err_int32 XTCP_SUCCESS x"
    and "pbuf_alloc L (u16_of_u32 len) (lw s) = (Some a, st)" "pbufs st a = Some b"
    and "get_protocol cfg x s = XTCP_PROTOCOL_TCP" "\<forall>st. pbufs (pbuf_free L a st) a = None"
  shows "send_common F L cfg c x buffer len timed s = None"
proof -
  have p: "get_protocol cfg x (store_pbuf a tx (s\<lparr>lw := st\<rparr>)) = XTCP_PROTOCOL_TCP" for tx
    using assms(4) by (simp add: get_protocol_def store_pbuf_def split: if_splits)
  have "pbufs (lw s') a = None"
    if "shim_send L cfg c x (Some a) (store_pbuf a tx (s\<lparr>lw := st\<rparr>)) = Some (r, s')" for tx r s'
    using that assms(1,5) p [of tx]
    by (auto simp: shim_send_def bind_eq_Some_conv split: option.splits prod.splits)
  then show ?thesis
    unfolding send_common_unfold [OF assms(1-3)]
    by (cases "shim_send L cfg c x (Some a) (store_pbuf a (tx_buffer F buffer len timed b) (s\<lparr>lw := st\<rparr>))")
      auto
qed

theorem tcp_send_reads_freed_buffer_witness:
  "send_common ex_flags (ex_lwip\<lparr>pbuf_free := \<lambda>a st. st\<lparr>pbufs := (pbufs st)(a := None)\<rparr>\<rparr>) ex_cfg 0 0
     [104, 105] 2 False (ex_state ex_idle) = None"
proof -
  let ?L = "ex_lwip\<lparr>pbuf_free := \<lambda>a st. st\<lparr>pbufs := (pbufs st)(a := None)\<rparr>\<rparr>"
  obtain st b where a: "pbuf_alloc ?L (u16_of_u32 2) (lw (ex_state ex_idle)) = (Some 50, st)"
    "pbufs st 50 = Some b" using ex_send(2) [of "u16_of_u32 2"] by auto
  from tcp_send_reads_freed_buffer [OF ex_send(1) a ex_send(3)] show ?thesis by simp
qed

end
