(* ===== verification/Session_Properties.thy ===== *)
theory Session_Properties
  imports Transfer_Properties
begin

text \<open>
  Properties of sequences of calls: opening a socket, a datagram from its arrival to the client's
  read, and the client's data pointer.
\<close>

section \<open>Opening a socket\<close>

text \<open>
  The state after a slot is taken, lwIP has made a control block (leaving lwIP in \<open>st\<close>) and
  the block is stored in the slot.
\<close>

lemma assign_with_pcb:
  assumes "table_inv cfg s" "c \<noteq> DEINIT" "card (dom (owner cfg s)) < MAX_OPEN_SOCKETS cfg"
    and "p \<noteq> XTCP_PROTOCOL_NONE" "assign_client_connection cfg c p s = (r, s1)"
  defines "s3 \<equiv> \<lambda>a st. upd_conn (val r) (\<lambda>e. e\<lparr>c_pcb := Some a\<rparr>) (s1\<lparr>lw := st\<rparr>)"
  shows "r = err_int32 XTCP_SUCCESS (val r)" "owner cfg s (val r) = None" "in_range cfg (val r)"
    "c_protocol (conn s1 (val r)) = p" "owner cfg (s3 a st) = (owner cfg s)(val r \<mapsto> (c, p))"
    "table_inv cfg (s3 a st)" "c_pcb (conn (s3 a st) (val r)) = Some a"
    "c_protocol (conn (s3 a st) (val r)) = p" "lw (s3 a st) = st" "queues (s3 a st) = queues s"
proof -
  have ok: "status r = XTCP_SUCCESS"
    using st.assign_success_iff [OF assms(1,2,5)] assms(3) by (simp add: socket_ids_def)
  then show "r = err_int32 XTCP_SUCCESS (val r)" by simp
  have o1: "owner cfg s1 = (owner cfg s)(val r \<mapsto> (c, p))" and t1: "table_inv cfg s1"
    and free: "owner cfg s (val r) = None"
    using assign_client_connection_law [OF assms(1,2,5)] ok by (auto split: if_splits)
  show "owner cfg s (val r) = None" by (rule free)
  have "owner cfg (s1\<lparr>lw := st\<rparr>) (val r) = Some (c, p)" using o1 by (simp add: owner_lw)
  note O = owner_entry [OF this]
  then show "in_range cfg (val r)" "c_protocol (conn s1 (val r)) = p" by simp_all
  have "table_inv cfg (s1\<lparr>lw := st\<rparr>)" using t1 by simp
  note U = upd_pcb [OF this O(1), where q = "Some a"]
  show "owner cfg (s3 a st) = (owner cfg s)(val r \<mapsto> (c, p))" "table_inv cfg (s3 a st)"
    "c_pcb (conn (s3 a st) (val r)) = Some a" "c_protocol (conn (s3 a st) (val r)) = p"
    using U(1,2) U(3) [of "val r"] O(1,3) assms(4) o1 by (simp_all add: s3_def owner_lw)
  show "lw (s3 a st) = st" "queues (s3 a st) = queues s"
    using assign_queues [OF assms(5)] by (simp_all add: s3_def upd_conn_def)
qed

text \<open>
  C36. Opening a UDP socket when a slot and a control block are available returns an id that was free,
  makes the caller its only owner, stores the new control block under it, and changes nothing else
  in the table.
\<close>

theorem open_udp_socket:
  assumes "table_inv cfg s" "c \<noteq> DEINIT" "card (dom (owner cfg s)) < MAX_OPEN_SOCKETS cfg"
    and "udp_new_ip_type L (lw s) = (Some a, st)"
  shows "\<exists>x s'. shim_new_socket F L cfg c XTCP_PROTOCOL_UDP s = Some (err_int32 XTCP_SUCCESS x, s') \<and>
    owner cfg s x = None \<and> owner cfg s' = (owner cfg s)(x \<mapsto> (c, XTCP_PROTOCOL_UDP)) \<and>
    get_udp_pcb cfg x s' = Some a \<and> find_client_connection cfg c x s' = err_int32 XTCP_SUCCESS x \<and>
    lw s' = st \<and> table_inv cfg s'"
proof -
  obtain r s1 where a: "assign_client_connection cfg c XTCP_PROTOCOL_UDP s = (r, s1)" by force
  let ?s3 = "upd_conn (val r) (\<lambda>e. e\<lparr>c_pcb := Some a\<rparr>) (s1\<lparr>lw := st\<rparr>)"
  note A = assign_with_pcb [OF assms(1-3) _ a]
  have "status r = XTCP_SUCCESS" using arg_cong [OF A(1), of status] by simp
  then have "shim_new_socket F L cfg c XTCP_PROTOCOL_UDP s = Some (r, ?s3)"
    using a assms(4) assign_lw [OF a] A(3,4)
    by (simp add: shim_new_socket_def new_udp_pcb_def set_udp_pcb_def)
  moreover have "find_client_connection cfg c (val r) ?s3 = err_int32 XTCP_SUCCESS (val r)"
    using owner_entry(4) [of cfg ?s3 "val r" c] A(5) by simp
  ultimately show ?thesis
    using A by (intro exI [of _ "val r"] exI [of _ ?s3]) (simp add: get_udp_pcb_def)
qed

theorem open_udp_socket_witness:
  "\<exists>x s'. shim_new_socket ex_flags (ex_lwip\<lparr>udp_new_ip_type := \<lambda>st. (Some 201, st)\<rparr>) ex_cfg 0
      XTCP_PROTOCOL_UDP (ex_state ex_idle) = Some (err_int32 XTCP_SUCCESS x, s') \<and>
    owner ex_cfg s' x = Some (0, XTCP_PROTOCOL_UDP) \<and> get_udp_pcb ex_cfg x s' = Some 201"
proof -
  have n: "card (dom (owner ex_cfg (ex_state ex_idle))) < MAX_OPEN_SOCKETS ex_cfg" by (simp add: ex_owner)
  have u: "udp_new_ip_type (ex_lwip\<lparr>udp_new_ip_type := \<lambda>st. (Some 201, st)\<rparr>) (lw (ex_state ex_idle)) =
      (Some 201, ex_lw)" by simp
  from open_udp_socket [OF ex_table_inv _ n u, of 0 ex_flags] show ?thesis by auto
qed

section \<open>A datagram from arrival to read\<close>

lemma tag_remote_simps [simp]:
  "pb_len (tag_remote remote port b) = pb_len b"
  "pb_payload (tag_remote remote port b) = pb_payload b"
  "pb_timestamp (tag_remote remote port b) = pb_timestamp b"
  "pb_remote (tag_remote (Some ip) port b) = \<lparr>ipaddr = ip, port_number = port\<rparr>"
  by (simp_all add: tag_remote_def)

lemma get_remote_head:
  assumes "rx_rel cfg held s R" "in_range cfg x" "R x = (p, b) # ys"
  shows "get_remote cfg x s = Some (pb_remote b)"
proof -
  obtain b0 where "pbufs (lw s) p = Some b0" "unlinked b0 = b"
    using rx_rel_disjoint(4) [OF assms(1), of x "[]" p b ys] assms(3) by auto
  moreover have "c_pbuf (conn s x) = Some p" using rx_relD(3) [OF assms(1,2)] assms(3) by simp
  ultimately show ?thesis using assms(2) by (auto simp: get_remote_def unlinked_def)
qed

text \<open>
  C35. A datagram makes the round trip from the network to the client: after
  \<open>xtcp_udp_recv\<close> has taken it on an unconnected socket with nothing queued, the owner's
  \<open>recvfrom\<close> returns its length, its bytes, its timestamp and the address and port it came
  from, and gives its buffer back to lwIP; the receive queues are then as they were.
\<close>

theorem udp_roundtrip:
  assumes "sys_inv cfg held s R" "rx_contract L held" "owner cfg s x = Some (c, XTCP_PROTOCOL_UDP)"
    and "R x = []" "rx_arrived held s R p b" "has_room cfg c s" "udp_pcbs (lw s) upcb = Some u"
    and "unat (pb_len b) \<le> length (pb_payload b)" "unat (pb_len b) \<le> unat len"
    and "unat len \<le> length buffer" "unat len < 2 ^ 31"
  shows "\<exists>s1 s2. xtcp_udp_recv F L cfg x upcb (Some p) (Some ip) port s = Some s1 \<and>
    recvfrom_common L cfg c x buffer len timed s1 =
      Some ((int (unat (pb_len b)),
             take (unat (pb_len b)) (pb_payload b) @ drop (unat (pb_len b)) buffer,
             if timed then Some (pb_timestamp b) else None,
             Some \<lparr>ipaddr = ip, port_number = port\<rparr>), s2) \<and>
    sys_inv cfg held s2 R \<and> held (world (lw s2)) = held (world (lw s)) - {p}"
proof -
  note O = sys_owner [OF assms(1,3)]
  have c: "c = get_client_info cfg x s" using O(1,3) by (simp add: get_client_info_def)
  let ?b = "tag_remote (Some ip) port b"
  define R1 where "R1 = R(x := R x @ [(p, ?b)])"
  obtain s1 where s1: "xtcp_udp_recv F L cfg x upcb (Some p) (Some ip) port s = Some s1"
    "sys_inv cfg held s1 R1" "sockets s1 = sockets s" "world (lw s1) = world (lw s)"
    unfolding R1_def using udp_queued [OF assms(1) O(1) assms(5) c assms(6,7)] by blast
  have own1: "owner cfg s1 x = Some (c, XTCP_PROTOCOL_UDP)"
    using sockets_owner(1) [OF s1(3) O(7)] assms(3) by simp
  note O1 = sys_owner [OF s1(2) own1]
  have q: "R1 x = (p, ?b) # []" using assms(4) by (simp add: R1_def)
  obtain s2 where s2: "take_remote_data L cfg x buffer len timed s1 =
      Some ((int (unat (pb_len b)),
             take (unat (pb_len b)) (pb_payload b) @ drop (unat (pb_len b)) buffer,
             if timed then Some (pb_timestamp b) else None), s2)"
    "sys_inv cfg held s2 (R1(x := []))" "held (world (lw s2)) = held (world (lw s1)) - {p}"
    using take_oldest [OF s1(2) assms(2) O(1) q, of len buffer timed] assms(8-11) by auto
  have "get_remote cfg x s1 = Some \<lparr>ipaddr = ip, port_number = port\<rparr>"
    using get_remote_head [of cfg held s1 R1 x p ?b "[]"] O(1) q s1(2) by (simp add: sys_inv_def)
  moreover have "R1(x := []) = R" using assms(4) by (auto simp: R1_def)
  ultimately show ?thesis
    using s1 s2 O1(5,6) by (intro exI [of _ s1] exI [of _ s2]) (simp add: recvfrom_common_def)
qed

theorem udp_roundtrip_witness:
  "\<exists>s1 s2. xtcp_udp_recv ex_flags ex_lwip ex_cfg 1 200 (Some 3) (Some (10, 0, 0, 9)) 5353 (ex_state ex_idle)
      = Some s1 \<and>
    recvfrom_common ex_lwip ex_cfg 1 1 [0, 0] 2 True s1 =
      Some ((1, [68, 0], Some 9, Some \<lparr>ipaddr = (10, 0, 0, 9), port_number = 5353\<rparr>), s2) \<and>
    world (lw s2) = {1, 2}"
proof -
  have o: "owner ex_cfg (ex_state ex_idle) 1 = Some (1, XTCP_PROTOCOL_UDP)" by (simp add: ex_owner)
  have r: "ex_rx 1 = []" by (simp add: ex_rx_def)
  have room: "has_room ex_cfg 1 (ex_state ex_idle)" by (simp add: has_room_def valid_client_def ex_idle_inv)
  have u: "udp_pcbs (lw (ex_state ex_idle)) 200 = Some \<lparr>local_ip = (10, 0, 0, 1),
      remote_ip = (0, 0, 0, 0), tos = 0, ttl = 64, udp_local_port = 53, udp_remote_port = 0, udp_flags = 0\<rparr>"
    by (simp add: ex_lw_def)
  have w: "world ex_lw - {3} = {1, 2}" by (auto simp: ex_lw_def)
  from udp_roundtrip [OF ex_sys_inv [OF ex_idle_inv(1,2)] ex_lwip_rx_contract o r ex_arrived room u,
      of 2 "[0, 0]" ex_flags "(10, 0, 0, 9)" 5353 True]
  show ?thesis by (auto simp: ex_pbuf_def w)
qed

section \<open>The client's data pointer\<close>

text \<open>
  The pointer a client stores with its socket is the one it reads back, and storing it changes
  no other socket's pointer and nothing else about the socket.
\<close>

theorem client_data_roundtrip:
  assumes "sys_inv cfg held s R" "owner cfg s x = Some (c, pr)"
  shows "\<exists>s'. set_client_data_case cfg c x d s = (0, s') \<and> get_client_data_case cfg c x s' = d \<and>
    owner cfg s' = owner cfg s \<and>
    (\<forall>y. y \<noteq> x \<longrightarrow> get_connection_client_data cfg y s' = get_connection_client_data cfg y s)"
proof -
  note O = sys_owner [OF assms]
  let ?s = "upd_conn x (\<lambda>e. e\<lparr>c_client_data := d\<rparr>) s"
  have e: "c_is_active (conn s x) \<noteq> 0" using assms(2) by (auto simp: owner_def split: if_splits)
  have cs: "conn ?s y = (if y = x then (conn s x)\<lparr>c_client_data := d\<rparr> else conn s y)" if "in_range cfg y" for y
    using conn_upd_conn [OF O(7,1), of y] that by (simp add: in_range_def)
  have "set_client_data_case cfg c x d s = (0, ?s)"
    using O(1,5) by (simp add: set_client_data_case_def set_connection_client_data_def)
  moreover have "find_client_connection cfg c x ?s = err_int32 XTCP_SUCCESS x"
    using O(1,3) cs [OF O(1)] by (simp add: find_client_connection_eq)
  then have "get_client_data_case cfg c x ?s = d"
    using O(1) cs [OF O(1)] by (simp add: get_client_data_case_def get_connection_client_data_def)
  moreover have "owner cfg ?s = owner cfg s" using cs by (auto simp: owner_def fun_eq_iff)
  moreover have "get_connection_client_data cfg y ?s = get_connection_client_data cfg y s" if "y \<noteq> x" for y
    using cs [of y] that by (simp add: get_connection_client_data_def)
  ultimately show ?thesis by blast
qed

theorem client_data_roundtrip_witness:
  "\<exists>s'. set_client_data_case ex_cfg 0 0 (Some 77) (ex_state ex_idle) = (0, s') \<and>
     get_client_data_case ex_cfg 0 0 s' = Some 77"
proof -
  have o: "owner ex_cfg (ex_state ex_idle) 0 = Some (0, XTCP_PROTOCOL_TCP)" by (simp add: ex_owner)
  from client_data_roundtrip [OF ex_sys_inv [OF ex_idle_inv(1,2)] o, of "Some 77"] show ?thesis by blast
qed

end
