(* ===== verification/Address_Properties.thy ===== *)
theory Address_Properties
  imports Session_Properties
begin

text \<open>
  Binding a socket to an address and asking for the addresses it has: what \<open>listen\<close>,
  \<open>connect\<close> and the two address queries do for each answer of lwIP.
\<close>

section \<open>Listening\<close>

text \<open>
  C38. \<open>listen\<close> on a TCP socket with a control block: \<open>XTCP_EINUSE\<close> exactly when
  lwIP says that the port is in use, success exactly when lwIP binds it and gives a listening block,
  which then is the socket's control block with the socket's id as its argument, and
  \<open>XTCP_EINVAL\<close> otherwise, the socket keeping its block. In each case the ownership of all
  sockets, the entries of the others and the event queues are as before.
\<close>

theorem tcp_listen_outcome:
  assumes "table_inv cfg s" "owner cfg s x = Some (c, XTCP_PROTOCOL_TCP)" "get_tcp_pcb cfg x s = Some t"
    and "tcp_bind L t a port (lw s) = (err, st)" "tcp_listen L t st = (lpcb, st')"
    and "shim_listen L cfg c x port a s = (r, s')"
  shows "r = (if err = ERR_USE then XTCP_EINUSE
              else if err = ERR_OK \<and> lpcb \<noteq> None then XTCP_SUCCESS else XTCP_EINVAL) \<and>
    get_tcp_pcb cfg x s' = (if r = XTCP_SUCCESS then lpcb else Some t) \<and>
    lw s' = (if err \<noteq> ERR_OK then st else case lpcb of None \<Rightarrow> st' | Some l \<Rightarrow> tcp_arg L l x st') \<and>
    owner cfg s' = owner cfg s \<and> table_inv cfg s' \<and> queues s' = queues s \<and>
    (\<forall>y. y \<noteq> x \<and> in_range cfg y \<longrightarrow> conn s' y = conn s y)"
proof (cases "err = ERR_OK \<and> lpcb \<noteq> None")
  case True
  note O = owner_entry [OF assms(2)]
  obtain l where l: "lpcb = Some l" using True by blast
  define s1 where "s1 = upd_conn x (\<lambda>e. e\<lparr>c_pcb := Some l\<rparr>) (s\<lparr>lw := st'\<rparr>)"
  have "set_tcp_pcb cfg x (Some l) (s\<lparr>lw := st'\<rparr>) = (XTCP_SUCCESS, s1)"
    using O(1,3) by (simp add: set_tcp_pcb_def s1_def)
  then have s': "r = XTCP_SUCCESS" "s' = s1\<lparr>lw := tcp_arg L l x (lw s1)\<rparr>"
    using assms(3-6) O(4,5) True l by (auto simp: shim_listen_def upd_lw_def)
  have t: "table_inv cfg (s\<lparr>lw := st'\<rparr>)" using assms(1) by simp
  have f: "lw s1 = st'" "queues s1 = queues s" by (simp_all add: s1_def upd_conn_def)
  note U = upd_pcb [OF t O(1), where q = "Some l", folded s1_def, unfolded owner_lw]
  show ?thesis
    using U O(1-3) True l by (auto simp: s' f owner_lw get_tcp_pcb_def)
next
  case False
  note O = owner_entry [OF assms(2)]
  show ?thesis
    using assms O False
    by (auto simp: shim_listen_def Let_def owner_lw get_tcp_pcb_def split: if_splits option.splits)
qed

theorem tcp_listen_outcome_witness:
  "\<exists>s'. shim_listen (ex_lwip\<lparr>tcp_listen := \<lambda>p st. (Some 101, st)\<rparr>) ex_cfg 0 0 80 IP_ANY
      (ex_state ex_idle) = (XTCP_SUCCESS, s') \<and> get_tcp_pcb ex_cfg 0 s' = Some 101"
proof -
  let ?L = "ex_lwip\<lparr>tcp_listen := \<lambda>p st. (Some 101, st)\<rparr>"
  obtain r s' where s': "shim_listen ?L ex_cfg 0 0 80 IP_ANY (ex_state ex_idle) = (r, s')" by force
  have o: "owner ex_cfg (ex_state ex_idle) 0 = Some (0, XTCP_PROTOCOL_TCP)" by (simp add: ex_owner)
  have t: "get_tcp_pcb ex_cfg 0 (ex_state ex_idle) = Some 100"
    by (simp add: get_tcp_pcb_def ex_in_range ex_conns_def)
  have b: "tcp_bind ?L 100 IP_ANY 80 (lw (ex_state ex_idle)) = (ERR_OK, ex_lw)"
    "tcp_listen ?L 100 ex_lw = (Some 101, ex_lw)" by (simp_all add: ex_lwip_def)
  from tcp_listen_outcome [OF ex_table_inv o t b s'] s' show ?thesis by auto
qed

section \<open>UDP sockets: listening and connecting\<close>

text \<open>
  \<open>listen\<close> and \<open>connect\<close> on a UDP socket with a control block succeed exactly
  when lwIP accepts the address, and then the receive callback is registered for that block with the
  socket's id; every other answer of lwIP, a port in use included, is \<open>XTCP_EINVAL\<close> and
  registers nothing. The socket table and the event queues do not change.
\<close>

theorem udp_bind_outcome:
  assumes "owner cfg s x = Some (c, XTCP_PROTOCOL_UDP)" "get_udp_pcb cfg x s = Some u"
    and "udp_bind L u a port (lw s) = (eb, stb)" "udp_connect L u a port (lw s) = (ec, stc)"
  shows "shim_listen L cfg c x port a s =
      (if eb = ERR_OK then (XTCP_SUCCESS, s\<lparr>lw := udp_recv L u x stb\<rparr>) else (XTCP_EINVAL, s\<lparr>lw := stb\<rparr>)) \<and>
    shim_connect L cfg c x port a s =
      (if ec = ERR_OK then (XTCP_SUCCESS, s\<lparr>lw := udp_recv L u x stc\<rparr>) else (XTCP_EINVAL, s\<lparr>lw := stc\<rparr>))"
  using owner_entry [OF assms(1)] assms(2-4)
  by (simp add: shim_listen_def shim_connect_def upd_lw_def)

theorem udp_bind_outcome_witness:
  "fst (shim_listen (ex_lwip\<lparr>udp_bind := \<lambda>p a n st. (ERR_USE, st)\<rparr>) ex_cfg 1 1 53 IP_ANY (ex_state ex_idle))
     = XTCP_EINVAL"
proof -
  let ?L = "ex_lwip\<lparr>udp_bind := \<lambda>p a n st. (ERR_USE, st)\<rparr>"
  have o: "owner ex_cfg (ex_state ex_idle) 1 = Some (1, XTCP_PROTOCOL_UDP)" by (simp add: ex_owner)
  have u: "get_udp_pcb ex_cfg 1 (ex_state ex_idle) = Some 200"
    by (simp add: get_udp_pcb_def ex_in_range ex_conns_def)
  have b: "udp_bind ?L 200 IP_ANY 53 (lw (ex_state ex_idle)) = (ERR_USE, ex_lw)"
    "udp_connect ?L 200 IP_ANY 53 (lw (ex_state ex_idle)) = (ERR_OK, ex_lw)" by (simp_all add: ex_lwip_def)
  from udp_bind_outcome [OF o u b] show ?thesis by simp
qed

section \<open>Active TCP connections\<close>

text \<open>
  Opening a TCP socket when lwIP has a control block at hand.
\<close>

lemma open_tcp:
  assumes "table_inv cfg s" "c \<noteq> DEINIT" "card (dom (owner cfg s)) < MAX_OPEN_SOCKETS cfg"
    and "tcp_new_ip_type L (lw s) = Done (Some a) st"
  shows "\<exists>x s'. shim_new_socket F L cfg c XTCP_PROTOCOL_TCP s = Some (err_int32 XTCP_SUCCESS x, s') \<and>
    owner cfg s x = None \<and> owner cfg s' = (owner cfg s)(x \<mapsto> (c, XTCP_PROTOCOL_TCP)) \<and>
    get_tcp_pcb cfg x s' = Some a \<and> lw s' = st \<and> queues s' = queues s"
proof -
  obtain r s1 where a: "assign_client_connection cfg c XTCP_PROTOCOL_TCP s = (r, s1)" by force
  let ?s3 = "upd_conn (val r) (\<lambda>e. e\<lparr>c_pcb := Some a\<rparr>) (s1\<lparr>lw := st\<rparr>)"
  note A = assign_with_pcb [OF assms(1-3) _ a]
  have "status r = XTCP_SUCCESS" using arg_cong [OF A(1), of status] by simp
  then have "shim_new_socket F L cfg c XTCP_PROTOCOL_TCP s = Some (r, ?s3)"
    using a assms(4) assign_lw [OF a] A(3,4)
    by (simp add: shim_new_socket_def new_tcp_pcb_def set_tcp_pcb_def)
  then show ?thesis
    using A by (intro exI [of _ "val r"] exI [of _ ?s3]) (simp add: get_tcp_pcb_def)
qed

text \<open>
  C39. An active TCP connection is reported under the wrong socket. lwIP passes to
  \<open>lwip_tcp_event\<close> the argument stored in the control block (\<open>callback_arg\<close>), which
  is null in a new block and which only \<open>tcp_arg\<close> sets. \<open>socket\<close> and
  \<open>connect\<close> do not call \<open>tcp_arg\<close>: when socket 0 is open, a connection that
  another socket makes is announced to the owner of socket 0, as an event of socket 0.
\<close>

theorem active_connection_reported_as_zero:
  fixes callback_arg :: "'w lwip_state \<Rightarrow> addr \<Rightarrow> int"
  assumes "sys_inv cfg held s R" "c \<noteq> DEINIT" "card (dom (owner cfg s)) < MAX_OPEN_SOCKETS cfg"
    and "owner cfg s 0 = Some (d, pr)" "has_room cfg d s"
    and "tcp_new_ip_type L (lw s) = Done (Some a) st" "callback_arg st a = 0"
    and "tcp_connect L a ip port st = (ERR_OK, st')" "callback_arg st' a = callback_arg st a"
  shows "\<exists>x s1 s2 s3. shim_new_socket F L cfg c XTCP_PROTOCOL_TCP s = Some (err_int32 XTCP_SUCCESS x, s1) \<and>
    x \<noteq> 0 \<and> shim_connect L cfg c x port ip s1 = (XTCP_SUCCESS, s2) \<and>
    lwip_tcp_event L cfg (callback_arg (lw s2) a) (Some a) LWIP_EVENT_CONNECTED None 0 ERR_OK s2 = Some (ERR_OK, s3) \<and>
    queued (queues s3) = (queued (queues s))(d := queued (queues s) d @ [event XTCP_NEW_CONNECTION 0])"
proof -
  have t: "table_inv cfg s" using assms(1) rx_relD(1) by (auto simp: sys_inv_def)
  obtain x s1 where s1: "shim_new_socket F L cfg c XTCP_PROTOCOL_TCP s = Some (err_int32 XTCP_SUCCESS x, s1)"
    "owner cfg s x = None" "owner cfg s1 = (owner cfg s)(x \<mapsto> (c, XTCP_PROTOCOL_TCP))"
    "get_tcp_pcb cfg x s1 = Some a" "lw s1 = st" "queues s1 = queues s"
    using open_tcp [OF t assms(2,3,6)] by blast
  have x: "x \<noteq> 0" using s1(2) assms(4) by auto
  let ?s2 = "s1\<lparr>lw := st'\<rparr>"
  have "owner cfg s1 x = Some (c, XTCP_PROTOCOL_TCP)" using s1(3) by simp
  note O = owner_entry [OF this]
  have c: "shim_connect L cfg c x port ip s1 = (XTCP_SUCCESS, ?s2)"
    using O(4,5) s1(4,5) assms(8) by (simp add: shim_connect_def)
  have "owner cfg ?s2 0 = Some (d, pr)" using s1(3) x assms(4) by (simp add: owner_lw)
  note D = owner_entry [OF this]
  have q: "queue_inv cfg (queues s)" "notifiable (notify (queues s)) d"
    using assms(1,4) by (auto simp: sys_inv_def clients_ok_def)
  obtain r q' where e: "enqueue_event_and_notify cfg d 0 XTCP_NEW_CONNECTION (queues s) = Some (r, q')"
    using enqueue_total [OF q(2)] by blast
  have "queued q' = (queued (queues s))(d := queued (queues s) d @ [event XTCP_NEW_CONNECTION 0])"
    using enqueue_spec [OF q(1) e] assms(5) by (simp add: has_room_def)
  then show ?thesis
    using s1(1,6) x c D(1,6) e assms(7,9)
    by (intro exI [of _ x] exI [of _ s1] exI [of _ ?s2] exI [of _ "?s2\<lparr>queues := q'\<rparr>"])
      (simp add: lwip_tcp_event_defs enqueue_def)
qed

text \<open>In the example the argument of every block is null, as in a new block, since nothing sets it.\<close>

theorem active_connection_reported_as_zero_witness:
  "\<exists>x s1 s2 s3. shim_new_socket ex_flags (ex_lwip\<lparr>tcp_new_ip_type := \<lambda>st. Done (Some 102) st\<rparr>) ex_cfg 1
      XTCP_PROTOCOL_TCP (ex_state ex_idle) = Some (err_int32 XTCP_SUCCESS x, s1) \<and> x \<noteq> 0 \<and>
    shim_connect (ex_lwip\<lparr>tcp_new_ip_type := \<lambda>st. Done (Some 102) st\<rparr>) ex_cfg 1 x 80 (10, 0, 0, 9) s1 =
      (XTCP_SUCCESS, s2) \<and>
    lwip_tcp_event (ex_lwip\<lparr>tcp_new_ip_type := \<lambda>st. Done (Some 102) st\<rparr>) ex_cfg 0 (Some 102)
      LWIP_EVENT_CONNECTED None 0 ERR_OK s2 = Some (ERR_OK, s3) \<and>
    queued (queues s3) 0 = [event XTCP_NEW_CONNECTION 0] \<and> queued (queues s3) 1 = []"
proof -
  let ?L = "ex_lwip\<lparr>tcp_new_ip_type := \<lambda>st. Done (Some 102) st\<rparr>"
  have n: "card (dom (owner ex_cfg (ex_state ex_idle))) < MAX_OPEN_SOCKETS ex_cfg" by (simp add: ex_owner)
  have o: "owner ex_cfg (ex_state ex_idle) 0 = Some (0, XTCP_PROTOCOL_TCP)" by (simp add: ex_owner)
  have room: "has_room ex_cfg 0 (ex_state ex_idle)" by (simp add: has_room_def valid_client_def ex_idle_inv)
  have a: "tcp_new_ip_type ?L (lw (ex_state ex_idle)) = Done (Some 102) ex_lw" by simp
  have c: "tcp_connect ?L 102 (10, 0, 0, 9) 80 ex_lw = (ERR_OK, ex_lw)" by (simp add: ex_lwip_def)
  obtain x s1 s2 s3 where
    "shim_new_socket ex_flags ?L ex_cfg 1 XTCP_PROTOCOL_TCP (ex_state ex_idle) = Some (err_int32 XTCP_SUCCESS x, s1)"
    "x \<noteq> 0" "shim_connect ?L ex_cfg 1 x 80 (10, 0, 0, 9) s1 = (XTCP_SUCCESS, s2)"
    "lwip_tcp_event ?L ex_cfg 0 (Some 102) LWIP_EVENT_CONNECTED None 0 ERR_OK s2 = Some (ERR_OK, s3)"
    and q: "queued (queues s3) = (queued ex_idle)(0 := queued ex_idle 0 @ [event XTCP_NEW_CONNECTION 0])"
    using active_connection_reported_as_zero [OF ex_sys_inv [OF ex_idle_inv(1,2)] _ n o room a _ c,
        where c = 1 and callback_arg = "\<lambda>st p. 0" and F = ex_flags] by auto
  moreover have "queued (queues s3) 0 = [event XTCP_NEW_CONNECTION 0]" "queued (queues s3) 1 = []"
    by (simp_all add: q ex_idle_inv)
  ultimately show ?thesis by blast
qed

end
