(* ===== verification/Control_Invariant.thy ===== *)
theory Control_Invariant
  imports Xtcp_Lwip
begin

text \<open>
  The control state of the server (the socket table, the event queues, and who may be notified) is
  well formed at every moment, whatever lwIP does: every operation, every callback and so every turn
  of the server's loop keeps it. Nothing is assumed of lwIP here; a step that runs into undefined
  behaviour returns \<open>None\<close>, and the theory is about the steps that return.
\<close>

section \<open>The invariant\<close>

text \<open>\<open>N\<close> is the set of clients that can be notified, which never changes.\<close>

definition ctl :: "xtcp_config \<Rightarrow> (u32 \<Rightarrow> bool) \<Rightarrow> 'w xtcp_state \<Rightarrow> bool" where
  "ctl cfg N s \<longleftrightarrow>
     table_inv cfg s \<and> queue_inv cfg (queues s) \<and> notifiable (notify (queues s)) = N \<and>
     (\<forall>i c p. owner cfg s i = Some (c, p) \<longrightarrow> N c) \<and> awake (queues s) \<and>
     notify_inv (notify (queues s))"

lemma ctlI:
  assumes "table_inv cfg s" "queue_inv cfg (queues s)" "notifiable (notify (queues s)) = N"
    "\<And>i c p. owner cfg s i = Some (c, p) \<Longrightarrow> N c" "awake (queues s)"
    "notify_inv (notify (queues s))"
  shows "ctl cfg N s"
  using assms by (simp add: ctl_def)

lemma ctlD:
  assumes "ctl cfg N s"
  shows "table_inv cfg s" "queue_inv cfg (queues s)" "notifiable (notify (queues s)) = N"
    "owner cfg s i = Some (c, p) \<Longrightarrow> N c" "awake (queues s)"
    "notify_inv (notify (queues s))"
  using assms by (auto simp: ctl_def)

lemma entry_ok_pbuf [simp]: "entry_ok (e\<lparr>c_pbuf := q\<rparr>) = entry_ok e"
  by (simp add: entry_ok_def)

lemma table_inv_sockets:
  assumes "sockets s' = sockets s" "last_guid s' = last_guid s" "table_inv cfg s"
  shows "table_inv cfg s'"
proof -
  have "length (connections s') = length (connections s)"
    using assms(1) unfolding sockets_def by (metis length_map)
  moreover have "(\<forall>e \<in> set (connections u). entry_ok e) \<longleftrightarrow> (\<forall>e \<in> set (sockets u). entry_ok e)"
    for u :: "('x, 'y) conn_state_scheme"
    by (simp add: sockets_def)
  ultimately show ?thesis using assms unfolding table_inv_def by metis
qed

text \<open>What only touches lwIP's state and the \<open>pbuf\<close> fields keeps the invariant.\<close>

lemma ctl_frame:
  assumes "ctl cfg N s" "sockets s' = sockets s" "last_guid s' = last_guid s" "queues s' = queues s"
  shows "ctl cfg N s'"
  using assms sockets_owner(1) [OF assms(2) ctlD(1) [OF assms(1)]]
    table_inv_sockets [OF assms(2,3) ctlD(1) [OF assms(1)]]
  by (simp add: ctl_def)

lemma ctl_lw [simp]:
  "ctl cfg N s \<Longrightarrow> ctl cfg N (s\<lparr>lw := st\<rparr>)"
  "ctl cfg N s \<Longrightarrow> ctl cfg N (upd_lw f s)"
  "ctl cfg N s \<Longrightarrow> ctl cfg N (store_pbuf a b s)"
  by (erule ctl_frame; simp)+

section \<open>The operations of connection.c\<close>

lemma ctl_set_remote:
  "ctl cfg N s \<Longrightarrow> set_remote cfg i remote port p s = Some (r, s') \<Longrightarrow> ctl cfg N s'"
  using ctl_frame set_remote_frame set_remote_queues by metis

lemma ctl_unlink_remote:
  "ctl cfg N s \<Longrightarrow> unlink_remote cfg i p s = Some (r, s') \<Longrightarrow> ctl cfg N s'"
  using ctl_frame unlink_remote_frame unlink_remote_queues by metis

lemma ctl_free_remote_data:
  assumes "ctl cfg N s" "free_remote_data L cfg i s = Some (r, s')"
  shows "ctl cfg N s'"
  using assms(1) ctl_frame free_remote_data_frame [OF assms(2)] by blast

lemma ctl_clear_pending:
  assumes "ctl cfg N s" "clear_pending_rx_data_on_connection L cfg i s = Some s'"
  shows "ctl cfg N s'"
  using assms(1) ctl_frame clear_pending_frame [OF assms(2)] by blast

lemma ctl_enqueue:
  assumes "ctl cfg N s" "enqueue cfg c i e s = Some (r, s')"
  shows "ctl cfg N s'"
proof -
  note D = ctlD [OF assms(1)]
  from assms(2) obtain q where q: "enqueue_event_and_notify cfg c i e (queues s) = Some (r, q)"
    and s': "s' = s\<lparr>queues := q\<rparr>" by (auto simp: enqueue_def split: bind_splits)
  have "table_inv cfg s'" using D(1) s' by (simp add: table_inv_def)
  moreover have "notifiable (notify q) = N" using notifiable_enqueue [OF D(2) q] D(3) by simp
  ultimately show ?thesis
    using enqueue_spec [OF D(2) q] D(4) s' queue_trans_awake [OF queue_trans.enqueue [OF q] D(2,5)]
      queue_trans_notify [OF queue_trans.enqueue [OF q] D(2,6)]
      queue_trans_inv [OF queue_trans.enqueue [OF q] D(2)]
    by (auto intro!: ctlI)
qed

lemma ctl_free_client:
  assumes "ctl cfg N s"
  shows "ctl cfg N (free_client_connection cfg i s)"
  using ctlD [OF assms] free_client_connection_law [OF ctlD(1) [OF assms], of i]
  by (auto intro!: ctlI split: if_splits)

lemma ctl_assign:
  assumes "ctl cfg N s" "assign_client_connection cfg c p s = (r, s')" "c \<noteq> DEINIT" "N c"
  shows "ctl cfg N s'"
  using ctlD [OF assms(1)] assign_queues [OF assms(2)] assms(4)
    assign_client_connection_law [OF ctlD(1) [OF assms(1)] assms(3,2)]
  by (auto intro!: ctlI split: if_splits)

lemma ctl_upd_entry:
  assumes "ctl cfg N s" "in_range cfg i"
    and "c_is_active (f (conn s i)) = c_is_active (conn s i)"
    and "c_client_num (f (conn s i)) = c_client_num (conn s i)" "entry_ok (f (conn s i))"
  shows "ctl cfg N (upd_conn i f s)"
proof (rule ctlI)
  note D = ctlD [OF assms(1)]
  show "table_inv cfg (upd_conn i f s)" using table_inv_upd_conn D(1) assms(2,5) by blast
  show "N c" if "owner cfg (upd_conn i f s) j = Some (c, p)" for j c p
  proof (cases "j = i")
    case True
    with that have "owner cfg s i = Some (c, c_protocol (conn s i))"
      using assms(2-4) owner_upd_conn [OF D(1) assms(2), of f]
      by (auto simp: owner_def split: if_splits)
    then show ?thesis by (rule D(4))
  next
    case False
    with that show ?thesis using owner_upd_conn [OF D(1) assms(2), of f] D(4) by auto
  qed
qed (use ctlD [OF assms(1)] in simp_all)

lemma ctl_set_pcb:
  assumes "ctl cfg N s"
  shows "set_tcp_pcb cfg i p s = (r, s') \<Longrightarrow> ctl cfg N s'"
    and "set_udp_pcb cfg i p s = (r, s') \<Longrightarrow> ctl cfg N s'"
proof -
  have *: "ctl cfg N (upd_conn i (\<lambda>c. c\<lparr>c_pcb := p\<rparr>) s)"
    if "in_range cfg i" "c_protocol (conn s i) \<noteq> XTCP_PROTOCOL_NONE"
    using that assms table_inv_entry [OF ctlD(1) [OF assms] that(1)]
    by (intro ctl_upd_entry) (auto simp: entry_ok_def)
  show "set_tcp_pcb cfg i p s = (r, s') \<Longrightarrow> ctl cfg N s'"
    "set_udp_pcb cfg i p s = (r, s') \<Longrightarrow> ctl cfg N s'"
    using * assms by (auto simp: set_tcp_pcb_def set_udp_pcb_def split: if_splits)
qed

lemma ctl_set_client_data:
  assumes "ctl cfg N s" "set_connection_client_data cfg i d s = (r, s')"
    and "c_is_active (conn s i) \<noteq> 0"
  shows "ctl cfg N s'"
proof (cases "in_range cfg i")
  case True
  with assms have "ctl cfg N (upd_conn i (\<lambda>c. c\<lparr>c_client_data := d\<rparr>) s)"
    using table_inv_entry [OF ctlD(1) [OF assms(1)] True]
    by (intro ctl_upd_entry) (auto simp: entry_ok_def)
  with True assms(2) show ?thesis by (simp add: set_connection_client_data_def)
qed (use assms in \<open>simp add: set_connection_client_data_def\<close>)

text \<open>The rules with the call first, so that the calls of a handler drive the proof.\<close>

lemmas ctl_table_steps [ctl_steps] =
  ctl_set_remote [rotated] ctl_unlink_remote [rotated] ctl_free_remote_data [rotated]
  ctl_clear_pending [rotated] ctl_enqueue [rotated] ctl_set_pcb [rotated] ctl_lw

section \<open>The callbacks\<close>

lemma ctl_owner_client:
  assumes "ctl cfg N s" "get_protocol cfg i s \<noteq> XTCP_PROTOCOL_NONE"
  shows "get_client_info cfg i s \<noteq> DEINIT \<and> N (get_client_info cfg i s)"
proof -
  from assms(2) have r: "in_range cfg i" by (auto simp: get_protocol_def split: if_splits)
  note e = table_inv_entry [OF ctlD(1) [OF assms(1)] r]
  then have "owner cfg s i = Some (get_client_info cfg i s, c_protocol (conn s i))"
    using assms(2) r by (auto simp: entry_ok_def get_protocol_def owner_def get_client_info_def)
  with ctlD(4) [OF assms(1)] e assms(2) r show ?thesis
    by (auto simp: entry_ok_def get_protocol_def get_client_info_def)
qed

lemma ctl_shim_accept:
  assumes "ctl cfg N s" "shim_accept L cfg (get_client_info cfg i s) pcb i s = (r, s')"
  shows "ctl cfg N s'"
proof (cases "get_protocol cfg i s = XTCP_PROTOCOL_TCP \<and> pcb \<noteq> None")
  case True
  then obtain a where a: "pcb = Some a" by auto
  obtain k s1 where k: "assign_client_connection cfg (get_client_info cfg i s) XTCP_PROTOCOL_TCP s = (k, s1)"
    by force
  have s1: "ctl cfg N s1"
    using ctl_assign [OF assms(1) k] ctl_owner_client [OF assms(1), of i] True by simp
  obtain e s2 where e: "set_tcp_pcb cfg (val k) (Some a) s1 = (e, s2)" by force
  show ?thesis
    using assms(2) True a k e s1 ctl_set_pcb(1) [OF s1 e]
    by (auto simp: shim_accept_def split: if_splits)
next
  case False
  then have "s' = s"
    using assms(2) by (auto simp: shim_accept_def split: xtcp_protocol_t.splits option.splits)
  with assms(1) show ?thesis by simp
qed

lemma ctl_tcp_accept:
  assumes "ctl cfg N s" "lwip_tcp_event L cfg i pcb LWIP_EVENT_ACCEPT p sz err s = Some (r, s')"
  shows "ctl cfg N s'"
proof (cases "in_range cfg i \<and> err = ERR_OK \<and> pcb \<noteq> None")
  case True
  then obtain a where a: "pcb = Some a" by auto
  let ?s1 = "upd_lw (tcp_setprio_min L a) s"
  have c: "get_client_info cfg i ?s1 = get_client_info cfg i s"
    by (simp add: get_client_info_def upd_lw_def)
  obtain k s2 where k: "shim_accept L cfg (get_client_info cfg i s) pcb i ?s1 = (k, s2)" by force
  with ctl_shim_accept [of cfg N ?s1 L i pcb k s2] assms(1) c have "ctl cfg N s2" by simp
  with assms(2) True a k ctl_enqueue [of cfg N s2] show ?thesis
    by (auto simp: lwip_tcp_event_defs Let_def split: if_splits bind_splits)
next
  case False
  with assms show ?thesis by (auto simp: lwip_tcp_event_defs Let_def split: if_splits option.splits)
qed

lemma ctl_tcp_recv:
  assumes "ctl cfg N s" "lwip_tcp_event L cfg i pcb LWIP_EVENT_RECV p sz err s = Some (r, s')"
  shows "ctl cfg N s'"
  using assms
  by (auto simp: lwip_tcp_event_defs Let_def split: if_splits bind_splits option.splits;
      blast intro: ctl_steps)

lemma ctl_tcp_event:
  assumes "ctl cfg N s" "lwip_tcp_event L cfg i pcb e p sz err s = Some (r, s')"
  shows "ctl cfg N s'"
proof (cases e)
  case LWIP_EVENT_ACCEPT
  with assms ctl_tcp_accept show ?thesis by blast
next
  case LWIP_EVENT_RECV
  with assms ctl_tcp_recv show ?thesis by blast
qed (use assms in \<open>auto simp: lwip_tcp_event_defs Let_def ctl_free_client
      split: if_splits bind_splits dest: ctl_enqueue\<close>)

lemma ctl_udp_recv:
  assumes "ctl cfg N s" "xtcp_udp_recv F L cfg i upcb p remote port s = Some s'"
  shows "ctl cfg N s'"
  using assms
  by (auto simp: xtcp_udp_recv_def Let_def split: if_splits bind_splits option.splits;
      blast intro: ctl_steps)

lemma ctl_dns_found:
  "ctl cfg N s \<Longrightarrow> xtcp_dns_found cfg name addr c s = Some s' \<Longrightarrow> ctl cfg N s'"
  by (auto simp: xtcp_dns_found_def Let_def split: bind_splits dest: ctl_enqueue)

lemma ctl_callback:
  "ctl cfg N s \<Longrightarrow> handle_callback F L cfg c s = Some (r, s') \<Longrightarrow> ctl cfg N s'"
  by (cases c) (auto dest: ctl_tcp_event ctl_udp_recv ctl_dns_found)

lemma ctl_run_lwip:
  "ctl cfg N s \<Longrightarrow> run_lwip (handle_callback F L cfg) prog s = Some (r, s') \<Longrightarrow> ctl cfg N s'"
proof (induction prog arbitrary: s)
  case (Done x st)
  then show ?case by auto
next
  case (Call c st k)
  from Call.prems(2) obtain e s1 where s1: "handle_callback F L cfg c (s\<lparr>lw := st\<rparr>) = Some (e, s1)"
    and rest: "run_lwip (handle_callback F L cfg) (k e (lw s1)) s1 = Some (r, s')"
    by (auto split: bind_splits)
  have "ctl cfg N s1" using ctl_callback [OF _ s1] Call.prems(1) by simp
  from Call.IH [OF _ _ this rest] show ?case by blast
qed

section \<open>The socket calls\<close>

lemma ctl_new_socket:
  assumes "ctl cfg N s" "shim_new_socket F L cfg c p s = Some (r, s')" "c \<noteq> DEINIT" "N c"
  shows "ctl cfg N s'"
proof -
  obtain k s1 where k: "assign_client_connection cfg c p s = (k, s1)" by force
  have s1: "ctl cfg N s1" by (rule ctl_assign [OF assms(1) k assms(3,4)])
  have "ctl cfg N s'" if "new_udp_pcb L cfg k s1 = (r, s')"
    using that s1
    by (auto simp: new_udp_pcb_def Let_def split: prod.splits option.splits if_splits;
        blast intro: ctl_steps)
  moreover have "ctl cfg N s'" if "new_tcp_pcb F L cfg k s1 = Some (r, s')"
    using that s1
    by (auto simp: new_tcp_pcb_def Let_def split: bind_splits prod.splits option.splits if_splits;
        blast intro: ctl_steps ctl_run_lwip [rotated])
  ultimately show ?thesis
    using assms(2) k s1 by (auto simp: shim_new_socket_def split: if_splits xtcp_protocol_t.splits)
qed

lemma ctl_close_pcb: "ctl cfg N s \<Longrightarrow> ctl cfg N (close_pcb L cfg i s)"
  by (simp add: close_pcb_def split: xtcp_protocol_t.splits option.splits)

lemma ctl_purge:
  assumes "ctl cfg N s" "free_notifications_on_queue cfg c i (queues s) = (n, q)"
  shows "ctl cfg N (s\<lparr>queues := q\<rparr>)"
  using ctlD [OF assms(1)] purge_spec [OF ctlD(2) [OF assms(1)] assms(2)]
    queue_trans_awake [OF queue_trans.purge [OF assms(2)] ctlD(2,5) [OF assms(1)]]
    queue_trans_notify [OF queue_trans.purge [OF assms(2)] ctlD(2,6) [OF assms(1)]]
  by (auto intro!: ctlI simp: table_inv_def)

lemma ctl_close:
  assumes "ctl cfg N s" "shim_close_socket L cfg c i s = Some s'"
  shows "ctl cfg N s'"
  using assms
  by (auto simp: shim_close_socket_def Let_def split: if_splits prod.splits bind_splits;
      blast intro: ctl_free_client ctl_close_pcb ctl_purge [rotated] ctl_steps)

end
