(* ===== verification/Server_Invariant.thy ===== *)
theory Server_Invariant
  imports Control_Invariant
begin

text \<open>
  The invariant of \<open>Control_Invariant\<close> carried to the server's loop: every case of the
  \<open>select\<close> keeps it, so it holds in every state the server reaches.
\<close>

section \<open>The cases of the loop\<close>

lemma ctl_get_event:
  assumes "ctl cfg N s" "get_event cfg c (queues s) = Some (x, q)"
  shows "ctl cfg N (s\<lparr>queues := q\<rparr>)"
  using ctlD [OF assms(1)] queue_trans_inv [OF queue_trans.collect [OF assms(2)] ctlD(2) [OF assms(1)]]
    queue_trans_awake [OF queue_trans.collect [OF assms(2)] ctlD(2,5) [OF assms(1)]]
    queue_trans_notify [OF queue_trans.collect [OF assms(2)] ctlD(2,6) [OF assms(1)]]
  by (auto intro!: ctlI simp: table_inv_def)

lemma ctl_listen:
  "ctl cfg N s \<Longrightarrow> shim_listen L cfg c i port addr s = (r, s') \<Longrightarrow> ctl cfg N s'"
  by (auto simp: shim_listen_def Let_def split: if_splits xtcp_protocol_t.splits option.splits prod.splits;
      blast intro: ctl_steps)

lemma ctl_connect:
  "ctl cfg N s \<Longrightarrow> shim_connect L cfg c i port addr s = (r, s') \<Longrightarrow> ctl cfg N s'"
  by (auto simp: shim_connect_def Let_def split: if_splits xtcp_protocol_t.splits option.splits prod.splits)

lemma ctl_shim_send:
  "ctl cfg N s \<Longrightarrow> shim_send L cfg c i tok s = Some (r, s') \<Longrightarrow> ctl cfg N s'"
  by (auto simp: shim_send_def Let_def
      split: if_splits xtcp_protocol_t.splits option.splits prod.splits bind_splits)

lemma ctl_shim_sendto:
  "ctl cfg N s \<Longrightarrow> shim_sendto L cfg c i tok addr port s = (r, s') \<Longrightarrow> ctl cfg N s'"
  by (auto simp: shim_sendto_def Let_def split: if_splits xtcp_protocol_t.splits option.splits prod.splits)

lemma ctl_alloc_tx:
  "ctl cfg N s \<Longrightarrow> pbuf_shim_alloc_tx F L n timed s = Some (p, s') \<Longrightarrow> ctl cfg N s'"
  by (auto simp: pbuf_shim_alloc_tx_def Let_def split: if_splits option.splits prod.splits bind_splits)

lemma ctl_memcpy_to_payload:
  "ctl cfg N s \<Longrightarrow> memcpy_to_payload p buffer n s = Some s' \<Longrightarrow> ctl cfg N s'"
  by (auto simp: memcpy_to_payload_def split: if_splits bind_splits)

lemma ctl_send_common:
  "ctl cfg N s \<Longrightarrow> send_common F L cfg i x buffer n timed s = Some (r, s') \<Longrightarrow> ctl cfg N s'"
  by (auto simp: send_common_def Let_def split: if_splits option.splits bind_splits;
      blast intro: ctl_alloc_tx [rotated] ctl_memcpy_to_payload [rotated] ctl_shim_send [rotated])

lemma ctl_sendto_common:
  "ctl cfg N s \<Longrightarrow> sendto_common F L cfg i x buffer n addr port timed s = Some (r, s') \<Longrightarrow> ctl cfg N s'"
  by (auto simp: sendto_common_def Let_def split: if_splits option.splits prod.splits bind_splits;
      blast intro: ctl_alloc_tx [rotated] ctl_memcpy_to_payload [rotated] ctl_shim_sendto [rotated])

lemma ctl_take_remote_data:
  "ctl cfg N s \<Longrightarrow> take_remote_data L cfg x buffer n timed s = Some (r, s') \<Longrightarrow> ctl cfg N s'"
  by (auto simp: take_remote_data_def split: if_splits bind_splits intro: ctl_steps)

lemma ctl_recv_common:
  "ctl cfg N s \<Longrightarrow> recv_common L cfg i x buffer n timed s = Some (r, s') \<Longrightarrow> ctl cfg N s'"
  by (auto simp: recv_common_def Let_def split: if_splits dest: ctl_take_remote_data)

lemma ctl_recvfrom_common:
  "ctl cfg N s \<Longrightarrow> recvfrom_common L cfg i x buffer n timed s = Some (r, s') \<Longrightarrow> ctl cfg N s'"
  by (auto simp: recvfrom_common_def Let_def split: if_splits bind_splits dest: ctl_take_remote_data)

lemma ctl_notify_from:
  "ctl cfg N s \<Longrightarrow> notify_from cfg e i k s = Some s' \<Longrightarrow> ctl cfg N s'"
proof (induction k arbitrary: i s)
  case (Suc k)
  from Suc.prems(2) obtain r s1 where "enqueue cfg i 0 e s = Some (r, s1)"
    "notify_from cfg e (i + 1) k s1 = Some s'" by (auto split: bind_splits)
  with Suc.IH ctl_enqueue [OF Suc.prems(1)] show ?case by blast
qed simp

lemma ctl_notify_all: "ctl cfg N s \<Longrightarrow> notify_all cfg e s = Some s' \<Longrightarrow> ctl cfg N s'"
  unfolding notify_all_def by (rule ctl_notify_from)

lemma ctl_set_client_data_case:
  assumes "ctl cfg N s" "set_client_data_case cfg i x d s = (r, s')" "i \<noteq> DEINIT"
  shows "ctl cfg N s'"
proof (cases "status (find_client_connection cfg i x s) = XTCP_SUCCESS")
  case True
  then have "in_range cfg x" "c_client_num (conn s x) = i"
    by (auto simp: find_client_connection_eq split: if_splits)
  with assms(3) table_inv_entry [OF ctlD(1) [OF assms(1)], of x]
  have "c_is_active (conn s x) \<noteq> 0" by (auto simp: entry_ok_def)
  with True assms(1,2) show ?thesis
    by (auto simp: set_client_data_case_def split: prod.splits intro: ctl_set_client_data)
next
  case False
  with assms(1,2) show ?thesis by (simp add: set_client_data_case_def Let_def)
qed

lemma ctl_setsockopt:
  "ctl cfg N s \<Longrightarrow> shim_setsockopt F L cfg i x level opt value n s = Some (r, s') \<Longrightarrow> ctl cfg N s'"
  by (auto simp: shim_setsockopt_def shim_ip_setsockopt_def Let_def
      split: if_splits option.splits xtcp_socket_level_t.splits xtcp_ip_socket_option_t.splits bind_splits)

lemma ctl_multicast:
  "ctl cfg N (sys v) \<Longrightarrow> ctl cfg N (sys (multicast_case E call (shim_join_multicast_group L) addr v))"
  "ctl cfg N (sys v) \<Longrightarrow> ctl cfg N (sys (multicast_case E call (shim_leave_multicast_group L) addr v))"
  by (auto simp: multicast_case_def shim_join_multicast_group_def shim_leave_multicast_group_def Let_def
      split: prod.splits option.splits bool.splits)

lemma ctl_request_host:
  "ctl cfg N s \<Longrightarrow> ctl cfg N (snd (request_host_case E L i h d s))"
  by (auto simp: request_host_case_def shim_request_host_by_name_def Let_def split: prod.splits)

lemma ctl_mii:
  "ctl cfg N (sys v) \<Longrightarrow> mii_case F E L cfg pkts v = Some v' \<Longrightarrow> ctl cfg N (sys v')"
proof (induction pkts arbitrary: v)
  case (Cons pkt pkts)
  from Cons.prems(2) obtain r s1 where
    run: "run_lwip (handle_callback F L cfg) (ethernetif_input E (fst pkt) (snd pkt) 0 (lw (sys v))) (sys v) = Some (r, s1)"
    and rest: "mii_case F E L cfg pkts (v\<lparr>sys := s1, eth_calls := eth_calls v @ [Mii_release_packet (fst pkt)]\<rparr>) = Some v'"
    by (auto simp: bind_eq_Some_conv)
  show ?case by (rule Cons.IH [OF _ rest]) (use ctl_run_lwip [OF Cons.prems(1) run] in simp)
qed simp

lemma mii_frame:
  "mii_case F E L cfg pkts v = Some v' \<Longrightarrow>
   period v' = period v \<and> timeout v' = timeout v \<and> netif_notify_state v' = netif_notify_state v"
  by (induction pkts arbitrary: v) (auto simp: bind_eq_Some_conv)

lemma ctl_link:
  "ctl cfg N (sys v) \<Longrightarrow> link_case F E L cfg up v = Some v' \<Longrightarrow> ctl cfg N (sys v')"
  by (auto simp: link_case_def split: if_splits bind_splits;
      blast intro: ctl_run_lwip [rotated] ctl_notify_all [rotated])

lemma ctl_timer:
  "ctl cfg N (sys v) \<Longrightarrow> timer_case F E L cfg i v = Some v' \<Longrightarrow> ctl cfg N (sys v')"
  by (auto simp: timer_case_def Let_def split: if_splits bind_splits;
      blast intro: ctl_run_lwip [rotated] ctl_notify_all [rotated])

section \<open>One turn of the loop\<close>

fun caller :: "server_input \<Rightarrow> u32 option" where
  "caller (Packet_data b n ts) = None"
| "caller (Link_status up) = None"
| "caller (Mii_packets pkts) = None"
| "caller (Get_event i) = Some i"
| "caller (Socket i p) = Some i"
| "caller (Close i x) = Some i"
| "caller (Abort i x) = Some i"
| "caller (Listen i x p a) = Some i"
| "caller (Connect i x p a) = Some i"
| "caller (Send i x b n t) = Some i"
| "caller (Sendto i x b n a p t) = Some i"
| "caller (Recv i x b n t) = Some i"
| "caller (Recvfrom i x b n t) = Some i"
| "caller (Set_connection_client_data i x d) = Some i"
| "caller (Get_connection_client_data i x) = Some i"
| "caller (Join_multicast_group i a) = Some i"
| "caller (Leave_multicast_group i a) = Some i"
| "caller (Request_host_by_name i h d) = Some i"
| "caller (Get_netif_ipconfig i x) = Some i"
| "caller (Get_ipconfig_remote i x) = Some i"
| "caller (Get_ipconfig_local i x) = Some i"
| "caller (Getsockopt i x l opt v n) = Some i"
| "caller (Setsockopt i x l opt v n) = Some i"
| "caller (Is_ifup i) = Some i"
| "caller (Timer i) = None"

lemma reply_sys_simps [simp]: "sys (snd (reply_sys v f r)) = snd r"
  by (simp add: reply_sys_def)

lemma reply_sys_eq: "reply_sys v f x = (r, v') \<Longrightarrow> sys v' = snd x"
  by (auto simp: reply_sys_def)

lemma ctl_server_step:
  assumes "ctl cfg N (sys v)" "server_step F E L cfg inp v = Some (r, v')"
    and "\<And>c. caller inp = Some c \<Longrightarrow> N c \<and> c \<noteq> DEINIT"
  shows "ctl cfg N (sys v')"
proof (cases inp)
  case (Packet_data b n ts)
  with assms(1,2) show ?thesis by (auto dest!: reply_sys_eq intro: ctl_run_lwip)
next
  case (Link_status up)
  with assms(1,2) show ?thesis by (auto intro: ctl_link)
next
  case (Mii_packets pkts)
  with assms(1,2) show ?thesis by (auto intro: ctl_mii)
next
  case (Get_event i)
  with assms(1,2) show ?thesis by (auto intro: ctl_get_event)
next
  case (Socket i p)
  with assms(2) obtain k s' where "shim_new_socket F L cfg i p (sys v) = Some (k, s')" "sys v' = s'"
    by (auto simp: socket_case_def reply_sys_def bind_eq_Some_conv)
  with ctl_new_socket [OF assms(1)] assms(3) [of i] Socket show ?thesis by auto
next
  case (Set_connection_client_data i x d)
  with assms(2) obtain k where "set_client_data_case cfg i x d (sys v) = (k, sys v')"
    by (auto simp: reply_sys_def prod_eq_iff)
  with ctl_set_client_data_case [OF assms(1)] assms(3) [of i] Set_connection_client_data show ?thesis by auto
next
  case (Listen i x p a)
  with assms(2) have "shim_listen L cfg i x p a (sys v) =
      (fst (shim_listen L cfg i x p a (sys v)), sys v')" by (auto simp: reply_sys_def)
  with ctl_listen [OF assms(1)] show ?thesis by blast
next
  case (Connect i x p a)
  with assms(2) have "connect_case L cfg i x p a (sys v) =
      (fst (connect_case L cfg i x p a (sys v)), sys v')" by (auto simp: reply_sys_def)
  with assms(1) ctl_connect [OF assms(1)] show ?thesis
    by (auto simp: connect_case_def Let_def split: if_splits)
next
  case (Close i x)
  with assms(1,2) show ?thesis by (auto intro: ctl_close)
next
  case (Abort i x)
  with assms(1,2) show ?thesis by (auto intro: ctl_close)
next
  case (Send i x b n t)
  with assms(1,2) show ?thesis by (auto dest!: reply_sys_eq intro: ctl_send_common)
next
  case (Sendto i x b n a p t)
  with assms(1,2) show ?thesis by (auto dest!: reply_sys_eq intro: ctl_sendto_common)
next
  case (Recv i x b n t)
  with assms(1,2) show ?thesis by (auto dest!: reply_sys_eq intro: ctl_recv_common)
next
  case (Recvfrom i x b n t)
  with assms(1,2) show ?thesis by (auto dest!: reply_sys_eq intro: ctl_recvfrom_common)
next
  case (Setsockopt i x l opt val n)
  with assms(1,2) show ?thesis by (auto dest!: reply_sys_eq intro: ctl_setsockopt)
next
  case (Request_host_by_name i h d)
  with assms(1,2) show ?thesis by (auto dest!: reply_sys_eq simp: ctl_request_host)
next
  case (Timer i)
  with assms(1,2) show ?thesis by (auto intro: ctl_timer)
qed (use assms(1,2) in \<open>auto simp: ctl_multicast\<close>)

section \<open>Every reachable state\<close>

text \<open>
  The states of a server with \<open>n\<close> clients: the one its initialisation leaves, starting
  from the zeroed statics of the program, and those its loop reaches from there.
\<close>

inductive server_reach ::
  "lwip_flags \<Rightarrow> 'w environment \<Rightarrow> 'w lwip \<Rightarrow> xtcp_config \<Rightarrow> u32 \<Rightarrow> 'w server_state \<Rightarrow> bool"
  for F E L cfg n where
  start: "server_init E cfg n ipconfig time_now s = Some v \<Longrightarrow>
     last_guid s = 0 \<Longrightarrow> notify (queues s) = notify_start \<Longrightarrow> server_reach F E L cfg n v"
| turn: "server_reach F E L cfg n v \<Longrightarrow> (\<And>c. caller inp = Some c \<Longrightarrow> c < n) \<Longrightarrow>
     server_step F E L cfg inp v = Some (r, v') \<Longrightarrow> server_reach F E L cfg n v'"

lemma ctl_server_init:
  assumes "server_init E cfg n ipconfig time_now s = Some v" "last_guid s = 0" "config_ok cfg"
  shows "ctl cfg (\<lambda>c. n = 0 \<or> c < n) (sys v)"
proof -
  obtain nt st where nt: "client_init_notification cfg n (notify (queues s)) = Some nt"
    and v: "sys v = init_client_connections cfg (s\<lparr>lw := st,
      queues := xtcp_init_queue cfg ((queues s)\<lparr>notify := nt\<rparr>)\<rparr>)"
    using assms(1)
    by (cases "xcore_lwip_init_timers E (replicate (NUM_TIMEOUTS E) (XS1_TIMER_KHZ E)) time_now")
      (auto simp: server_init_def upd_lw_def Let_def bind_eq_Some_conv split: if_splits)
  let ?s = "s\<lparr>lw := st, queues := xtcp_init_queue cfg ((queues s)\<lparr>notify := nt\<rparr>)\<rparr>"
  have g: "0 \<le> last_guid ?s" "last_guid ?s \<le> int (MAX_OPEN_SOCKETS cfg)"
    using assms(2) by simp_all
  have q: "queues (sys v) = xtcp_init_queue cfg ((queues s)\<lparr>notify := nt\<rparr>)"
    by (simp add: v init_client_connections_def)
  have "notifiable nt c \<longleftrightarrow> n = 0 \<or> c < n" for c
    using nt by (auto simp: client_init_notification_def notifiable_def word_less_nat_alt split: if_splits)
  moreover have "notify_inv nt" using nt by (auto simp: client_init_notification_def notify_inv_def split: if_splits)
  ultimately show ?thesis
    using init_client_connections_inv [OF assms(3) g] xtcp_init_queue_inv [OF assms(3)] v q
    by (auto intro!: ctlI simp: awake_def xtcp_init_queue_queued fun_eq_iff)
qed

lemma server_reach_ctl:
  assumes "server_reach F E L cfg n v" "config_ok cfg"
  shows "ctl cfg (\<lambda>c. n = 0 \<or> c < n) (sys v)"
  using assms(1)
proof induction
  case (start ipconfig time_now s v)
  then show ?case using ctl_server_init assms(2) by blast
next
  case (turn v inp r v')
  have "c < n \<Longrightarrow> c \<noteq> DEINIT" for c by (auto simp: DEINIT_def)
  with turn show ?case by (auto intro!: ctl_server_step [OF turn.IH turn.hyps(3)])
qed

end
