(* ===== verification/Service_Spec.thy ===== *)
theory Service_Spec
  imports Server_Properties Server_Invariant
begin

text \<open>
  The socket service that the library offers, without tables, rings, chains and lwIP: who owns
  which socket, the events waiting for each client, and the packets waiting on each socket. The network
  changes it on its own (\<open>net_step\<close>); a turn of the server is \<open>service_turn\<close>. The
  locale at the end carries a simulation from turns to runs.
\<close>

section \<open>State\<close>

text \<open>A packet as a client sees it: bytes, timestamp and sender.\<close>

type_synonym packet = "u8 list \<times> u32 \<times> xtcp_host_t"

record service =
  sv_owner :: owner_map
  sv_events :: fifo
  sv_data :: "int \<Rightarrow> packet list"

definition empty_service :: service where
  "empty_service = \<lparr>sv_owner = Map.empty, sv_events = (\<lambda>_. []), sv_data = (\<lambda>_. [])\<rparr>"

definition tell :: "xtcp_config \<Rightarrow> u32 \<Rightarrow> int \<Rightarrow> xtcp_event_type_t \<Rightarrow> fifo \<Rightarrow> fifo" where
  "tell cfg c x e f = snd (fifo_enq (valid_client cfg) (CLIENT_QUEUE_SIZE cfg) c x e f)"

text \<open>An announcement reaches each of the \<open>n\<close> clients that has room.\<close>

definition announce :: "xtcp_config \<Rightarrow> u32 \<Rightarrow> xtcp_event_type_t \<Rightarrow> service \<Rightarrow> service" where
  "announce cfg n e A =
     A\<lparr>sv_events := (\<lambda>c. if c < n then tell cfg c 0 e (sv_events A) c else sv_events A c)\<rparr>"

section \<open>The network\<close>

text \<open>
  \<open>failure\<close> leaves the packets of the socket in place, as the library does.
\<close>

inductive net_step :: "xtcp_config \<Rightarrow> service \<Rightarrow> service \<Rightarrow> bool" for cfg where
  notice: "sv_owner A x = Some (c, p) \<Longrightarrow> e \<in> {XTCP_NEW_CONNECTION, XTCP_SENT_DATA, XTCP_CLOSED} \<Longrightarrow>
     net_step cfg A (A\<lparr>sv_events := tell cfg c x e (sv_events A)\<rparr>)"
| arrival: "sv_owner A x = Some (c, p) \<Longrightarrow> e \<in> {XTCP_RECV_DATA, XTCP_RECV_FROM_DATA} \<Longrightarrow>
     length (sv_events A c) < CLIENT_QUEUE_SIZE cfg \<Longrightarrow>
     net_step cfg A (A\<lparr>sv_events := tell cfg c x e (sv_events A),
       sv_data := (sv_data A)(x := sv_data A x @ [pkt])\<rparr>)"
| accept: "sv_owner A x = Some (c, XTCP_PROTOCOL_TCP) \<Longrightarrow> sv_owner A y = None \<Longrightarrow>
     net_step cfg A (A\<lparr>sv_owner := (sv_owner A)(y \<mapsto> (c, XTCP_PROTOCOL_TCP)),
       sv_events := tell cfg c y XTCP_ACCEPTED (sv_events A)\<rparr>)"
| failure: "sv_owner A x = Some (c, p) \<Longrightarrow> e \<in> {XTCP_ABORTED, XTCP_TIMED_OUT} \<Longrightarrow>
     net_step cfg A (A\<lparr>sv_owner := (sv_owner A)(x := None), sv_events := tell cfg c x e (sv_events A)\<rparr>)"
| silent_failure: "sv_owner A x = Some (c, p) \<Longrightarrow> net_step cfg A (A\<lparr>sv_owner := (sv_owner A)(x := None)\<rparr>)"
| answer: "k \<in> {XTCP_SUCCESS, XTCP_ENOMEM, XTCP_EINVAL} \<Longrightarrow>
     net_step cfg A (A\<lparr>sv_events := tell cfg c (error_code k) XTCP_DNS_RESULT (sv_events A)\<rparr>)"

abbreviation net_steps :: "xtcp_config \<Rightarrow> service \<Rightarrow> service \<Rightarrow> bool" where
  "net_steps cfg \<equiv> (net_step cfg)\<^sup>*\<^sup>*"

section \<open>Calls\<close>

definition owns :: "service \<Rightarrow> u32 \<Rightarrow> int \<Rightarrow> bool" where
  "owns A c x \<longleftrightarrow> (\<exists>p. sv_owner A x = Some (c, p))"

text \<open>
  Reading takes the oldest packet of the socket; if it does not fit, it is taken all the same and the
  call returns \<open>XTCP_EAGAIN\<close>. The result is the return value, the client's array
  and the timestamp.
\<close>

definition sv_read ::
  "int \<Rightarrow> u8 list \<Rightarrow> u32 \<Rightarrow> bool \<Rightarrow> service \<Rightarrow> (int \<times> u8 list \<times> u32 option) \<times> service" where
  "sv_read x buffer len timed A =
     (case sv_data A x of
        [] \<Rightarrow> ((error_code XTCP_EINVAL, buffer, if timed then Some 0 else None), A)
      | (bytes, ts, h) # rest \<Rightarrow>
          (if length bytes \<le> unat len
           then ((int (length bytes), bytes @ drop (length bytes) buffer, if timed then Some ts else None),
                 A\<lparr>sv_data := (sv_data A)(x := rest)\<rparr>)
           else ((error_code XTCP_EAGAIN, buffer, if timed then Some ts else None),
                 A\<lparr>sv_data := (sv_data A)(x := rest)\<rparr>)))"

definition sv_sender :: "int \<Rightarrow> service \<Rightarrow> xtcp_host_t" where
  "sv_sender x A = (case sv_data A x of [] \<Rightarrow> no_host | (bytes, ts, h) # _ \<Rightarrow> h)"

definition sv_recv :: "u32 \<Rightarrow> int \<Rightarrow> u8 list \<Rightarrow> u32 \<Rightarrow> bool \<Rightarrow> service \<Rightarrow> reply \<times> service" where
  "sv_recv c x buffer len timed A =
     (if owns A c x
      then case sv_read x buffer len timed A of ((n, b, ts), A') \<Rightarrow> (Data_reply n b ts, A')
      else (Data_reply (error_code XTCP_EINVAL) buffer None, A))"

definition sv_recvfrom :: "u32 \<Rightarrow> int \<Rightarrow> u8 list \<Rightarrow> u32 \<Rightarrow> bool \<Rightarrow> service \<Rightarrow> reply \<times> service" where
  "sv_recvfrom c x buffer len timed A =
     (if \<not> owns A c x then (From_reply (error_code XTCP_EINVAL) buffer None None, A)
      else if map_option snd (sv_owner A x) = Some XTCP_PROTOCOL_TCP
      then (From_reply (error_code XTCP_EPROTONOSUPPORT) buffer None None, A)
      else case sv_read x buffer len timed A of
             ((n, b, ts), A') \<Rightarrow> (From_reply n b ts (Some (sv_sender x A)), A'))"

definition sv_close :: "u32 \<Rightarrow> int \<Rightarrow> service \<Rightarrow> service" where
  "sv_close c x A =
     (if owns A c x
      then A\<lparr>sv_owner := (sv_owner A)(x := None), sv_events := snd (fifo_purge c x (sv_events A)),
             sv_data := (sv_data A)(x := [])\<rparr>
      else A)"

text \<open>
  Opening a socket takes a free id; while lwIP makes a TCP control block the network may go on. The
  client gets the id, or an error code although the id is taken; with no id free, an error
  code and no change.
\<close>

definition sv_socket :: "xtcp_config \<Rightarrow> u32 \<Rightarrow> xtcp_protocol_t \<Rightarrow> int \<Rightarrow> service \<Rightarrow> service \<Rightarrow> bool" where
  "sv_socket cfg c p k A A' \<longleftrightarrow>
     (\<exists>x. in_range cfg x \<and> sv_owner A x = None \<and> (k = x \<or> k < 0) \<and>
        (let A1 = A\<lparr>sv_owner := (sv_owner A)(x \<mapsto> (c, p))\<rparr>
         in if p = XTCP_PROTOCOL_TCP then net_steps cfg A1 A' else A' = A1)) \<or>
     (\<forall>x. in_range cfg x \<longrightarrow> sv_owner A x \<noteq> None) \<and> k < 0 \<and> A' = A"

section \<open>Turns\<close>

text \<open>
  The calls not listed change nothing that a client sees here; those on a socket are refused unless
  the caller owns it.
\<close>

fun service_turn :: "xtcp_config \<Rightarrow> u32 \<Rightarrow> server_input \<Rightarrow> reply \<Rightarrow> service \<Rightarrow> service \<Rightarrow> bool" where
  "service_turn cfg n (Packet_data b m ts) r A A' \<longleftrightarrow> r = Unit \<and> net_steps cfg A A'"
| "service_turn cfg n (Mii_packets pkts) r A A' \<longleftrightarrow> r = Unit \<and> net_steps cfg A A'"
| "service_turn cfg n (Link_status up) r A A' \<longleftrightarrow>
     r = Unit \<and> (\<exists>A1. net_steps cfg A A1 \<and> A' = (if up then A1 else announce cfg n XTCP_IFDOWN A1))"
| "service_turn cfg n (Timer i) r A A' \<longleftrightarrow>
     r = Unit \<and> (\<exists>A1. net_steps cfg A A1 \<and> (A' = A1 \<or> i = 0 \<and> A' = announce cfg n XTCP_IFUP A1))"
| "service_turn cfg n (Get_event c) r A A' \<longleftrightarrow>
     (let x = fst (fifo_deq c (sv_events A)) in r = Event_reply (xtcp_event x) (ev_id x)) \<and>
     A' = A\<lparr>sv_events := snd (fifo_deq c (sv_events A))\<rparr>"
| "service_turn cfg n (Socket c p) r A A' \<longleftrightarrow> (\<exists>k. r = Int_reply k \<and> sv_socket cfg c p k A A')"
| "service_turn cfg n (Close c x) r A A' \<longleftrightarrow> r = Unit \<and> A' = sv_close c x A"
| "service_turn cfg n (Abort c x) r A A' \<longleftrightarrow> r = Unit \<and> A' = sv_close c x A"
| "service_turn cfg n (Recv c x b m t) r A A' \<longleftrightarrow> (r, A') = sv_recv c x b m t A"
| "service_turn cfg n (Recvfrom c x b m t) r A A' \<longleftrightarrow> (r, A') = sv_recvfrom c x b m t A"
| "service_turn cfg n inp r A A' \<longleftrightarrow>
     A' = A \<and> (case socket_call inp of Some (c, x) \<Rightarrow> owns A c x \<or> r = refusal inp | None \<Rightarrow> True)"

text \<open>The calls of the last line.\<close>

fun quiet_call :: "server_input \<Rightarrow> bool" where
  "quiet_call (Get_event c) = False"
| "quiet_call (Socket c p) = False"
| "quiet_call (Close c x) = False"
| "quiet_call (Abort c x) = False"
| "quiet_call (Recv c x b m t) = False"
| "quiet_call (Recvfrom c x b m t) = False"
| "quiet_call inp = (caller inp \<noteq> None)"

lemma service_turn_quiet:
  "quiet_call inp \<Longrightarrow> service_turn cfg n inp r A A' \<longleftrightarrow>
     A' = A \<and> (case socket_call inp of Some (c, x) \<Rightarrow> owns A c x \<or> r = refusal inp | None \<Rightarrow> True)"
  by (cases inp) simp_all

section \<open>From turns to runs\<close>

text \<open>A run with the inputs it takes and the replies it gives.\<close>

inductive run_of :: "('i \<Rightarrow> 'r \<Rightarrow> 'a \<Rightarrow> 'a \<Rightarrow> bool) \<Rightarrow> 'a \<Rightarrow> ('i \<times> 'r) list \<Rightarrow> 'a \<Rightarrow> bool" for turn A where
  stop: "run_of turn A [] A"
| step: "run_of turn A tr A1 \<Longrightarrow> turn i r A1 A' \<Longrightarrow> run_of turn A (tr @ [(i, r)]) A'"

definition conc_turn ::
  "('i \<Rightarrow> 'c \<Rightarrow> ('r \<times> 'c) option) \<Rightarrow> ('i \<Rightarrow> 'c \<Rightarrow> bool) \<Rightarrow> 'i \<Rightarrow> 'r \<Rightarrow> 'c \<Rightarrow> 'c \<Rightarrow> bool" where
  "conc_turn conc proper i r v v' \<longleftrightarrow> proper i v \<and> conc i v = Some (r, v')"

locale simulation =
  fixes conc :: "'i \<Rightarrow> 'c \<Rightarrow> ('r \<times> 'c) option"
    and proper :: "'i \<Rightarrow> 'c \<Rightarrow> bool"
    and turn :: "'i \<Rightarrow> 'r \<Rightarrow> 'a \<Rightarrow> 'a \<Rightarrow> bool"
    and rel :: "'c \<Rightarrow> 'a \<Rightarrow> bool"
  assumes sim: "rel v A \<Longrightarrow> proper i v \<Longrightarrow>
    \<exists>r v' A'. conc i v = Some (r, v') \<and> turn i r A A' \<and> rel v' A'"
begin

lemma run_refines:
  assumes "run_of (conc_turn conc proper) v tr v'" "rel v A"
  shows "\<exists>A'. run_of turn A tr A' \<and> rel v' A'"
  using assms(1)
proof induction
  case stop
  show ?case using assms(2) by (intro exI [of _ A] conjI run_of.stop)
next
  case (step tr v1 i r v')
  then obtain A1 where A1: "run_of turn A tr A1" "rel v1 A1" by blast
  have i: "proper i v1" "conc i v1 = Some (r, v')" using step.hyps(2) by (simp_all add: conc_turn_def)
  from sim [OF A1(2) i(1)] i(2) obtain A' where A': "turn i r A1 A'" "rel v' A'" by auto
  show ?case by (intro exI [of _ A'] conjI run_of.step [OF A1(1)] A')
qed

end

section \<open>Purging\<close>

text \<open>
  Inputs of others (\<open>other\<close>) are not noticed in a part of the abstract state that \<open>same\<close> compares,
  and the replies to one's own inputs (\<open>mine\<close>) depend on that part only. Then a run gives one the
  same replies as the run without the others.
\<close>

locale unwinding = simulation conc proper turn rel
  for conc :: "'i \<Rightarrow> 'c \<Rightarrow> ('r \<times> 'c) option"
    and proper :: "'i \<Rightarrow> 'c \<Rightarrow> bool"
    and turn :: "'i \<Rightarrow> 'r \<Rightarrow> 'a \<Rightarrow> 'a \<Rightarrow> bool"
    and rel :: "'c \<Rightarrow> 'a \<Rightarrow> bool" +
  fixes same :: "'a \<Rightarrow> 'a \<Rightarrow> bool"
    and other :: "'i \<Rightarrow> bool"
    and mine :: "'i \<Rightarrow> bool"
  assumes same_refl: "same A A"
    and respects: "other i \<Longrightarrow> turn i r A A' \<Longrightarrow> same A B \<Longrightarrow> same A' B"
    and consistent: "mine i \<Longrightarrow> turn i r A A' \<Longrightarrow> turn i r' B B' \<Longrightarrow> same A B \<Longrightarrow> r = r' \<and> same A' B'"
    and enabled: "mine i \<Longrightarrow> proper i v \<Longrightarrow> proper i w"
begin

lemma purged_run:
  assumes "run_of (conc_turn conc proper) v tr v'" "rel v A" "\<forall>(i, r) \<in> set tr. other i \<or> mine i"
  shows "\<exists>A' w B. rel v' A' \<and> run_of (conc_turn conc proper) v (filter (\<lambda>(i, r). mine i) tr) w \<and> rel w B \<and> same A' B"
  using assms(1,3)
proof induction
  case stop
  show ?case using assms(2) same_refl by (auto intro: run_of.stop)
next
  case (step tr v1 i r v2)
  then obtain A1 w1 B1 where h: "rel v1 A1" "run_of (conc_turn conc proper) v (filter (\<lambda>(i, r). mine i) tr) w1"
    "rel w1 B1" "same A1 B1" by auto
  have i: "proper i v1" "conc i v1 = Some (r, v2)" using step.hyps(2) by (simp_all add: conc_turn_def)
  from sim [OF h(1) i(1)] i(2) obtain A2 where A2: "turn i r A1 A2" "rel v2 A2" by auto
  show ?case
  proof (cases "mine i")
    case True
    have w: "proper i w1" by (rule enabled [OF True i(1)])
    from sim [OF h(3) this] obtain r' w2 B2 where w2: "conc i w1 = Some (r', w2)" "turn i r' B1 B2" "rel w2 B2" by auto
    have "r = r'" "same A2 B2" using consistent [OF True A2(1) w2(2) h(4)] by simp_all
    moreover have "run_of (conc_turn conc proper) v (filter (\<lambda>(i, r). mine i) tr @ [(i, r)]) w2"
      by (rule run_of.step [OF h(2)]) (use w w2(1) \<open>r = r'\<close> in \<open>simp add: conc_turn_def\<close>)
    ultimately show ?thesis using True A2(2) w2(3) by auto
  next
    case False
    then have "other i" using step.prems by simp
    from respects [OF this A2(1) h(4)] False A2(2) h(2,3) show ?thesis by auto
  qed
qed

end

end
