(* ===== verification/Memory_Safety.thy ===== *)
theory Memory_Safety
  imports Address_Properties Server_Invariant Service_Spec
begin

unbundle bit_operations_syntax

text \<open>
  When the server cannot run into undefined behaviour, and what it then offers. The invariant of the
  received buffers is added to the control invariant, together with the abstract service that the
  state stands for; what lwIP may do is stated call by call; and every operation is shown to
  return, to keep the invariants and to follow the service. One condition on lwIP's callbacks is not
  lwIP's to keep but a defect of the library: a datagram needs room in its owner's event queue.
\<close>

section \<open>The invariant\<close>

definition buffer_ok :: "pbuf \<Rightarrow> bool" where
  "buffer_ok b \<longleftrightarrow> unat (pb_len b) \<le> length (pb_payload b)"

definition packet_of :: "addr \<times> pbuf \<Rightarrow> packet" where
  "packet_of x = (take (unat (pb_len (snd x))) (pb_payload (snd x)), pb_timestamp (snd x), pb_remote (snd x))"

definition view :: "xtcp_config \<Rightarrow> rx \<Rightarrow> 'w xtcp_state \<Rightarrow> service" where
  "view cfg R s =
     \<lparr>sv_owner = owner cfg s, sv_events = queued (queues s), sv_data = (\<lambda>i. map packet_of (R i))\<rparr>"

text \<open>The memory is in order and stands for the service \<open>A\<close>.\<close>

definition mem_inv :: "xtcp_config \<Rightarrow> ('w \<Rightarrow> addr set) \<Rightarrow> service \<Rightarrow> 'w xtcp_state \<Rightarrow> bool" where
  "mem_inv cfg held A s \<longleftrightarrow>
     (\<exists>R. rx_rel cfg held s R \<and> (\<forall>i a b. (a, b) \<in> set (R i) \<longrightarrow> buffer_ok b) \<and> A = view cfg R s)"

definition safe :: "xtcp_config \<Rightarrow> (u32 \<Rightarrow> bool) \<Rightarrow> ('w \<Rightarrow> addr set) \<Rightarrow> service \<Rightarrow> 'w xtcp_state \<Rightarrow> bool" where
  "safe cfg N held A s \<longleftrightarrow> ctl cfg N s \<and> mem_inv cfg held A s"

lemma view_simps [simp]:
  "sv_owner (view cfg R s) = owner cfg s" "sv_events (view cfg R s) = queued (queues s)"
  "sv_data (view cfg R s) i = map packet_of (R i)"
  by (simp_all add: view_def)

lemma mem_invI:
  "rx_rel cfg held s R \<Longrightarrow> (\<And>i a b. (a, b) \<in> set (R i) \<Longrightarrow> buffer_ok b) \<Longrightarrow>
   mem_inv cfg held (view cfg R s) s"
  by (auto simp: mem_inv_def)

lemma sys_mem_inv:
  "sys_inv cfg held s R \<Longrightarrow> (\<And>i a b. (a, b) \<in> set (R i) \<Longrightarrow> buffer_ok b) \<Longrightarrow>
   mem_inv cfg held (view cfg R s) s"
  by (auto simp: sys_inv_def intro: mem_invI)

lemma ctl_sys_inv: "ctl cfg N s \<Longrightarrow> rx_rel cfg held s R \<Longrightarrow> sys_inv cfg held s R"
  by (auto simp: ctl_def sys_inv_def clients_ok_def)

lemma safeE:
  assumes "safe cfg N held A s"
  obtains R where "sys_inv cfg held s R" "\<And>i a b. (a, b) \<in> set (R i) \<Longrightarrow> buffer_ok b" "A = view cfg R s"
  using assms by (auto simp: safe_def mem_inv_def intro: ctl_sys_inv)

lemma safeD: "safe cfg N held A s \<Longrightarrow> ctl cfg N s" "safe cfg N held A s \<Longrightarrow> mem_inv cfg held A s"
  by (simp_all add: safe_def)

lemma mem_fields: "mem_inv cfg held A s \<Longrightarrow> sv_owner A = owner cfg s"
    "mem_inv cfg held A s \<Longrightarrow> sv_events A = queued (queues s)"
  by (auto simp: mem_inv_def)

text \<open>What leaves lwIP's state and the \<open>pbuf\<close> fields alone keeps the buffers.\<close>

lemma mem_table:
  assumes "mem_inv cfg held A s" "table_inv cfg s'" "lw s' = lw s"
    and "\<And>j. in_range cfg j \<Longrightarrow> c_pbuf (conn s' j) = c_pbuf (conn s j)"
  shows "mem_inv cfg held (A\<lparr>sv_owner := owner cfg s', sv_events := queued (queues s')\<rparr>) s'"
proof -
  obtain R where R: "rx_rel cfg held s R" "\<And>i a b. (a, b) \<in> set (R i) \<Longrightarrow> buffer_ok b" "A = view cfg R s"
    using assms(1) by (auto simp: mem_inv_def)
  from mem_invI [OF rx_rel_table [OF R(1) assms(2-4)] R(2)] show ?thesis by (simp add: R(3) view_def)
qed

text \<open>The same where the table and the events stay as they are.\<close>

lemma mem_silent:
  assumes "mem_inv cfg held A s" "table_inv cfg s'" "lw s' = lw s"
    and "\<And>j. in_range cfg j \<Longrightarrow> c_pbuf (conn s' j) = c_pbuf (conn s j)"
    and "owner cfg s' = owner cfg s" "queues s' = queues s"
  shows "mem_inv cfg held A s'"
  using mem_table [OF assms(1-4)] mem_fields [OF assms(1), symmetric] assms(5,6) by simp

lemma mem_queues:
  assumes "mem_inv cfg held A s"
  shows "mem_inv cfg held (A\<lparr>sv_events := queued q\<rparr>) (s\<lparr>queues := q\<rparr>)"
  using assms by (auto simp: mem_inv_def view_def)

lemma view_lw [simp]: "view cfg R (upd_lw f s) = view cfg R s" "view cfg R (s\<lparr>lw := st\<rparr>) = view cfg R s"
  by (simp_all add: view_def owner_def fun_eq_iff)

lemma mem_keeps: "mem_inv cfg held A s \<Longrightarrow> keeps held f \<Longrightarrow> mem_inv cfg held A (upd_lw f s)"
  unfolding mem_inv_def view_lw using rx_rel_keeps by blast

lemma mem_keeps_result:
  assumes "mem_inv cfg held A s" "keeps held (\<lambda>st. snd (f st))" "f (lw s) = (r, st)"
  shows "mem_inv cfg held A (s\<lparr>lw := st\<rparr>)"
  using mem_keeps [OF assms(1,2)] assms(3) by (simp add: upd_lw_def)

lemma mem_assign:
  assumes "mem_inv cfg held A s" "table_inv cfg s" "c \<noteq> DEINIT" "assign_client_connection cfg c p s = (r, s')"
  shows "mem_inv cfg held (A\<lparr>sv_owner := owner cfg s'\<rparr>) s'"
proof -
  have "mem_inv cfg held (A\<lparr>sv_owner := owner cfg s', sv_events := queued (queues s')\<rparr>) s'"
    by (rule mem_table [OF assms(1)])
      (use assign_client_connection_law [OF assms(2-4)] assign_lw [OF assms(4)]
         assign_pbufs [OF assms(2,4)] in simp_all)
  with mem_fields(2) [OF assms(1), symmetric] assign_queues [OF assms(4)] show ?thesis by simp
qed

lemma mem_upd_entry:
  assumes "mem_inv cfg held A s" "table_inv cfg s" "in_range cfg i"
    and "entry_ok (f (conn s i))" "c_pbuf (f (conn s i)) = c_pbuf (conn s i)"
    and "c_is_active (f (conn s i)) = c_is_active (conn s i)"
    and "c_client_num (f (conn s i)) = c_client_num (conn s i)" "c_protocol (f (conn s i)) = c_protocol (conn s i)"
  shows "mem_inv cfg held A (upd_conn i f s)"
proof (rule mem_silent [OF assms(1)])
  show "table_inv cfg (upd_conn i f s)" by (rule table_inv_upd_conn) (use assms in simp_all)
  show "c_pbuf (conn (upd_conn i f s) j) = c_pbuf (conn s j)" if "in_range cfg j" for j
    using conn_upd_conn [OF assms(2,3), of j] that assms(5) by (simp add: in_range_def)
  show "owner cfg (upd_conn i f s) = owner cfg s"
    using assms(3,6-8) by (simp add: owner_upd_conn [OF assms(2,3)] owner_def fun_eq_iff)
qed simp_all

lemma mem_set_pcb:
  assumes "mem_inv cfg held A s" "table_inv cfg s"
  shows "set_tcp_pcb cfg i p s = (r, s') \<Longrightarrow> mem_inv cfg held A s'"
    and "set_udp_pcb cfg i p s = (r, s') \<Longrightarrow> mem_inv cfg held A s'"
proof -
  have "mem_inv cfg held A (upd_conn i (\<lambda>c. c\<lparr>c_pcb := p\<rparr>) s)"
    if "in_range cfg i" "c_protocol (conn s i) \<noteq> XTCP_PROTOCOL_NONE"
    using that table_inv_entry [OF assms(2) that(1)]
    by (intro mem_upd_entry assms) (auto simp: entry_ok_def)
  with assms(1) show "set_tcp_pcb cfg i p s = (r, s') \<Longrightarrow> mem_inv cfg held A s'"
    "set_udp_pcb cfg i p s = (r, s') \<Longrightarrow> mem_inv cfg held A s'"
    by (auto simp: set_tcp_pcb_def set_udp_pcb_def split: if_splits)
qed

section \<open>Events\<close>

lemma tell_eq:
  "tell cfg c x e f =
     (if valid_client cfg c \<and> length (f c) < CLIENT_QUEUE_SIZE cfg then f(c := f c @ [event e x]) else f)"
  by (simp add: tell_def fifo_enq_def)

text \<open>A slot has an owner, or its client number is one that no event reaches.\<close>

lemma client_cases:
  assumes "ctl cfg N s"
  obtains (owned) p where "owner cfg s i = Some (get_client_info cfg i s, p)"
  | (vacant) "owner cfg s i = None" "\<not> valid_client cfg (get_client_info cfg i s)"
proof (cases "owner cfg s i")
  case None
  then have "get_client_info cfg i s = DEINIT"
    using table_inv_entry [OF ctlD(1) [OF assms], of i]
    by (auto simp: owner_def get_client_info_def entry_ok_def split: if_splits)
  with None vacant DEINIT_invalid queue_invD(1) [OF ctlD(2) [OF assms]] show thesis by simp
next
  case (Some cp)
  with owned show thesis by (auto simp: owner_def get_client_info_def split: if_splits)
qed

lemma safe_enqueue:
  assumes "safe cfg N held A s" "c = get_client_info cfg i s"
  shows "\<exists>r q. enqueue cfg c x e s = Some (r, s\<lparr>queues := q\<rparr>) \<and>
    mem_inv cfg held (A\<lparr>sv_events := tell cfg c x e (sv_events A)\<rparr>) (s\<lparr>queues := q\<rparr>)"
proof -
  obtain R where R: "sys_inv cfg held s R" "A = view cfg R s"
    using safeE [OF assms(1)] by blast
  obtain r q where q: "enqueue cfg c x e s = Some (r, s\<lparr>queues := q\<rparr>)"
    "(r, queued q) = fifo_enq (valid_client cfg) (CLIENT_QUEUE_SIZE cfg) c x e (queued (queues s))"
    using enqueue_client [OF R(1) assms(2)] by blast
  then have "queued q = tell cfg c x e (sv_events A)" by (simp add: tell_def R(2) flip: q(2))
  with mem_queues [OF safeD(2) [OF assms(1)], of q]
  have "mem_inv cfg held (A\<lparr>sv_events := tell cfg c x e (sv_events A)\<rparr>) (s\<lparr>queues := q\<rparr>)" by simp
  with q(1) show ?thesis by blast
qed

lemma safe_notice:
  assumes "safe cfg N held A s" "c = get_client_info cfg i s"
    and "e \<in> {XTCP_NEW_CONNECTION, XTCP_SENT_DATA, XTCP_CLOSED}"
  shows "\<exists>r q A'. enqueue cfg c i e s = Some (r, s\<lparr>queues := q\<rparr>) \<and> net_steps cfg A A' \<and>
    mem_inv cfg held A' (s\<lparr>queues := q\<rparr>)"
proof -
  let ?A = "A\<lparr>sv_events := tell cfg c i e (sv_events A)\<rparr>"
  obtain r q where q: "enqueue cfg c i e s = Some (r, s\<lparr>queues := q\<rparr>)" "mem_inv cfg held ?A (s\<lparr>queues := q\<rparr>)"
    using safe_enqueue [OF assms(1,2)] by blast
  from safeD(1) [OF assms(1)] have "net_steps cfg A ?A"
  proof (cases rule: client_cases [of cfg N s i])
    case (owned p)
    then have "sv_owner A i = Some (c, p)" using mem_fields(1) [OF safeD(2) [OF assms(1)]] assms(2) by simp
    then show ?thesis by (intro r_into_rtranclp net_step.notice assms(3))
  qed (use assms(2) in \<open>simp add: tell_eq\<close>)
  with q show ?thesis by blast
qed

section \<open>The callbacks\<close>

text \<open>
  What lwIP promises when it calls back: a received buffer is a single one, handed over with its
  payload and on no queue, the control block of a datagram is live, and a name lookup answers a
  client that exists. The last condition on a datagram is the library's own: a datagram that does not
  find room for its event is freed and left linked.
\<close>

definition handed_over :: "xtcp_config \<Rightarrow> ('w \<Rightarrow> addr set) \<Rightarrow> 'w xtcp_state \<Rightarrow> addr \<Rightarrow> bool" where
  "handed_over cfg held s p \<longleftrightarrow>
     p \<in> held (world (lw s)) \<and> (\<exists>b. pbufs (lw s) p = Some b \<and> pb_next b = None \<and> buffer_ok b) \<and>
     (\<forall>i as. in_range cfg i \<and> chain (pbufs (lw s)) (c_pbuf (conn s i)) as \<longrightarrow> p \<notin> set as)"

fun callback_ok :: "xtcp_config \<Rightarrow> ('w \<Rightarrow> addr set) \<Rightarrow> lwip_callback \<Rightarrow> 'w xtcp_state \<Rightarrow> bool" where
  "callback_ok cfg held (TcpEvent i pcb e p sz err) s \<longleftrightarrow>
     (\<forall>a. e = LWIP_EVENT_RECV \<and> p = Some a \<longrightarrow> handed_over cfg held s a)"
| "callback_ok cfg held (UdpRecv i upcb p remote port) s \<longleftrightarrow>
     (\<forall>a. p = Some a \<and> in_range cfg i \<longrightarrow> handed_over cfg held s a \<and> udp_pcbs (lw s) upcb \<noteq> None \<and>
        has_room cfg (get_client_info cfg i s) s)"
| "callback_ok cfg held (DnsFound name addr c) s \<longleftrightarrow> notifiable (notify (queues s)) c"

lemma handed_overD:
  assumes "handed_over cfg held s p" "sys_inv cfg held s R"
  obtains b where "rx_arrived held s R p b" "buffer_ok b"
proof -
  have rel: "rx_rel cfg held s R" using assms(2) by (simp add: sys_inv_def)
  have "p \<notin> fst ` set (R i)" for i
    using rx_relD(2,3) [OF rel, of i] assms(1) unfolding handed_over_def by (cases "in_range cfg i") force+
  with assms(1) that show thesis by (auto simp: handed_over_def rx_arrived_def)
qed

lemma handed_overI:
  assumes "rx_rel cfg held s R" "rx_arrived held s R p b" "buffer_ok b"
  shows "handed_over cfg held s p"
proof -
  have "p \<notin> set as" if "in_range cfg i" "chain (pbufs (lw s)) (c_pbuf (conn s i)) as" for i as
    using chain_unique [OF that(2) rx_relD(3) [OF assms(1) that(1)]] assms(2) by (simp add: rx_arrived_def)
  with assms(2,3) show ?thesis by (auto simp: handed_over_def rx_arrived_def)
qed

lemma buffer_ok_tag [simp]: "buffer_ok (tag_remote remote port b) = buffer_ok b"
  by (simp add: buffer_ok_def tag_remote_def)

section \<open>The callbacks return and follow the service\<close>

lemma view_arrival:
  assumes "owner cfg s' = owner cfg s"
    and "queued (queues s') = (queued (queues s))(c := queued (queues s) c @ [event e i])"
    and "has_room cfg c s"
  shows "view cfg (R(i := R i @ [x])) s' =
    (view cfg R s)\<lparr>sv_events := tell cfg c i e (sv_events (view cfg R s)),
       sv_data := (sv_data (view cfg R s))(i := sv_data (view cfg R s) i @ [packet_of x])\<rparr>"
  using assms by (simp add: view_def tell_eq has_room_def fun_eq_iff)

text \<open>Data that was taken, with its event, is an arrival.\<close>

lemma safe_arrival:
  assumes "safe cfg N held A s" "A = view cfg R s" "\<And>i a b. (a, b) \<in> set (R i) \<Longrightarrow> buffer_ok b"
    and "sys_inv cfg held s' (R(i := R i @ [(p, b)]))" "buffer_ok b" "sockets s' = sockets s"
    and "c = get_client_info cfg i s" "has_room cfg c s" "e \<in> {XTCP_RECV_DATA, XTCP_RECV_FROM_DATA}"
    and "queued (queues s') = (queued (queues s))(c := queued (queues s) c @ [event e i])"
  shows "\<exists>A'. net_steps cfg A A' \<and> mem_inv cfg held A' s'"
proof -
  note C = safeD(1) [OF assms(1)]
  from C obtain q where own: "owner cfg s i = Some (c, q)"
    by (rule client_cases [of cfg N s i]) (use assms(7,8) in \<open>auto simp: has_room_def\<close>)
  have room: "length (sv_events A c) < CLIENT_QUEUE_SIZE cfg" using assms(2,8) by (simp add: has_room_def)
  have "view cfg (R(i := R i @ [(p, b)])) s' =
      A\<lparr>sv_events := tell cfg c i e (sv_events A), sv_data := (sv_data A)(i := sv_data A i @ [packet_of (p, b)])\<rparr>"
    unfolding assms(2)
    by (rule view_arrival [OF sockets_owner(1) [OF assms(6) ctlD(1) [OF C]] assms(10,8)])
  moreover have "mem_inv cfg held (view cfg (R(i := R i @ [(p, b)])) s') s'"
    by (rule sys_mem_inv [OF assms(4)]) (use assms(3,5) in \<open>auto split: if_splits\<close>)
  moreover have "sv_owner A i = Some (c, q)" using own assms(2) by simp
  ultimately show ?thesis using net_step.arrival [OF _ assms(9) room, of i q] by (metis r_into_rtranclp)
qed

lemma safe_tcp_data:
  assumes "safe cfg N held A s" "handed_over cfg held s p"
  shows "\<exists>r s' A'. lwip_tcp_event L cfg i pcb LWIP_EVENT_RECV (Some p) sz err s = Some (r, s') \<and>
    net_steps cfg A A' \<and> mem_inv cfg held A' s'"
proof (cases "in_range cfg i")
  case True
  obtain R where R: "sys_inv cfg held s R" "\<And>i a b. (a, b) \<in> set (R i) \<Longrightarrow> buffer_ok b" "A = view cfg R s"
    using safeE [OF assms(1)] by blast
  obtain b where b: "rx_arrived held s R p b" "buffer_ok b" using handed_overD [OF assms(2) R(1)] by blast
  let ?c = "get_client_info cfg i s"
  obtain r s' where s': "lwip_tcp_event L cfg i pcb LWIP_EVENT_RECV (Some p) sz err s = Some (r, s')"
    "sockets s' = sockets s"
    "if has_room cfg ?c s
     then sys_inv cfg held s' (R(i := R i @ [(p, tag_remote None 0 b)])) \<and>
       queued (queues s') = (queued (queues s))(?c := queued (queues s) ?c @ [event XTCP_RECV_DATA i])
     else sys_inv cfg held s' R \<and> queues s' = queues s"
    using tcp_data [OF R(1) True b(1) refl, of L pcb sz err] by (auto split: if_splits)
  show ?thesis
  proof (cases "has_room cfg ?c s")
    case room: True
    have "\<exists>A'. net_steps cfg A A' \<and> mem_inv cfg held A' s'"
      by (rule safe_arrival [OF assms(1) R(3,2), where p = p and b = "tag_remote None 0 b" and e = XTCP_RECV_DATA])
        (use s' b(2) room in simp_all)
    with s'(1) show ?thesis by blast
  next
    case False
    with s'(3) have "sys_inv cfg held s' R" "queues s' = queues s" by simp_all
    with sys_mem_inv [OF this(1) R(2)] R(3) sockets_owner(1) [OF s'(2) ctlD(1) [OF safeD(1) [OF assms(1)]]]
    have "mem_inv cfg held A s'" by (simp add: view_def)
    with s'(1) show ?thesis by blast
  qed
qed (use assms in \<open>auto simp: lwip_tcp_event_defs safe_def\<close>)

lemma safe_shim_accept:
  assumes "safe cfg N held A s" "accept_contract L held" "get_protocol cfg i s = XTCP_PROTOCOL_TCP"
    and "c = get_client_info cfg i s" "shim_accept L cfg c (Some a) i s = (k, s')"
  shows "sv_owner A i = Some (c, XTCP_PROTOCOL_TCP) \<and>
    (if status k = XTCP_SUCCESS
     then sv_owner A (val k) = None \<and> c = get_client_info cfg i s' \<and>
       safe cfg N held (A\<lparr>sv_owner := (sv_owner A)(val k \<mapsto> (c, XTCP_PROTOCOL_TCP))\<rparr>) s'
     else safe cfg N held A s')"
proof -
  obtain R where R: "sys_inv cfg held s R" "\<And>i a b. (a, b) \<in> set (R i) \<Longrightarrow> buffer_ok b" "A = view cfg R s"
    using safeE [OF assms(1)] by blast
  note C = safeD(1) [OF assms(1)]
  have o: "owner cfg s i = Some (c, XTCP_PROTOCOL_TCP)"
    using assms(3,4) table_inv_entry [OF ctlD(1) [OF C], of i]
    by (auto simp: owner_def get_protocol_def get_client_info_def entry_ok_def split: if_splits)
  note B = sys_shim_accept [OF R(1) assms(2) o assms(5)]
  then have s': "safe cfg N held (view cfg R s') s'" "queues s' = queues s"
    using sys_mem_inv [of cfg held s' R] R(2) ctl_shim_accept [OF C assms(5) [unfolded assms(4)]]
    by (auto simp: safe_def)
  show ?thesis
  proof (cases "status k = XTCP_SUCCESS")
    case True
    with B have new: "owner cfg s (val k) = None" "owner cfg s' = (owner cfg s)(val k \<mapsto> (c, XTCP_PROTOCOL_TCP))"
      by (auto split: if_splits)
    then have "owner cfg s' i = Some (c, XTCP_PROTOCOL_TCP)" using o by auto
    then have "c = get_client_info cfg i s'" by (auto simp: owner_def get_client_info_def split: if_splits)
    with True o new s' R(3) show ?thesis by (simp add: view_def)
  next
    case False
    with B have "owner cfg s' = owner cfg s" by (auto split: if_splits)
    with False o s' R(3) show ?thesis by (simp add: view_def)
  qed
qed

lemma safe_tcp_accept:
  assumes "safe cfg N held A s" "accept_contract L held"
  shows "\<exists>r s' A'. lwip_tcp_event L cfg i pcb LWIP_EVENT_ACCEPT p sz err s = Some (r, s') \<and>
    net_steps cfg A A' \<and> mem_inv cfg held A' s'"
proof (cases "in_range cfg i \<and> err = ERR_OK \<and> pcb \<noteq> None")
  case True
  then obtain a where a: "pcb = Some a" by blast
  let ?s = "upd_lw (tcp_setprio_min L a) s" and ?c = "get_client_info cfg i s"
  have S: "safe cfg N held A ?s"
    using assms mem_keeps by (fastforce simp: safe_def accept_contract_def)
  have c: "?c = get_client_info cfg i ?s" and pr: "get_protocol cfg i ?s = get_protocol cfg i s"
    by (simp_all add: get_client_info_def get_protocol_def)
  obtain k s1 where k: "shim_accept L cfg ?c (Some a) i ?s = (k, s1)" by force
  show ?thesis
  proof (cases "get_protocol cfg i s = XTCP_PROTOCOL_TCP \<and> status k = XTCP_SUCCESS")
    case acc: True
    then have ok: "get_protocol cfg i ?s = XTCP_PROTOCOL_TCP" "status k = XTCP_SUCCESS" using pr by simp_all
    have B: "sv_owner A i = Some (?c, XTCP_PROTOCOL_TCP)" "sv_owner A (val k) = None" "?c = get_client_info cfg i s1"
      "safe cfg N held (A\<lparr>sv_owner := (sv_owner A)(val k \<mapsto> (?c, XTCP_PROTOCOL_TCP))\<rparr>) s1"
      using safe_shim_accept [OF S assms(2) ok(1) c k, unfolded if_P [OF ok(2)]] by blast+
    let ?A = "A\<lparr>sv_owner := (sv_owner A)(val k \<mapsto> (?c, XTCP_PROTOCOL_TCP)),
      sv_events := tell cfg ?c (val k) XTCP_ACCEPTED (sv_events A)\<rparr>"
    obtain r q where q: "enqueue cfg ?c (val k) XTCP_ACCEPTED s1 = Some (r, s1\<lparr>queues := q\<rparr>)"
      "mem_inv cfg held ?A (s1\<lparr>queues := q\<rparr>)"
      using safe_enqueue [OF B(4,3), of "val k" XTCP_ACCEPTED] by auto
    have "net_steps cfg A ?A" by (intro r_into_rtranclp net_step.accept [OF B(1,2)])
    moreover have "\<exists>r. lwip_tcp_event L cfg i pcb LWIP_EVENT_ACCEPT p sz err s = Some (r, s1\<lparr>queues := q\<rparr>)"
      using True a k acc q(1) by (auto simp: lwip_tcp_event_defs)
    ultimately show ?thesis using q(2) by blast
  next
    case False
    then have "status k \<noteq> XTCP_SUCCESS \<and> safe cfg N held A s1"
      using k S safe_shim_accept [OF S assms(2) _ c k] pr
      by (cases "get_protocol cfg i s") (auto simp: shim_accept_def)
    with True a k show ?thesis by (auto simp: lwip_tcp_event_defs safe_def)
  qed
next
  case False
  with safeD(2) [OF assms(1)] show ?thesis by (cases pcb) (auto simp: lwip_tcp_event_defs)
qed

lemma safe_tcp_error:
  assumes "safe cfg N held A s"
  shows "\<exists>r s' A'. lwip_tcp_event L cfg i pcb LWIP_EVENT_ERR p sz err s = Some (r, s') \<and>
    net_steps cfg A A' \<and> mem_inv cfg held A' s'"
proof (cases "in_range cfg i")
  case True
  obtain R where R: "sys_inv cfg held s R" "\<And>i a b. (a, b) \<in> set (R i) \<Longrightarrow> buffer_ok b" "A = view cfg R s"
    using safeE [OF assms] by blast
  let ?c = "get_client_info cfg i s"
  let ?f = "case error_event err of Some e \<Rightarrow> tell cfg ?c i e (sv_events A) | None \<Rightarrow> sv_events A"
  let ?A = "A\<lparr>sv_owner := (sv_owner A)(i := None), sv_events := ?f\<rparr>"
  obtain s' where s': "lwip_tcp_event L cfg i pcb LWIP_EVENT_ERR p sz err s = Some (ERR_OK, s')"
    "sys_inv cfg held s' R" "owner cfg s' = (owner cfg s)(i := None)" "queued (queues s') = ?f"
    using tcp_error [OF R(1) True refl, of L pcb p sz err] R(3)
    by (auto simp: tell_eq has_room_def split: option.splits)
  then have "view cfg R s' = ?A" by (simp add: R(3) view_def)
  with sys_mem_inv [OF s'(2) R(2)] have "mem_inv cfg held ?A s'" by simp
  moreover from safeD(1) [OF assms] have "net_steps cfg A ?A"
  proof (cases rule: client_cases [of cfg N s i])
    case (owned q)
    then have o: "sv_owner A i = Some (?c, q)" using R(3) by simp
    have e: "e \<in> {XTCP_ABORTED, XTCP_TIMED_OUT}" if "error_event err = Some e" for e
      using that by (cases err) auto
    show ?thesis
      using net_step.silent_failure [OF o] net_step.failure [OF o e]
      by (cases "error_event err") (auto intro!: r_into_rtranclp)
  next
    case vacant
    then have "?A = A" using R(3) by (auto simp: tell_eq view_def fun_upd_idem split: option.splits)
    then show ?thesis by simp
  qed
  ultimately show ?thesis using s'(1) by blast
qed (use assms in \<open>auto simp: lwip_tcp_event_defs safe_def\<close>)

lemma safe_tcp_event:
  assumes "safe cfg N held A s" "accept_contract L held"
    and "callback_ok cfg held (TcpEvent i pcb e p sz err) s"
  shows "\<exists>r s' A'. lwip_tcp_event L cfg i pcb e p sz err s = Some (r, s') \<and>
    net_steps cfg A A' \<and> mem_inv cfg held A' s'"
proof (cases "e = LWIP_EVENT_ACCEPT \<or> e = LWIP_EVENT_ERR \<or> (e = LWIP_EVENT_RECV \<and> p \<noteq> None)")
  case True
  with safe_tcp_accept [OF assms(1,2)] safe_tcp_error [OF assms(1)] safe_tcp_data [OF assms(1)] assms(3)
  show ?thesis by auto
next
  case False
  note q = safe_notice [OF assms(1) refl]
  have m: "\<exists>s' A'. s = s' \<and> net_steps cfg A A' \<and> mem_inv cfg held A' s'" using safeD(2) [OF assms(1)] by blast
  show ?thesis
    using False m q [of XTCP_NEW_CONNECTION i] q [of XTCP_CLOSED i] q [of XTCP_SENT_DATA i]
    by (cases e) (auto simp: lwip_tcp_event_defs)
qed

lemma safe_udp_recv:
  assumes "safe cfg N held A s" "callback_ok cfg held (UdpRecv i upcb p remote port) s"
  shows "\<exists>s' A'. xtcp_udp_recv F L cfg i upcb p remote port s = Some s' \<and>
    net_steps cfg A A' \<and> mem_inv cfg held A' s'"
proof (cases "in_range cfg i \<and> p \<noteq> None")
  case True
  then obtain a where a: "p = Some a" by blast
  obtain R where R: "sys_inv cfg held s R" "\<And>i a b. (a, b) \<in> set (R i) \<Longrightarrow> buffer_ok b" "A = view cfg R s"
    using safeE [OF assms(1)] by blast
  have room: "has_room cfg (get_client_info cfg i s) s" and h: "handed_over cfg held s a"
    and "udp_pcbs (lw s) upcb \<noteq> None" using assms(2) True a by auto
  then obtain u where u: "udp_pcbs (lw s) upcb = Some u" by blast
  obtain b where b: "rx_arrived held s R a b" "buffer_ok b" using handed_overD [OF h R(1)] by blast
  let ?e = "if udp_flags u AND UDP_FLAGS_CONNECTED F \<noteq> 0 then XTCP_RECV_DATA else XTCP_RECV_FROM_DATA"
  obtain s' where s': "xtcp_udp_recv F L cfg i upcb (Some a) remote port s = Some s'"
    "sys_inv cfg held s' (R(i := R i @ [(a, tag_remote remote port b)]))" "sockets s' = sockets s"
    "queued (queues s') = (queued (queues s))(get_client_info cfg i s :=
       queued (queues s) (get_client_info cfg i s) @ [event ?e i])"
    using udp_queued [OF R(1) _ b(1) refl room u] True by blast
  have "\<exists>A'. net_steps cfg A A' \<and> mem_inv cfg held A' s'"
    by (rule safe_arrival [OF assms(1) R(3,2) s'(2) _ s'(3) refl room _ s'(4)]) (use b(2) in simp_all)
  with s'(1) a show ?thesis by blast
next
  case False
  with safeD(2) [OF assms(1)] show ?thesis by (auto simp: xtcp_udp_recv_def split: option.splits)
qed

lemma safe_dns:
  assumes "safe cfg N held A s" "callback_ok cfg held (DnsFound name addr c) s"
  shows "\<exists>s' A'. xtcp_dns_found cfg name addr c s = Some s' \<and> net_steps cfg A A' \<and> mem_inv cfg held A' s'"
proof -
  let ?k = "dns_outcome cfg c name addr"
  let ?A = "A\<lparr>sv_events := tell cfg c (error_code ?k) XTCP_DNS_RESULT (sv_events A)\<rparr>"
  have "notifiable (notify (queues s)) c" using assms(2) by simp
  then obtain r q where q: "enqueue_event_and_notify cfg c (error_code ?k) XTCP_DNS_RESULT (queues s) = Some (r, q)"
    using enqueue_total by blast
  have "queued q = tell cfg c (error_code ?k) XTCP_DNS_RESULT (sv_events A)"
    using enqueue_spec [OF ctlD(2) [OF safeD(1) [OF assms(1)]] q] mem_fields(2) [OF safeD(2) [OF assms(1)]]
    by (simp add: tell_eq)
  with mem_queues [OF safeD(2) [OF assms(1)], of q] have "mem_inv cfg held ?A (s\<lparr>queues := q\<rparr>)" by simp
  moreover have "net_steps cfg A ?A" by (intro r_into_rtranclp net_step.answer) (simp add: dns_outcome_def)
  ultimately show ?thesis using q by (auto simp: xtcp_dns_found_def enqueue_def)
qed

lemma safe_callback:
  assumes "safe cfg N held A s" "accept_contract L held" "callback_ok cfg held c s"
  shows "\<exists>r s' A'. handle_callback F L cfg c s = Some (r, s') \<and> net_steps cfg A A' \<and> safe cfg N held A' s'"
proof -
  have "\<exists>r s' A'. handle_callback F L cfg c s = Some (r, s') \<and> net_steps cfg A A' \<and> mem_inv cfg held A' s'"
  proof (cases c)
    case (TcpEvent i pcb e p sz err)
    with safe_tcp_event assms show ?thesis by simp
  next
    case (UdpRecv i upcb p remote port)
    with safe_udp_recv [OF assms(1), of i upcb p remote port F L] assms(3) show ?thesis by auto
  next
    case (DnsFound name addr d)
    with safe_dns [OF assms(1), of name addr d] assms(3) show ?thesis by auto
  qed
  with ctl_callback [OF safeD(1) [OF assms(1)]] show ?thesis by (auto simp: safe_def)
qed

section \<open>lwIP functions that call back\<close>

text \<open>
  A run of lwIP from state \<open>s\<close> behaves when, between callbacks, it leaves the buffers that the
  application holds alone (it may hand over more), and every callback it makes, in the state it is
  made in, is a proper one.
\<close>

definition leaves :: "('w \<Rightarrow> addr set) \<Rightarrow> 'w lwip_state \<Rightarrow> 'w lwip_state \<Rightarrow> bool" where
  "leaves held st st' \<longleftrightarrow>
     held (world st) \<subseteq> held (world st') \<and> (\<forall>x \<in> held (world st). pbufs st' x = pbufs st x)"

lemma leaves_refl [simp]: "leaves held st st"
  by (simp add: leaves_def)

lemma rx_rel_leaves:
  assumes "rx_rel cfg held s R" "leaves held (lw s) st"
  shows "rx_rel cfg held (s\<lparr>lw := st\<rparr>) R"
proof -
  have "rx_rel cfg held (upd_lw (\<lambda>_. st) s) R"
    by (rule rx_rel_upd_lw [OF assms(1)]) (use assms(2) rx_relD(5) [OF assms(1)] in \<open>auto simp: leaves_def\<close>)
  then show ?thesis by (simp add: upd_lw_def)
qed

lemma mem_leaves: "mem_inv cfg held A s \<Longrightarrow> leaves held (lw s) st \<Longrightarrow> mem_inv cfg held A (s\<lparr>lw := st\<rparr>)"
  unfolding mem_inv_def view_lw using rx_rel_leaves by blast

primrec prog_ok ::
  "lwip_flags \<Rightarrow> 'w lwip \<Rightarrow> xtcp_config \<Rightarrow> ('w \<Rightarrow> addr set) \<Rightarrow> ('w, 'r) lwip_prog \<Rightarrow> 'w xtcp_state \<Rightarrow> bool" where
  "prog_ok F L cfg held (Done r st) s \<longleftrightarrow> leaves held (lw s) st"
| "prog_ok F L cfg held (Call c st k) s \<longleftrightarrow>
     leaves held (lw s) st \<and> callback_ok cfg held c (s\<lparr>lw := st\<rparr>) \<and>
     (\<forall>e s'. handle_callback F L cfg c (s\<lparr>lw := st\<rparr>) = Some (e, s') \<longrightarrow>
        prog_ok F L cfg held (k e (lw s')) s')"

lemma safe_run_lwip:
  "safe cfg N held A s \<Longrightarrow> accept_contract L held \<Longrightarrow> prog_ok F L cfg held prog s \<Longrightarrow>
   \<exists>r s' A'. run_lwip (handle_callback F L cfg) prog s = Some (r, s') \<and> net_steps cfg A A' \<and> safe cfg N held A' s'"
proof (induction prog arbitrary: A s)
  case (Done r st)
  then show ?case by (auto simp: safe_def intro: mem_leaves)
next
  case (Call c st k)
  have "safe cfg N held A (s\<lparr>lw := st\<rparr>)" using Call.prems(1,3) by (simp add: safe_def mem_leaves)
  moreover have "callback_ok cfg held c (s\<lparr>lw := st\<rparr>)" using Call.prems(3) by simp
  ultimately obtain e s1 A1 where s1: "handle_callback F L cfg c (s\<lparr>lw := st\<rparr>) = Some (e, s1)"
    "net_steps cfg A A1" "safe cfg N held A1 s1"
    using safe_callback [OF _ Call.prems(2)] by blast
  have "prog_ok F L cfg held (k e (lw s1)) s1" using Call.prems(3) s1(1) by simp
  from Call.IH [OF rangeI rangeI s1(3) Call.prems(2) this] s1(1,2) show ?case
    by (auto intro: rtranclp_trans)
qed

end
