(* ===== verification/Send_Safety.thy ===== *)
theory Send_Safety
  imports Memory_Safety
begin

text \<open>
  Sending: the transmit buffer is allocated, filled, lent to lwIP and freed, and the buffers that the
  library had before are not touched.
\<close>

section \<open>What is asked of lwIP\<close>

text \<open>
  \<open>pbuf_alloc\<close> hands out a single buffer of the length asked for that was not handed out before, or
  none; a call that is lent a buffer of the application may change it (headers are put in front of the
  data, the driver stores a timestamp), but leaves it on its own, and the others as they are.
\<close>

definition allocates ::
  "('w \<Rightarrow> addr set) \<Rightarrow> u16 \<Rightarrow> ('w lwip_state \<Rightarrow> ptr \<times> 'w lwip_state) \<Rightarrow> bool" where
  "allocates held n alloc \<longleftrightarrow>
     (\<forall>st p st'. alloc st = (p, st') \<longrightarrow> leaves held st st' \<and>
        (\<forall>a. p = Some a \<longrightarrow> a \<notin> held (world st) \<and> a \<in> held (world st') \<and>
           (\<exists>b. pbufs st' a = Some b \<and> pb_next b = None \<and> length (pb_payload b) = unat n)))"

definition lends :: "('w \<Rightarrow> addr set) \<Rightarrow> addr \<Rightarrow> ('w lwip_state \<Rightarrow> 'w lwip_state) \<Rightarrow> bool" where
  "lends held a f \<longleftrightarrow>
     (\<forall>st. held (world (f st)) = held (world st) \<and>
        (\<forall>x \<in> held (world st) - {a}. pbufs (f st) x = pbufs st x) \<and>
        (\<forall>b. a \<in> held (world st) \<and> pbufs st a = Some b \<and> pb_next b = None \<longrightarrow>
           (\<exists>b'. pbufs (f st) a = Some b' \<and> pb_next b' = None)))"

definition tx_contract :: "'w lwip \<Rightarrow> ('w \<Rightarrow> addr set) \<Rightarrow> bool" where
  "tx_contract L held \<longleftrightarrow>
     (\<forall>n. allocates held n (pbuf_alloc L n)) \<and>
     (\<forall>p a. lends held a (\<lambda>st. snd (udp_send L p a st))) \<and>
     (\<forall>p a ip port. lends held a (\<lambda>st. snd (udp_sendto L p a ip port st))) \<and>
     (\<forall>p data n. keeps held (\<lambda>st. snd (tcp_write_copy L p data n st))) \<and>
     (\<forall>p. keeps held (\<lambda>st. snd (tcp_output L p st)))"

text \<open>
  After it was freed a buffer is still memory that can be read, whatever it then holds. lwIP does not
  promise this, and nothing is proved from it; the library needs it to send without a fault, since it
  reads the timestamp of a message from the buffer that it has freed.
\<close>

definition freed_readable :: "'w lwip \<Rightarrow> bool" where
  "freed_readable L \<longleftrightarrow> (\<forall>st a. pbufs st a \<noteq> None \<longrightarrow> pbufs (pbuf_free L a st) a \<noteq> None)"

section \<open>The life of a transmit buffer\<close>

text \<open>Buffer \<open>a\<close> was allocated since \<open>st0\<close> and is on its own.\<close>

definition token :: "('w \<Rightarrow> addr set) \<Rightarrow> 'w lwip_state \<Rightarrow> addr \<Rightarrow> 'w lwip_state \<Rightarrow> bool" where
  "token held st0 a st \<longleftrightarrow>
     leaves held st0 st \<and> a \<notin> held (world st0) \<and> a \<in> held (world st) \<and>
     (\<exists>b. pbufs st a = Some b \<and> pb_next b = None)"

lemma tokenE:
  assumes "token held st0 a st"
  obtains b where "pbufs st a = Some b" "pb_next b = None" "a \<notin> held (world st0)" "a \<in> held (world st)"
    "leaves held st0 st"
  using assms by (auto simp: token_def)

lemma token_alloc:
  "allocates held n alloc \<Longrightarrow> alloc st0 = (Some a, st) \<Longrightarrow>
   token held st0 a st \<and> (\<exists>b. pbufs st a = Some b \<and> length (pb_payload b) = unat n)"
  unfolding allocates_def token_def by blast

lemma token_store:
  "token held st0 a st \<Longrightarrow> pb_next b = None \<Longrightarrow> token held st0 a (st\<lparr>pbufs := (pbufs st)(a \<mapsto> b)\<rparr>)"
  by (auto simp: token_def leaves_def)

lemma token_lends:
  assumes "token held st0 a st" "lends held a f"
  shows "token held st0 a (f st)"
proof -
  obtain b where b: "pbufs st a = Some b" "pb_next b = None" "a \<notin> held (world st0)" "a \<in> held (world st)"
    "leaves held st0 st" using assms(1) by (rule tokenE)
  note f = assms(2) [unfolded lends_def, rule_format, of st]
  have "\<exists>b'. pbufs (f st) a = Some b' \<and> pb_next b' = None" using f b(1,2,4) by blast
  moreover have "held (world (f st)) = held (world st)"
    "\<And>x. x \<in> held (world st) \<Longrightarrow> x \<noteq> a \<Longrightarrow> pbufs (f st) x = pbufs st x" using f by blast+
  moreover from this b(3,5) have "leaves held st0 (f st)" unfolding leaves_def by (metis subsetD)
  ultimately show ?thesis using b by (simp add: token_def)
qed

lemma keeps_lends: "keeps held f \<Longrightarrow> lends held a f"
  by (simp add: keeps_def lends_def)

lemma token_result:
  "token held st0 a st \<Longrightarrow> lends held a (\<lambda>st. snd (f st)) \<Longrightarrow> f st = (r, st') \<Longrightarrow> token held st0 a st'"
  using token_lends by fastforce

lemma token_free:
  assumes "token held st0 a st" "rx_contract L held" "freed_readable L"
  shows "leaves held st0 (pbuf_free L a st)" "pbufs (pbuf_free L a st) a \<noteq> None"
proof -
  obtain b where b: "pbufs st a = Some b" "pb_next b = None" "a \<notin> held (world st0)" "a \<in> held (world st)"
    "leaves held st0 st" using assms(1) by (rule tokenE)
  have "chain (pbufs st) (Some a) [a]" "set [a] \<subseteq> held (world st)" using b by simp_all
  note F = frees_chainD [OF assms(2) [unfolded rx_contract_def, THEN conjunct1] this]
  show "leaves held st0 (pbuf_free L a st)" using b(3,5) F by (fastforce simp: leaves_def)
  show "pbufs (pbuf_free L a st) a \<noteq> None" using assms(3) b(1) by (simp add: freed_readable_def)
qed

section \<open>The calls\<close>

lemma tx_contractD:
  assumes "tx_contract L held"
  shows "allocates held n (pbuf_alloc L n)"
    "lends held a (\<lambda>st. snd (udp_send L p a st))" "lends held a (\<lambda>st. snd (udp_sendto L p a ip port st))"
    "lends held a (\<lambda>st. snd (tcp_write_copy L p data m st))" "lends held a (\<lambda>st. snd (tcp_output L p st))"
  using assms unfolding tx_contract_def by (blast intro: keeps_lends)+

text \<open>The buffer comes back freed, or untouched where the socket has no protocol.\<close>

definition given_back ::
  "('w \<Rightarrow> addr set) \<Rightarrow> 'w lwip_state \<Rightarrow> addr \<Rightarrow> 'w xtcp_state \<Rightarrow> 'w xtcp_state \<Rightarrow> bool" where
  "given_back held st0 a s s' \<longleftrightarrow>
     (\<exists>st. s' = s\<lparr>lw := st\<rparr> \<and> leaves held st0 st \<and> pbufs st a \<noteq> None)"

lemma given_back_token: "token held st0 a st \<Longrightarrow> given_back held st0 a s (s\<lparr>lw := st\<rparr>)"
  by (auto simp: given_back_def token_def)

lemma given_back_free:
  assumes "token held st0 a st" "rx_contract L held" "freed_readable L"
  shows "given_back held st0 a s (upd_lw (pbuf_free L a) (s\<lparr>lw := st\<rparr>))"
  using token_free [OF assms] by (auto simp: given_back_def upd_lw_def)

lemma shim_send_gives_back:
  assumes "token held st0 a (lw s)" "tx_contract L held" "rx_contract L held" "freed_readable L"
  shows "\<exists>r s'. shim_send L cfg c x (Some a) s = Some (r, s') \<and> given_back held st0 a s s'"
proof -
  note T = tx_contractD [OF assms(2)] and free = given_back_free [OF _ assms(3,4)]
  note same = given_back_token [OF assms(1), of s] and freed = free [OF assms(1), of s]
  show ?thesis
  proof (cases "status (find_client_connection cfg c x s) = XTCP_SUCCESS")
    case True
    show ?thesis
    proof (cases "get_protocol cfg x s")
      case XTCP_PROTOCOL_UDP
      have "given_back held st0 a s (upd_lw (pbuf_free L a) (s\<lparr>lw := st\<rparr>))"
        if "udp_send L p a (lw s) = (e, st)" for p e st
        using free [OF token_result [OF assms(1) T(2) that]] .
      with True XTCP_PROTOCOL_UDP freed show ?thesis
        by (auto simp: shim_send_def split: option.splits prod.splits)
    next
      case XTCP_PROTOCOL_TCP
      obtain b where b: "pbufs (lw s) a = Some b" using assms(1) by (rule tokenE)
      have "given_back held st0 a s (upd_lw (pbuf_free L a) (s\<lparr>lw := st\<rparr>))"
        "tcp_output L p st = (e', st') \<Longrightarrow> given_back held st0 a s (upd_lw (pbuf_free L a) (s\<lparr>lw := st'\<rparr>))"
        if "tcp_write_copy L p (pb_payload b) (pb_len b) (lw s) = (e, st)" for p e st e' st'
        using free [OF token_result [OF assms(1) T(4) that]]
          free [OF token_result [OF token_result [OF assms(1) T(4) that] T(5)]] by blast+
      with True XTCP_PROTOCOL_TCP b freed show ?thesis
        by (auto simp: shim_send_def Let_def split: option.splits prod.splits if_splits)
    next
      case XTCP_PROTOCOL_NONE
      with True same show ?thesis by (simp add: shim_send_def)
    qed
  next
    case False
    with same show ?thesis by (simp add: shim_send_def Let_def)
  qed
qed

lemma shim_sendto_gives_back:
  assumes "token held st0 a (lw s)" "tx_contract L held" "rx_contract L held" "freed_readable L"
  shows "given_back held st0 a s (snd (shim_sendto L cfg c x (Some a) ip port s))"
proof -
  note free = given_back_free [OF _ assms(3,4)]
  note same = given_back_token [OF assms(1), of s] and freed = free [OF assms(1), of s]
  have "given_back held st0 a s (upd_lw (pbuf_free L a) (s\<lparr>lw := st\<rparr>))"
    if "udp_sendto L p a ip port (lw s) = (e, st)" for p e st
    using free [OF token_result [OF assms(1) tx_contractD(3) [OF assms(2)] that]] .
  with same freed show ?thesis
    by (auto simp: shim_sendto_def Let_def split: option.splits prod.splits xtcp_protocol_t.splits)
qed

text \<open>
  A message that the client has as many bytes of as it says, and whose length fits 16 bits, is sent or
  fails with a code; what lwIP had handed to the library stays as it was.
\<close>

definition may_send :: "u8 list \<Rightarrow> u32 \<Rightarrow> bool" where
  "may_send buffer len \<longleftrightarrow> unat len \<le> length buffer"

text \<open>The two faults: the copy overruns the buffer, and the timestamp is read from freed memory.\<close>

definition send_faults :: "'w lwip \<Rightarrow> u32 \<Rightarrow> bool" where
  "send_faults L len \<longleftrightarrow> 2 ^ 16 \<le> unat len \<or> \<not> freed_readable L"

text \<open>No buffer was left, or there is one that holds the client's bytes.\<close>

lemma tx_cases:
  assumes "mem_inv cfg held A s" "tx_contract L held" "unat len < 2 ^ 16"
  obtains (none) st where "pbuf_alloc L (u16_of_u32 len) (lw s) = (None, st)" "mem_inv cfg held A (s\<lparr>lw := st\<rparr>)"
  | (filled) a st b where "pbuf_alloc L (u16_of_u32 len) (lw s) = (Some a, st)" "pbufs st a = Some b"
      "length (pb_payload b) = unat len"
      "token held (lw s) a (lw (store_pbuf a (tx_buffer F buffer len timed b) (s\<lparr>lw := st\<rparr>)))"
proof -
  obtain p st where al: "pbuf_alloc L (u16_of_u32 len) (lw s) = (p, st)" by force
  note alloc = tx_contractD(1) [OF assms(2)]
  show thesis
  proof (cases p)
    case None
    have "leaves held (lw s) st" using alloc al unfolding allocates_def by blast
    with None al none mem_leaves [OF assms(1)] show ?thesis by simp
  next
    case (Some a)
    then have T: "token held (lw s) a st" "\<exists>b. pbufs st a = Some b \<and> length (pb_payload b) = unat (u16_of_u32 len)"
      using token_alloc [OF alloc] al by blast+
    then obtain b where b: "pbufs st a = Some b" "length (pb_payload b) = unat len" "pb_next b = None"
      using assms(3) by (auto simp: token_def unat_u16_of_u32)
    have "token held (lw s) a (st\<lparr>pbufs := (pbufs st)(a \<mapsto> tx_buffer F buffer len timed b)\<rparr>)"
      by (rule token_store [OF T(1)]) (use b(3) in \<open>simp add: tx_buffer_def\<close>)
    with Some al b filled show ?thesis by (simp add: store_pbuf_def)
  qed
qed

lemma mem_given_back:
  assumes "mem_inv cfg held A s" "given_back held (lw s) a (store_pbuf a b (s\<lparr>lw := st\<rparr>)) s'"
  shows "mem_inv cfg held A s'" "\<exists>f. pbufs (lw s') a = Some f"
  using assms(2) mem_leaves [OF assms(1)] by (auto simp: given_back_def store_pbuf_def)

lemma safe_send:
  assumes "mem_inv cfg held A s" "tx_contract L held" "rx_contract L held"
    and "find_client_connection cfg c x s = err_int32 XTCP_SUCCESS x" "may_send buffer len" "\<not> send_faults L len"
  shows "\<exists>r s'. send_common F L cfg c x buffer len timed s = Some (r, s') \<and> mem_inv cfg held A s'"
    and "get_protocol cfg x s \<noteq> XTCP_PROTOCOL_TCP \<Longrightarrow>
      \<exists>r s'. sendto_common F L cfg c x buffer len ip port timed s = Some (r, s') \<and> mem_inv cfg held A s'"
proof -
  have m: "unat len \<le> length buffer" "unat len < 2 ^ 16" "freed_readable L"
    using assms(5,6) by (simp_all add: may_send_def send_faults_def)
  note returned = mem_given_back [OF assms(1)]
  from assms(1,2) m(2)
  have "(\<exists>r s'. send_common F L cfg c x buffer len timed s = Some (r, s') \<and> mem_inv cfg held A s') \<and>
    (get_protocol cfg x s \<noteq> XTCP_PROTOCOL_TCP \<longrightarrow>
      (\<exists>r s'. sendto_common F L cfg c x buffer len ip port timed s = Some (r, s') \<and> mem_inv cfg held A s'))"
  proof (cases rule: tx_cases [where F = F and buffer = buffer and timed = timed])
    case (none st)
    with assms(4) show ?thesis by (simp add: send_common_def sendto_common_def pbuf_shim_alloc_tx_def)
  next
    case (filled a st b)
    let ?s = "store_pbuf a (tx_buffer F buffer len timed b) (s\<lparr>lw := st\<rparr>)"
    obtain r s' where r: "shim_send L cfg c x (Some a) ?s = Some (r, s')" "given_back held (lw s) a ?s s'"
      using shim_send_gives_back [OF filled(4) assms(2,3) m(3)] by blast
    obtain r2 s2 where r2: "shim_sendto L cfg c x (Some a) ip port ?s = (r2, s2)" by force
    then have "given_back held (lw s) a ?s s2"
      using shim_sendto_gives_back [OF filled(4) assms(2,3) m(3), of cfg c x ip port] by simp
    with r r2 filled(3) m(1) returned [OF r(2)] returned [of a "tx_buffer F buffer len timed b" st s2] show ?thesis
      by (auto simp: send_common_unfold [OF assms(4) filled(1,2)] sendto_common_unfold [OF assms(4) filled(1,2)])
  qed
  then show "\<exists>r s'. send_common F L cfg c x buffer len timed s = Some (r, s') \<and> mem_inv cfg held A s'"
    "get_protocol cfg x s \<noteq> XTCP_PROTOCOL_TCP \<Longrightarrow>
      \<exists>r s'. sendto_common F L cfg c x buffer len ip port timed s = Some (r, s') \<and> mem_inv cfg held A s'"
    by blast+
qed

end
