(* ===== verification/Call_Safety.thy ===== *)
theory Call_Safety
  imports Send_Safety
begin

text \<open>
  Progress and preservation for the calls of the clients and for a turn of the server's loop,
  and so for every run of the server.
\<close>

section \<open>What is asked of lwIP\<close>

text \<open>
  None of the functions that the socket calls use touches a buffer that the application holds;
  \<open>pbuf_free\<close> frees the chain it is given.
\<close>

definition lwip_contract :: "'w lwip \<Rightarrow> ('w \<Rightarrow> addr set) \<Rightarrow> bool" where
  "lwip_contract L held \<longleftrightarrow>
     close_contract L held \<and> accept_contract L held \<and> tx_contract L held \<and>
     keeps held (\<lambda>st. snd (udp_new_ip_type L st)) \<and>
     (\<forall>p a n. keeps held (\<lambda>st. snd (udp_bind L p a n st)) \<and> keeps held (\<lambda>st. snd (udp_connect L p a n st)) \<and>
        keeps held (\<lambda>st. snd (tcp_bind L p a n st)) \<and> keeps held (\<lambda>st. snd (tcp_connect L p a n st))) \<and>
     (\<forall>p. keeps held (\<lambda>st. snd (tcp_listen L p st))) \<and> (\<forall>p i. keeps held (udp_recv L p i)) \<and>
     (\<forall>a g. keeps held (\<lambda>st. snd (igmp_joingroup L a g st)) \<and> keeps held (\<lambda>st. snd (igmp_leavegroup L a g st))) \<and>
     (\<forall>n a. keeps held (dns_setserver L n a)) \<and> (\<forall>h c. keeps held (\<lambda>st. snd (dns_gethostbyname L h c st))) \<and>
     (\<forall>p w. keeps held (udp_set_multicast_ttl L p w) \<and> keeps held (udp_set_multicast_netif_index L p w) \<and>
        keeps held (udp_set_flags L p w))"

lemma lwip_contractD:
  assumes "lwip_contract L held"
  shows "close_contract L held" "accept_contract L held" "rx_contract L held" "tx_contract L held"
    "keeps held (\<lambda>st. snd (udp_new_ip_type L st))"
    "keeps held (\<lambda>st. snd (udp_bind L p a n st))" "keeps held (\<lambda>st. snd (udp_connect L p a n st))"
    "keeps held (\<lambda>st. snd (tcp_bind L p a n st))" "keeps held (\<lambda>st. snd (tcp_connect L p a n st))"
    "keeps held (\<lambda>st. snd (tcp_listen L p st))" "keeps held (udp_recv L p i)" "keeps held (tcp_arg L p i)"
    "keeps held (tcp_close L p)" "keeps held (udp_remove L p)"
    "keeps held (\<lambda>st. snd (igmp_joingroup L a g st))" "keeps held (\<lambda>st. snd (igmp_leavegroup L a g st))"
    "keeps held (dns_setserver L m a)" "keeps held (\<lambda>st. snd (dns_gethostbyname L h c st))"
    "keeps held (udp_set_multicast_ttl L p w)" "keeps held (udp_set_multicast_netif_index L p w)"
    "keeps held (udp_set_flags L p w)"
  using assms unfolding lwip_contract_def close_contract_def accept_contract_def by blast+

text \<open>The rules that step over the lwIP calls of a handler, with the call first.\<close>

lemma mem_results:
  assumes "lwip_contract L held" "mem_inv cfg held A s"
  shows "udp_new_ip_type L (lw s) = (q, st) \<Longrightarrow> mem_inv cfg held A (s\<lparr>lw := st\<rparr>)"
    "udp_bind L p a n (lw s) = (r, st) \<Longrightarrow> mem_inv cfg held A (s\<lparr>lw := st\<rparr>)"
    "udp_connect L p a n (lw s) = (r, st) \<Longrightarrow> mem_inv cfg held A (s\<lparr>lw := st\<rparr>)"
    "tcp_bind L p a n (lw s) = (r, st) \<Longrightarrow> mem_inv cfg held A (s\<lparr>lw := st\<rparr>)"
    "tcp_connect L p a n (lw s) = (r, st) \<Longrightarrow> mem_inv cfg held A (s\<lparr>lw := st\<rparr>)"
    "tcp_listen L p (lw s) = (q, st) \<Longrightarrow> mem_inv cfg held A (s\<lparr>lw := st\<rparr>)"
    "igmp_joingroup L a g (lw s) = (r, st) \<Longrightarrow> mem_inv cfg held A (s\<lparr>lw := st\<rparr>)"
    "igmp_leavegroup L a g (lw s) = (r, st) \<Longrightarrow> mem_inv cfg held A (s\<lparr>lw := st\<rparr>)"
    "dns_gethostbyname L h c (lw s) = (x, st) \<Longrightarrow> mem_inv cfg held A (s\<lparr>lw := st\<rparr>)"
  by (rule mem_keeps_result [OF assms(2)], rule lwip_contractD [OF assms(1)], assumption)+

lemma mem_effects:
  assumes "lwip_contract L held" "mem_inv cfg held A s"
  shows "mem_inv cfg held A (upd_lw (udp_recv L p i) s)" "mem_inv cfg held A (upd_lw (tcp_arg L p i) s)"
    "mem_inv cfg held A (upd_lw (tcp_close L p) s)" "mem_inv cfg held A (upd_lw (udp_remove L p) s)"
    "mem_inv cfg held A (upd_lw (dns_setserver L m a) s)" "mem_inv cfg held A (upd_lw (udp_set_multicast_ttl L p w) s)"
    "mem_inv cfg held A (upd_lw (udp_set_multicast_netif_index L p w) s)"
    "mem_inv cfg held A (upd_lw (udp_set_flags L p w) s)"
  by (rule mem_keeps [OF assms(2)], rule lwip_contractD [OF assms(1)])+

lemmas mem_lwip_steps [mem_steps] = mem_effects mem_results [rotated 2]

section \<open>The calls\<close>

lemma mem_listen:
  assumes "mem_inv cfg held A s" "table_inv cfg s" "lwip_contract L held" "shim_listen L cfg c i port addr s = (r, s')"
  shows "mem_inv cfg held A s'"
proof -
  have t: "table_inv cfg (s\<lparr>lw := st\<rparr>)" for st using assms(2) by simp
  have l: "mem_inv cfg held A (s\<lparr>lw := st'\<rparr>)"
    if "tcp_bind L p addr port (lw s) = (e, st)" "tcp_listen L p st = (q, st')" for p e st q st'
    using mem_results(6) [OF assms(3) mem_results(4) [OF assms(3,1) that(1)], of p q st'] that(2) by simp
  show ?thesis
    using assms l
    by (auto simp: shim_listen_def Let_def split: if_splits xtcp_protocol_t.splits option.splits prod.splits;
        blast intro: mem_steps mem_set_pcb(1) [OF _ t])
qed

lemma mem_connect:
  assumes "mem_inv cfg held A s" "lwip_contract L held" "shim_connect L cfg c i port addr s = (r, s')"
  shows "mem_inv cfg held A s'"
  using assms
  by (auto simp: shim_connect_def Let_def split: if_splits xtcp_protocol_t.splits option.splits prod.splits;
      blast intro: mem_steps)

text \<open>
  Opening a socket: the id is taken first, so what the network does while lwIP makes the control block
  happens to a service in which the socket exists.
\<close>

lemma safe_new_pcb:
  assumes "safe cfg N held A s" "lwip_contract L held"
  shows "\<exists>r s'. new_udp_pcb L cfg k s = (r, s') \<and> mem_inv cfg held A s' \<and> (r = k \<or> status r \<noteq> XTCP_SUCCESS)"
    and "prog_ok F L cfg held (tcp_new_ip_type L (lw s)) s \<Longrightarrow>
      \<exists>r s' A'. new_tcp_pcb F L cfg k s = Some (r, s') \<and> net_steps cfg A A' \<and> mem_inv cfg held A' s' \<and>
        (r = k \<or> status r \<noteq> XTCP_SUCCESS)"
proof -
  have t: "table_inv cfg (s\<lparr>lw := st\<rparr>)" for st using ctlD(1) [OF safeD(1) [OF assms(1)]] by simp
  obtain r s' where u: "new_udp_pcb L cfg k s = (r, s')" by force
  have "mem_inv cfg held A s'"
    using u safeD(2) [OF assms(1)] assms(2)
    by (auto simp: new_udp_pcb_def Let_def split: prod.splits option.splits if_splits;
        blast intro: mem_steps mem_set_pcb(2) [OF _ t])
  moreover have "r = k \<or> status r \<noteq> XTCP_SUCCESS"
    using u by (auto simp: new_udp_pcb_def Let_def split: prod.splits option.splits if_splits)
  ultimately show "\<exists>r s'. new_udp_pcb L cfg k s = (r, s') \<and> mem_inv cfg held A s' \<and> (r = k \<or> status r \<noteq> XTCP_SUCCESS)"
    using u by blast
  assume p: "prog_ok F L cfg held (tcp_new_ip_type L (lw s)) s"
  obtain q s2 A' where q: "run_lwip (handle_callback F L cfg) (tcp_new_ip_type L (lw s)) s = Some (q, s2)"
    "net_steps cfg A A'" "safe cfg N held A' s2"
    using safe_run_lwip [OF assms(1) lwip_contractD(2) [OF assms(2)] p] by blast
  obtain a s3 where s3: "set_tcp_pcb cfg (val k) q s2 = (a, s3)" by force
  have "mem_inv cfg held A' s3"
    by (rule mem_set_pcb(1) [OF safeD(2) [OF q(3)] ctlD(1) [OF safeD(1) [OF q(3)]] s3])
  with q s3 safeD(2) [OF q(3)] mem_effects(3) [OF assms(2)]
  show "\<exists>r s' A'. new_tcp_pcb F L cfg k s = Some (r, s') \<and> net_steps cfg A A' \<and> mem_inv cfg held A' s' \<and>
      (r = k \<or> status r \<noteq> XTCP_SUCCESS)"
    by (cases q; cases "error_code a < 0") (auto simp: new_tcp_pcb_def)
qed

lemma safe_new_socket:
  assumes "safe cfg N held A s" "lwip_contract L held" "c \<noteq> DEINIT" "N c"
    and "assign_client_connection cfg c p s = (k, s1)"
    and "p = XTCP_PROTOCOL_TCP \<Longrightarrow> status k = XTCP_SUCCESS \<Longrightarrow>
      prog_ok F L cfg held (tcp_new_ip_type L (lw s1)) s1"
  shows "\<exists>r s' A'. socket_case F L cfg c p s = Some (r, s') \<and> sv_socket cfg c p r A A' \<and> mem_inv cfg held A' s'"
proof -
  note C = safeD(1) [OF assms(1)] and M = safeD(2) [OF assms(1)]
  note o = mem_fields(1) [OF M] and law = assign_client_connection_law [OF ctlD(1) [OF C] assms(3,5)]
  show ?thesis
  proof (cases "dom (owner cfg s) = socket_ids cfg")
    case True
    with law have k: "k = err_int32 XTCP_ENOMEM (-1)" "s1 = s" by simp_all
    have "owner cfg s x \<noteq> None" if "in_range cfg x" for x
      using that unfolding in_range_socket_ids True [symmetric] by blast
    then have "sv_socket cfg c p (-2) A A" by (simp add: sv_socket_def o)
    with k assms(5) M show ?thesis by (auto simp: socket_case_def shim_new_socket_def)
  next
    case False
    with law have k: "status k = XTCP_SUCCESS" "in_range cfg (val k)" "owner cfg s (val k) = None"
      "owner cfg s1 = (owner cfg s)(val k \<mapsto> (c, p))" by (simp_all add: in_range_socket_ids)
    let ?A = "A\<lparr>sv_owner := (sv_owner A)(val k \<mapsto> (c, p))\<rparr>"
    have s1: "safe cfg N held ?A s1"
      using mem_assign [OF M ctlD(1) [OF C] assms(3,5)] ctl_assign [OF C assms(5,3,4)] k(4) o
      by (simp add: safe_def)
    obtain r s' A' where r: "shim_new_socket F L cfg c p s = Some (r, s')"
      "if p = XTCP_PROTOCOL_TCP then net_steps cfg ?A A' else A' = ?A"
      "mem_inv cfg held A' s'" "r = k \<or> status r \<noteq> XTCP_SUCCESS"
      using safe_new_pcb(1) [OF s1 assms(2), of k] safe_new_pcb(2) [OF s1 assms(2), of F k] safeD(2) [OF s1]
        assms(5,6) k(1)
      by (cases p) (fastforce simp: shim_new_socket_def)+
    let ?k = "if status r \<noteq> XTCP_SUCCESS then error_code (status r) else val r"
    have "sv_socket cfg c p ?k A A'"
      unfolding sv_socket_def
      by (rule disjI1, rule exI [of _ "val k"])
        (use k o r in \<open>auto simp: error_code_negative [symmetric] Let_def\<close>)
    with r show ?thesis by (auto simp: socket_case_def)
  qed
qed

lemma safe_owns:
  assumes "safe cfg N held A s" "c \<noteq> DEINIT"
  shows "status (find_client_connection cfg c x s) = XTCP_SUCCESS \<longleftrightarrow> owns A c x"
  using st.find_success_iff [OF ctlD(1) [OF safeD(1) [OF assms(1)]] assms(2), of x]
    mem_fields(1) [OF safeD(2) [OF assms(1)]]
  by (simp add: owns_def)

lemma safe_close:
  assumes "safe cfg N held A s" "lwip_contract L held" "c \<noteq> DEINIT"
  shows "\<exists>s'. shim_close_socket L cfg c i s = Some s' \<and> mem_inv cfg held (sv_close c i A) s'"
proof (cases "owns A c i")
  case True
  obtain R where R: "sys_inv cfg held s R" "\<And>i a b. (a, b) \<in> set (R i) \<Longrightarrow> buffer_ok b" "A = view cfg R s"
    using safeE [OF assms(1)] by blast
  obtain p where o: "owner cfg s i = Some (c, p)" using True R(3) by (auto simp: owns_def)
  obtain s' where s': "shim_close_socket L cfg c i s = Some s'" "sys_inv cfg held s' (R(i := []))"
    "owner cfg s' = (owner cfg s)(i := None)"
    "queued (queues s') = (queued (queues s))(c := survivors i (queued (queues s) c))"
    using close_law [OF R(1) lwip_contractD(1) [OF assms(2)] o] by blast
  have "view cfg (R(i := [])) s' = sv_close c i A"
    using True s'(3,4) by (simp add: sv_close_def R(3) view_def fifo_purge_def fun_eq_iff)
  with sys_mem_inv [OF s'(2)] R(2) s'(1) show ?thesis by (fastforce split: if_splits)
next
  case False
  with safe_owns [OF assms(1,3), of i] safeD(2) [OF assms(1)] show ?thesis
    by (simp add: shim_close_socket_def sv_close_def)
qed

lemma take_remote_data_sockets:
  "take_remote_data L cfg i buffer len timed s = Some (r, s') \<Longrightarrow> sockets s' = sockets s"
  by (auto simp: take_remote_data_def split: bind_splits if_splits; blast dest: free_remote_data_frame)

lemma safe_take_remote_data:
  assumes "safe cfg N held A s" "rx_contract L held" "in_range cfg i" "unat len \<le> length buffer" "unat len < 2 ^ 31"
  shows "\<exists>s'. take_remote_data L cfg i buffer len timed s = Some (fst (sv_read i buffer len timed A), s') \<and>
    mem_inv cfg held (snd (sv_read i buffer len timed A)) s'"
proof -
  obtain R where R: "sys_inv cfg held s R" "\<And>i a b. (a, b) \<in> set (R i) \<Longrightarrow> buffer_ok b" "A = view cfg R s"
    using safeE [OF assms(1)] by blast
  then have rel: "rx_rel cfg held s R" by (simp add: sys_inv_def)
  show ?thesis
  proof (cases "R i")
    case Nil
    with rx_relD(3) [OF rel assms(3)] have "c_pbuf (conn s i) = None" by simp
    with Nil assms(3) safeD(2) [OF assms(1)] R(3) show ?thesis
      by (simp add: take_remote_data_def get_remote_data_def free_remote_data_def sv_read_def)
  next
    case (Cons x ys)
    obtain p b where x: "R i = (p, b) # ys" using Cons by (cases x) simp
    then have b: "unat (pb_len b) \<le> length (pb_payload b)" using R(2) [of p b i] by (simp add: buffer_ok_def)
    obtain s' where s': "take_remote_data L cfg i buffer len timed s = Some (fst (sv_read i buffer len timed A), s')"
      "sys_inv cfg held s' (R(i := ys))" "queues s' = queues s"
      using take_oldest [OF R(1) assms(2,3) x b assms(4,5), of timed] x b
      by (auto simp: sv_read_def R(3) packet_of_def min_absorb2 split: if_splits)
    have "owner cfg s' = owner cfg s"
      using take_remote_data_sockets [OF s'(1)] ctlD(1) [OF safeD(1) [OF assms(1)]] by (rule sockets_owner(1))
    then have "view cfg (R(i := ys)) s' = snd (sv_read i buffer len timed A)"
      using s'(3) x by (auto simp: sv_read_def R(3) view_def packet_of_def fun_eq_iff)
    moreover have "mem_inv cfg held (view cfg (R(i := ys)) s') s'"
      by (rule sys_mem_inv [OF s'(2)]) (use R(2) R(2) [of _ _ i, unfolded x] in \<open>force split: if_splits\<close>)
    ultimately show ?thesis using s'(1) by simp
  qed
qed

lemma safe_get_remote:
  assumes "safe cfg N held A s" "in_range cfg i"
  shows "get_remote cfg i s = Some (sv_sender i A)"
proof -
  obtain R where R: "sys_inv cfg held s R" "A = view cfg R s" using safeE [OF assms(1)] by blast
  then have rel: "rx_rel cfg held s R" by (simp add: sys_inv_def)
  show ?thesis
  proof (cases "R i")
    case Nil
    with rx_relD(3) [OF rel assms(2)] have "c_pbuf (conn s i) = None" by simp
    with Nil R(2) assms(2) show ?thesis by (simp add: get_remote_def sv_sender_def)
  next
    case (Cons x ys)
    with get_remote_head [OF rel assms(2), of "fst x" "snd x" ys] R(2) show ?thesis
      by (simp add: sv_sender_def packet_of_def)
  qed
qed

section \<open>Options and addresses\<close>

text \<open>
  The control block behind a socket is live. It is not where lwIP had none left when the socket was
  opened, since the slot stays taken.
\<close>

definition pcb_live :: "xtcp_config \<Rightarrow> 'w xtcp_state \<Rightarrow> int \<Rightarrow> bool" where
  "pcb_live cfg s i \<longleftrightarrow> ip_pcb_at (get_protocol cfg i s) (ip_pcb_pointer cfg i s) (lw s) \<noteq> None"

lemma pcb_live_cases:
  assumes "pcb_live cfg s i"
  obtains a b where "ip_pcb_pointer cfg i s = Some a" "ip_pcb_at (get_protocol cfg i s) (Some a) (lw s) = Some b"
  using assms by (auto simp: pcb_live_def ip_pcb_at_def split: bind_splits)

lemma put_ip_pcb_total:
  assumes "ip_pcb_at p (Some a) st = Some b"
  shows "\<exists>st'. put_ip_pcb p (Some a) w st = Some st' \<and> pbufs st' = pbufs st \<and> world st' = world st"
  using assms by (auto simp: ip_pcb_at_def put_ip_pcb_def split: xtcp_protocol_t.splits)

lemma mem_same_bufs:
  assumes "mem_inv cfg held A s" "pbufs st = pbufs (lw s)" "world st = world (lw s)"
  shows "mem_inv cfg held A (s\<lparr>lw := st\<rparr>)"
  using assms by (simp add: mem_inv_def rx_rel_def)

lemma safe_ip_getsockopt:
  assumes "get_protocol cfg i s \<noteq> XTCP_PROTOCOL_NONE \<Longrightarrow> pcb_live cfg s i"
  shows "\<exists>r value' n. shim_ip_getsockopt F L cfg i opt value len s = Some (r, value', n) \<and>
    length value' = length value \<and> (r = XTCP_SUCCESS \<longrightarrow> n = 1 \<and> len \<noteq> 0)"
proof (cases "get_protocol cfg i s = XTCP_PROTOCOL_NONE")
  case False
  from pcb_live_cases [OF assms [OF this]] obtain a b where
    ab: "ip_pcb_pointer cfg i s = Some a" "ip_pcb_at (get_protocol cfg i s) (Some a) (lw s) = Some b" by blast
  show ?thesis
    using ab False
    by (auto simp: shim_ip_getsockopt_def Let_def not_less split: option.splits xtcp_ip_socket_option_t.splits)
qed (simp add: shim_ip_getsockopt_def)

lemma safe_getsockopt:
  assumes "status (find_client_connection cfg c i s) = XTCP_SUCCESS \<Longrightarrow> get_protocol cfg i s \<noteq> XTCP_PROTOCOL_NONE \<Longrightarrow>
      pcb_live cfg s i" "unat len \<le> length value"
  shows "\<exists>r. getsockopt_case F L cfg c i level opt value len s = Some r"
proof (cases "status (find_client_connection cfg c i s) = XTCP_SUCCESS")
  case True
  obtain r value' n where g: "shim_ip_getsockopt F L cfg i opt (replicate (unat len) 0) len s = Some (r, value', n)"
    "length value' = unat len" "r = XTCP_SUCCESS \<Longrightarrow> n = 1 \<and> len \<noteq> 0"
    using safe_ip_getsockopt [OF assms(1) [OF True], of F L opt "replicate (unat len) 0" len] by auto
  have "1 \<le> unat len" if "len \<noteq> 0" using that by (simp add: Suc_le_eq unat_gt_0)
  then have "memcpy_from value' (unat n) value \<noteq> None" if "r = XTCP_SUCCESS"
    using that g(2,3) assms(2) by (auto simp: memcpy_from_def)
  with g(1) show ?thesis
    by (cases level) (auto simp: getsockopt_case_def shim_getsockopt_def Let_def)
qed (simp add: getsockopt_case_def shim_getsockopt_def Let_def)

lemma safe_setsockopt:
  assumes "mem_inv cfg held A s" "lwip_contract L held"
    and "status (find_client_connection cfg c i s) = XTCP_SUCCESS \<Longrightarrow> get_protocol cfg i s \<noteq> XTCP_PROTOCOL_NONE \<Longrightarrow>
      pcb_live cfg s i" "unat len \<le> length value"
  shows "\<exists>r s'. shim_setsockopt F L cfg c i level opt value len s = Some (r, s') \<and> mem_inv cfg held A s'"
proof (cases "status (find_client_connection cfg c i s) = XTCP_SUCCESS")
  case own: True
  have "\<exists>r s'. shim_ip_setsockopt F L cfg i opt value len s = Some (r, s') \<and> mem_inv cfg held A s'"
  proof (cases "get_protocol cfg i s = XTCP_PROTOCOL_NONE \<or> len < 1")
    case True
    with assms(1) show ?thesis
      by (auto simp: shim_ip_setsockopt_def Let_def split: option.splits xtcp_ip_socket_option_t.splits)
  next
    case False
    from pcb_live_cases assms(3) [OF own] False obtain a b where
      ab: "ip_pcb_pointer cfg i s = Some a" "ip_pcb_at (get_protocol cfg i s) (Some a) (lw s) = Some b" by metis
    obtain w ws where w: "value = w # ws"
      using False assms(4) by (cases "value") (auto simp: word_less_nat_alt)
    have put: "\<exists>st'. put_ip_pcb (get_protocol cfg i s) (Some a) x (lw s) = Some st' \<and> mem_inv cfg held A (s\<lparr>lw := st'\<rparr>)" for x
      using put_ip_pcb_total [OF ab(2), of x] mem_same_bufs [OF assms(1)] by blast
    show ?thesis
      using ab False w put [of "b\<lparr>tos := w\<rparr>"] put [of "b\<lparr>ttl := w\<rparr>"] assms(1) mem_effects(6-8) [OF assms(2,1)]
      by (auto simp: shim_ip_setsockopt_def Let_def first_byte_def
          split: option.splits xtcp_ip_socket_option_t.splits)
  qed
  with assms(1) show ?thesis by (cases level) (auto simp: shim_setsockopt_def Let_def)
qed (use assms(1) in \<open>simp add: shim_setsockopt_def Let_def\<close>)

lemma safe_ipconfig:
  assumes "ip_pcb_pointer cfg i s \<noteq> None \<Longrightarrow> pcb_live cfg s i"
  shows "\<exists>h. get_remote_from_pcb cfg i s = Some h" "\<exists>h. get_local_from_pcb cfg i s = Some h"
proof -
  have "tcp_pcbs (lw s) a \<noteq> None" if "get_tcp_pcb cfg i s = Some a" "in_range cfg i" "c_protocol (conn s i) = XTCP_PROTOCOL_TCP" for a
    using assms that by (auto simp: pcb_live_def ip_pcb_pointer_def ip_pcb_at_def get_protocol_def)
  moreover have "udp_pcbs (lw s) a \<noteq> None" if "get_udp_pcb cfg i s = Some a" "in_range cfg i" "c_protocol (conn s i) = XTCP_PROTOCOL_UDP" for a
    using assms that by (auto simp: pcb_live_def ip_pcb_pointer_def ip_pcb_at_def get_protocol_def)
  ultimately show "\<exists>h. get_remote_from_pcb cfg i s = Some h" "\<exists>h. get_local_from_pcb cfg i s = Some h"
    by (auto simp: get_remote_from_pcb_def get_local_from_pcb_def split: option.splits)
qed

end
