(* ===== verification/Server_Safety.thy ===== *)
theory Server_Safety
  imports Call_Safety
begin

text \<open>
  A turn of the server's loop returns and keeps the invariants when its input is a proper one, and
  so does every run of the server from its initialisation.
\<close>

section \<open>Proper inputs\<close>

text \<open>
  What is asked of one input in the state it arrives in. lwIP and the network port behave
  (\<open>prog_ok\<close>); a client passes arrays that are as long as it says.
\<close>

primrec mii_ok ::
  "lwip_flags \<Rightarrow> 'w environment \<Rightarrow> 'w lwip \<Rightarrow> xtcp_config \<Rightarrow> ('w \<Rightarrow> addr set) \<Rightarrow> (u8 list \<times> u32) list
     \<Rightarrow> 'w xtcp_state \<Rightarrow> bool" where
  "mii_ok F E L cfg held [] s \<longleftrightarrow> True"
| "mii_ok F E L cfg held (pkt # pkts) s \<longleftrightarrow>
     prog_ok F L cfg held (ethernetif_input E (fst pkt) (snd pkt) 0 (lw s)) s \<and>
     (\<forall>r s'. run_lwip (handle_callback F L cfg) (ethernetif_input E (fst pkt) (snd pkt) 0 (lw s)) s = Some (r, s') \<longrightarrow>
        mii_ok F E L cfg held pkts s')"

definition may_open ::
  "lwip_flags \<Rightarrow> 'w lwip \<Rightarrow> xtcp_config \<Rightarrow> ('w \<Rightarrow> addr set) \<Rightarrow> u32 \<Rightarrow> xtcp_protocol_t \<Rightarrow> 'w xtcp_state \<Rightarrow> bool" where
  "may_open F L cfg held c p s \<longleftrightarrow>
     (let (k, s) = assign_client_connection cfg c p s
      in p = XTCP_PROTOCOL_TCP \<and> status k = XTCP_SUCCESS \<longrightarrow> prog_ok F L cfg held (tcp_new_ip_type L (lw s)) s)"

definition may_read :: "u8 list \<Rightarrow> u32 \<Rightarrow> bool" where
  "may_read buffer len \<longleftrightarrow> unat len \<le> length buffer \<and> unat len < 2 ^ 31"

fun input_ok ::
  "lwip_flags \<Rightarrow> 'w environment \<Rightarrow> 'w lwip \<Rightarrow> xtcp_config \<Rightarrow> ('w \<Rightarrow> addr set) \<Rightarrow> server_input
     \<Rightarrow> 'w xtcp_state \<Rightarrow> bool" where
  "input_ok F E L cfg held (Packet_data b n ts) s \<longleftrightarrow> prog_ok F L cfg held (ethernetif_input E b n ts (lw s)) s"
| "input_ok F E L cfg held (Link_status up) s \<longleftrightarrow>
     prog_ok F L cfg held ((if up then xcore_net_link_up E else xcore_net_link_down E) (lw s)) s"
| "input_ok F E L cfg held (Mii_packets pkts) s \<longleftrightarrow> mii_ok F E L cfg held pkts s"
| "input_ok F E L cfg held (Timer i) s \<longleftrightarrow> prog_ok F L cfg held (xcore_timeout E i (lw s)) s"
| "input_ok F E L cfg held (Socket c p) s \<longleftrightarrow> may_open F L cfg held c p s"
| "input_ok F E L cfg held (Send c x b n t) s \<longleftrightarrow> may_send b n"
| "input_ok F E L cfg held (Sendto c x b n a p t) s \<longleftrightarrow> may_send b n"
| "input_ok F E L cfg held (Recv c x b n t) s \<longleftrightarrow> may_read b n"
| "input_ok F E L cfg held (Recvfrom c x b n t) s \<longleftrightarrow> may_read b n"
| "input_ok F E L cfg held (Getsockopt c x l opt b n) s \<longleftrightarrow> unat n \<le> length b"
| "input_ok F E L cfg held (Setsockopt c x l opt b n) s \<longleftrightarrow> unat n \<le> length b"
| "input_ok F E L cfg held _ s \<longleftrightarrow> True"

text \<open>
  The faults of the library that are left. \<open>fault\<close>: the turns in which it touches memory that is
  not its own, a message of 65536 bytes or more, a message whose timestamp is read from the freed buffer,
  and an option or an address of a socket that has no control block (its opening failed) or whose
  block lwIP has freed. \<open>stale\<close>: the calls on a socket whose control block lwIP has freed. Nearly all
  of them hand lwIP that block; the functions of lwIP are total in the model, so that such a turn
  returns, but nothing is said of a run after it.
\<close>

definition its_socket :: "xtcp_config \<Rightarrow> u32 \<Rightarrow> int \<Rightarrow> 'w xtcp_state \<Rightarrow> bool" where
  "its_socket cfg c x s \<longleftrightarrow> status (find_client_connection cfg c x s) = XTCP_SUCCESS"

fun fault :: "'w lwip \<Rightarrow> xtcp_config \<Rightarrow> server_input \<Rightarrow> 'w xtcp_state \<Rightarrow> bool" where
  "fault L cfg (Send c x b n t) s \<longleftrightarrow> its_socket cfg c x s \<and> send_faults L n"
| "fault L cfg (Sendto c x b n a p t) s \<longleftrightarrow>
     its_socket cfg c x s \<and> get_protocol cfg x s \<noteq> XTCP_PROTOCOL_TCP \<and> send_faults L n"
| "fault L cfg (Getsockopt c x l opt b n) s \<longleftrightarrow>
     its_socket cfg c x s \<and> get_protocol cfg x s \<noteq> XTCP_PROTOCOL_NONE \<and> \<not> pcb_live cfg s x"
| "fault L cfg (Setsockopt c x l opt b n) s \<longleftrightarrow>
     its_socket cfg c x s \<and> get_protocol cfg x s \<noteq> XTCP_PROTOCOL_NONE \<and> \<not> pcb_live cfg s x"
| "fault L cfg (Get_ipconfig_remote c x) s \<longleftrightarrow> ip_pcb_pointer cfg x s \<noteq> None \<and> \<not> pcb_live cfg s x"
| "fault L cfg (Get_ipconfig_local c x) s \<longleftrightarrow> ip_pcb_pointer cfg x s \<noteq> None \<and> \<not> pcb_live cfg s x"
| "fault L cfg _ s \<longleftrightarrow> False"

definition stale :: "xtcp_config \<Rightarrow> server_input \<Rightarrow> 'w xtcp_state \<Rightarrow> bool" where
  "stale cfg inp s \<longleftrightarrow>
     (\<exists>c x. socket_call inp = Some (c, x) \<and> its_socket cfg c x s \<and>
        ip_pcb_pointer cfg x s \<noteq> None \<and> \<not> pcb_live cfg s x)"

section \<open>The cases of the loop\<close>

text \<open>The clients of a server that was given \<open>n\<close> of them.\<close>

abbreviation clients :: "u32 \<Rightarrow> u32 \<Rightarrow> bool" where
  "clients n \<equiv> (\<lambda>c. n = 0 \<or> c < n)"

lemma safe_recv:
  assumes "safe cfg N held A s" "rx_contract L held" "may_read b n" "c \<noteq> DEINIT"
  shows "\<exists>k s'. recv_common L cfg c x b n t s = Some (k, s') \<and>
      (case k of (r, buf, ts) \<Rightarrow> Data_reply r buf ts) = fst (sv_recv c x b n t A) \<and>
      mem_inv cfg held (snd (sv_recv c x b n t A)) s'"
    and "\<exists>k s'. recvfrom_common L cfg c x b n t s = Some (k, s') \<and>
      (case k of (r, buf, ts, h) \<Rightarrow> From_reply r buf ts h) = fst (sv_recvfrom c x b n t A) \<and>
      mem_inv cfg held (snd (sv_recvfrom c x b n t A)) s'"
proof -
  let ?f = "find_client_connection cfg c x s"
  note M = safeD(2) [OF assms(1)]
  have own: "status ?f = XTCP_SUCCESS \<longleftrightarrow> owns A c x" by (rule safe_owns [OF assms(1,4)])
  have r: "in_range cfg x" "map_option snd (sv_owner A x) = Some (get_protocol cfg x s)" if "owns A c x"
    using that mem_fields(1) [OF M] by (auto simp: owns_def owner_def get_protocol_def split: if_splits)
  have no: "status ?f = XTCP_EINVAL" if "\<not> owns A c x"
    using own that by (auto simp: find_client_connection_eq split: if_splits)
  have t: "\<exists>s'. take_remote_data L cfg x b n t s = Some (fst (sv_read x b n t A), s') \<and>
      mem_inv cfg held (snd (sv_read x b n t A)) s'" if "owns A c x"
    by (rule safe_take_remote_data [OF assms(1,2) r(1) [OF that]]) (use assms(3) in \<open>simp_all add: may_read_def\<close>)
  show "\<exists>k s'. recv_common L cfg c x b n t s = Some (k, s') \<and>
      (case k of (r, buf, ts) \<Rightarrow> Data_reply r buf ts) = fst (sv_recv c x b n t A) \<and>
      mem_inv cfg held (snd (sv_recv c x b n t A)) s'"
    using own no t M by (cases "owns A c x") (auto simp: recv_common_def sv_recv_def split: prod.splits)
  show "\<exists>k s'. recvfrom_common L cfg c x b n t s = Some (k, s') \<and>
      (case k of (r, buf, ts, h) \<Rightarrow> From_reply r buf ts h) = fst (sv_recvfrom c x b n t A) \<and>
      mem_inv cfg held (snd (sv_recvfrom c x b n t A)) s'"
    using own no t M r safe_get_remote [OF assms(1)]
    by (cases "owns A c x") (auto simp: recvfrom_common_def sv_recvfrom_def split: prod.splits)
qed

lemma safe_get_event:
  assumes "safe cfg N held A s" "N c"
  shows "\<exists>e i q. get_event cfg c (queues s) = Some ((e, i), q) \<and>
    fst (fifo_deq c (sv_events A)) = event e i \<and>
    mem_inv cfg held (A\<lparr>sv_events := snd (fifo_deq c (sv_events A))\<rparr>) (s\<lparr>queues := q\<rparr>)"
proof -
  note D = ctlD [OF safeD(1) [OF assms(1)]] and M = safeD(2) [OF assms(1)]
  have "notifiable (notify (queues s)) c" using D(3) assms(2) by simp
  then obtain e i q where q: "get_event cfg c (queues s) = Some ((e, i), q)" using get_event_total [OF D(2)] by blast
  have "fst (fifo_deq c (sv_events A)) = event e i \<and> queued q = snd (fifo_deq c (sv_events A))"
    using get_event_spec(1,2) [OF D(2) q] mem_fields(2) [OF M]
    by (cases "queued (queues s) c") (auto simp: fifo_deq_def fun_upd_idem)
  with q mem_queues [OF M, of q] show ?thesis by auto
qed

lemma ctl_notify_all_spec:
  assumes "ctl cfg (clients n) s"
  shows "\<exists>q. notify_all cfg e s = Some (s\<lparr>queues := q\<rparr>) \<and>
    queued q = (\<lambda>c. if c < n \<and> has_room cfg c s then queued (queues s) c @ [event e 0] else queued (queues s) c)"
proof -
  note D = ctlD [OF assms]
  have n: "n_xtcp (notify (queues s)) = n" by (rule notifiable_count [OF D(6,3)])
  have "unat (0 :: u32) + unat n < 2 ^ 32" using unsigned_less [of n] by simp
  moreover have "notifiable (notify (queues s)) c" if "unat c < unat n" for c
    using D(3) that by (simp add: word_less_nat_alt)
  ultimately show ?thesis
    using notify_from_spec [OF D(2), of 0 "unat n" e] n by (auto simp: notify_all_def word_less_nat_alt)
qed

lemma safe_notify_all:
  assumes "safe cfg (clients n) held A s"
  shows "\<exists>s'. notify_all cfg e s = Some s' \<and> safe cfg (clients n) held (announce cfg n e A) s'"
proof -
  note M = safeD(2) [OF assms]
  obtain q where q: "notify_all cfg e s = Some (s\<lparr>queues := q\<rparr>)"
    "queued q = (\<lambda>c. if c < n \<and> has_room cfg c s then queued (queues s) c @ [event e 0] else queued (queues s) c)"
    using ctl_notify_all_spec [OF safeD(1) [OF assms]] by blast
  then have "announce cfg n e A = A\<lparr>sv_events := queued q\<rparr>"
    using mem_fields(2) [OF M] by (simp add: announce_def tell_eq has_room_def fun_eq_iff)
  with q mem_queues [OF M, of q] ctl_notify_all [OF safeD(1) [OF assms] q(1)] show ?thesis
    by (simp add: safe_def)
qed

lemma safe_mii:
  "safe cfg N held A (sys v) \<Longrightarrow> lwip_contract L held \<Longrightarrow> mii_ok F E L cfg held pkts (sys v) \<Longrightarrow>
   \<exists>v' A'. mii_case F E L cfg pkts v = Some v' \<and> net_steps cfg A A' \<and> safe cfg N held A' (sys v')"
proof (induction pkts arbitrary: A v)
  case (Cons pkt pkts)
  let ?p = "ethernetif_input E (fst pkt) (snd pkt) 0 (lw (sys v))"
  have p: "prog_ok F L cfg held ?p (sys v)" using Cons.prems(3) by simp
  obtain r s1 A1 where s1: "run_lwip (handle_callback F L cfg) ?p (sys v) = Some (r, s1)"
    "net_steps cfg A A1" "safe cfg N held A1 s1"
    using safe_run_lwip [OF Cons.prems(1) lwip_contractD(2) [OF Cons.prems(2)] p] by blast
  let ?v = "v\<lparr>sys := s1, eth_calls := eth_calls v @ [Mii_release_packet (fst pkt)]\<rparr>"
  have "mii_ok F E L cfg held pkts (sys ?v)" "safe cfg N held A1 (sys ?v)" using Cons.prems(3) s1(1,3) by auto
  from Cons.IH [OF this(2) Cons.prems(2) this(1)] s1(1,2) show ?case by (auto intro: rtranclp_trans)
qed auto

lemma safe_link:
  assumes "safe cfg (clients n) held A (sys v)" "lwip_contract L held"
    and "input_ok F E L cfg held (Link_status up) (sys v)"
  shows "\<exists>v' A'. link_case F E L cfg up v = Some v' \<and> service_turn cfg n (Link_status up) Unit A A' \<and>
    mem_inv cfg held A' (sys v')"
proof -
  let ?p = "(if up then xcore_net_link_up E else xcore_net_link_down E) (lw (sys v))"
  obtain r s A1 where s: "run_lwip (handle_callback F L cfg) ?p (sys v) = Some (r, s)" "net_steps cfg A A1"
    "safe cfg (clients n) held A1 s"
    using safe_run_lwip [OF assms(1) lwip_contractD(2) [OF assms(2)], of F ?p] assms(3) by auto
  obtain s' where s': "notify_all cfg XTCP_IFDOWN s = Some s'" "mem_inv cfg held (announce cfg n XTCP_IFDOWN A1) s'"
    using safe_notify_all [OF s(3)] by (auto simp: safe_def)
  let ?A = "if up then A1 else announce cfg n XTCP_IFDOWN A1"
  have "\<exists>v'. link_case F E L cfg up v = Some v' \<and> mem_inv cfg held ?A (sys v')"
    using s s' safeD(2) [OF s(3)] by (cases up) (simp_all add: link_case_def)
  moreover have "service_turn cfg n (Link_status up) Unit A ?A" using s(2) by auto
  ultimately show ?thesis by blast
qed

lemma safe_timer:
  assumes "safe cfg (clients n) held A (sys v)" "lwip_contract L held" "input_ok F E L cfg held (Timer i) (sys v)"
  shows "\<exists>v' A'. timer_case F E L cfg i v = Some v' \<and> service_turn cfg n (Timer i) Unit A A' \<and>
    mem_inv cfg held A' (sys v')"
proof -
  obtain r s A1 where s: "run_lwip (handle_callback F L cfg) (xcore_timeout E i (lw (sys v))) (sys v) = Some (r, s)"
    "net_steps cfg A A1" "safe cfg (clients n) held A1 s"
    using safe_run_lwip [OF assms(1) lwip_contractD(2) [OF assms(2)], of F "xcore_timeout E i (lw (sys v))"]
      assms(3) by auto
  obtain s' where "notify_all cfg XTCP_IFUP s = Some s'" "safe cfg (clients n) held (announce cfg n XTCP_IFUP A1) s'"
    using safe_notify_all [OF s(3)] by blast
  with s safeD(2) [OF s(3)] show ?thesis
    by (cases "i = 0 \<and> ethernetif_has_ip_address E (lw s) = error_code XTCP_SUCCESS \<and>
        netif_notify_state v = 0 \<and> get_if_state E (lw s) \<noteq> 0")
      (auto simp: timer_case_def Let_def safe_def)
qed

lemma mem_small_calls:
  assumes "mem_inv cfg held A s" "lwip_contract L held"
  shows "mem_inv cfg held A (snd (shim_join_multicast_group L a s))"
    "mem_inv cfg held A (snd (shim_leave_multicast_group L a s))"
    "mem_inv cfg held A (snd (request_host_case E L c h d s))"
proof -
  show "mem_inv cfg held A (snd (shim_join_multicast_group L a s))"
    "mem_inv cfg held A (snd (shim_leave_multicast_group L a s))"
    using mem_results(7,8) [OF assms(2,1)]
    by (auto simp: shim_join_multicast_group_def shim_leave_multicast_group_def split: prod.splits)
  have m: "mem_inv cfg held A (upd_lw (dns_setserver L 0 d) s)" by (rule mem_effects(5) [OF assms(2,1)])
  have "mem_inv cfg held A (s\<lparr>lw := st\<rparr>)"
    if "dns_gethostbyname L h c (lw (upd_lw (dns_setserver L 0 d) s)) = (x, st)" for x st
    using mem_results(9) [OF assms(2) m that] by (simp add: upd_lw_def)
  then show "mem_inv cfg held A (snd (request_host_case E L c h d s))"
    using assms(1)
    by (auto simp: request_host_case_def shim_request_host_by_name_def upd_lw_def split: prod.splits)
qed

lemma mem_set_client_data:
  assumes "mem_inv cfg held A s" "table_inv cfg s" "c \<noteq> DEINIT"
  shows "mem_inv cfg held A (snd (set_client_data_case cfg c x d s))"
proof (cases "in_range cfg x \<and> c_client_num (conn s x) = c")
  case True
  with assms(3) table_inv_entry [OF assms(2), of x] have "entry_ok ((conn s x)\<lparr>c_client_data := d\<rparr>)"
    by (auto simp: entry_ok_def)
  then have "mem_inv cfg held A (upd_conn x (\<lambda>e. e\<lparr>c_client_data := d\<rparr>) s)"
    using True by (intro mem_upd_entry assms(1,2)) simp_all
  with True show ?thesis
    by (simp add: set_client_data_case_def set_connection_client_data_def find_client_connection_eq)
qed (use assms(1) in \<open>auto simp: set_client_data_case_def find_client_connection_eq\<close>)

lemma sys_multicast: "sys (multicast_case E call shim a v) = snd (shim a (sys v))"
  by (simp add: multicast_case_def Let_def split: bool.splits option.splits)

section \<open>One turn of the loop\<close>

text \<open>The calls that leave the service as it is.\<close>

lemma mem_quiet_step:
  assumes M: "mem_inv cfg held A (sys v)" and T: "table_inv cfg (sys v)" and L: "lwip_contract L held"
    and I: "input_ok F E L cfg held inp (sys v)" and G: "\<not> fault L cfg inp (sys v)"
    and C: "\<And>c. caller inp = Some c \<Longrightarrow> c \<noteq> DEINIT" and Q: "quiet_call inp"
  shows "\<exists>r v'. server_step F E L cfg inp v = Some (r, v') \<and> mem_inv cfg held A (sys v')"
proof (cases inp)
  case (Listen c x p a)
  with mem_listen [OF M T L, of c x p a] show ?thesis by (simp add: reply_sys_def prod_eq_iff)
next
  case (Connect c x p a)
  with M mem_connect [OF M L, of c x p a] show ?thesis
    by (simp add: reply_sys_def connect_case_def prod_eq_iff Let_def)
next
  case (Send c x b n t)
  with I G have "may_send b n" "its_socket cfg c x (sys v) \<Longrightarrow> \<not> send_faults L n" by auto
  with Send M safe_send(1) [OF M lwip_contractD(4,3) [OF L], of c x b n F t] show ?thesis
    by (cases "in_range cfg x \<and> c_client_num (conn (sys v) x) = c")
      (auto simp: its_socket_def send_common_def find_client_connection_eq reply_sys_def)
next
  case (Sendto c x b n a p t)
  with I G have "may_send b n"
    "its_socket cfg c x (sys v) \<Longrightarrow> get_protocol cfg x (sys v) \<noteq> XTCP_PROTOCOL_TCP \<Longrightarrow> \<not> send_faults L n" by auto
  with Sendto M safe_send(2) [OF M lwip_contractD(4,3) [OF L], of c x b n F a p t] show ?thesis
    by (cases "in_range cfg x \<and> c_client_num (conn (sys v) x) = c"; cases "get_protocol cfg x (sys v)")
      (auto simp: its_socket_def sendto_common_def find_client_connection_eq reply_sys_def)
next
  case (Set_connection_client_data c x d)
  with mem_set_client_data [OF M T] C [of c] show ?thesis by (simp add: reply_sys_def)
next
  case (Getsockopt c x l opt b n)
  with safe_getsockopt [of cfg c x "sys v" n b F L l opt] I G M show ?thesis
    by (auto simp: its_socket_def)
next
  case (Setsockopt c x l opt b n)
  with safe_setsockopt [OF M L, of c x n b F l opt] I G show ?thesis
    by (auto simp: its_socket_def reply_sys_def)
next
  case (Get_ipconfig_remote c x)
  with safe_ipconfig(1) [of cfg x "sys v"] G M show ?thesis by auto
next
  case (Get_ipconfig_local c x)
  with safe_ipconfig(2) [of cfg x "sys v"] G M show ?thesis by auto
next
  case (Request_host_by_name c h d)
  with mem_small_calls(3) [OF M L] show ?thesis by (simp add: reply_sys_def)
qed (use M mem_small_calls(1,2) [OF M L] Q in \<open>simp_all add: sys_multicast\<close>)

lemma quiet_turn:
  assumes "safe cfg N held A (sys v)" "lwip_contract L held" "input_ok F E L cfg held inp (sys v)"
    and "\<not> fault L cfg inp (sys v)" "\<And>c. caller inp = Some c \<Longrightarrow> c \<noteq> DEINIT" "quiet_call inp"
  shows "\<exists>r v'. server_step F E L cfg inp v = Some (r, v') \<and> service_turn cfg n inp r A A \<and> mem_inv cfg held A (sys v')"
proof -
  note T = ctlD(1) [OF safeD(1) [OF assms(1)]] and M = safeD(2) [OF assms(1)]
  obtain r v' where v': "server_step F E L cfg inp v = Some (r, v')" "mem_inv cfg held A (sys v')"
    using mem_quiet_step [OF M T assms(2-6)] by blast
  have "owns A c x \<or> r = refusal inp" if x: "socket_call inp = Some (c, x)" for c x
  proof -
    have "caller inp = Some c" using x by (cases inp) auto
    from foreign_call [OF T assms(5) [OF this] x, of F E L] v'(1) mem_fields(1) [OF M] show ?thesis
      by (auto simp: owns_def)
  qed
  with v' assms(6) show ?thesis by (auto simp: service_turn_quiet split: option.splits)
qed

lemma mem_server_step:
  assumes S: "safe cfg (clients n) held A (sys v)" and L: "lwip_contract L held"
    and I: "input_ok F E L cfg held inp (sys v)" and G: "\<not> fault L cfg inp (sys v)"
    and C: "\<And>c. caller inp = Some c \<Longrightarrow> clients n c \<and> c \<noteq> DEINIT"
  shows "\<exists>r v' A'. server_step F E L cfg inp v = Some (r, v') \<and> service_turn cfg n inp r A A' \<and>
    mem_inv cfg held A' (sys v')"
proof -
  note D = ctlD [OF safeD(1) [OF S]] and M = safeD(2) [OF S]
  have quiet: ?thesis if "quiet_call inp" using quiet_turn [OF S L I G _ that] C by blast
  show ?thesis
  proof (cases inp)
    case (Packet_data b m ts)
    then have "prog_ok F L cfg held (ethernetif_input E b m ts (lw (sys v))) (sys v)" using I by simp
    from safe_run_lwip [OF S lwip_contractD(2) [OF L] this] Packet_data show ?thesis
      by (auto simp: reply_sys_def safe_def)
  next
    case (Link_status up)
    with I have "input_ok F E L cfg held (Link_status up) (sys v)" by simp
    from safe_link [OF S L this] Link_status show ?thesis by auto
  next
    case (Mii_packets pkts)
    with I have "mii_ok F E L cfg held pkts (sys v)" by simp
    from safe_mii [OF S L this] Mii_packets show ?thesis by (auto simp: safe_def)
  next
    case (Timer i)
    with I have "input_ok F E L cfg held (Timer i) (sys v)" by simp
    from safe_timer [OF S L this] Timer show ?thesis by auto
  next
    case (Get_event c)
    with C [of c] have "clients n c" by simp
    from safe_get_event [OF S this] Get_event show ?thesis by auto
  next
    case (Socket c p)
    obtain k s1 where k: "assign_client_connection cfg c p (sys v) = (k, s1)" by force
    have "p = XTCP_PROTOCOL_TCP \<Longrightarrow> status k = XTCP_SUCCESS \<Longrightarrow> prog_ok F L cfg held (tcp_new_ip_type L (lw s1)) s1"
      using I Socket k by (simp add: may_open_def)
    moreover have "c \<noteq> DEINIT" "clients n c" using C [of c] Socket by simp_all
    ultimately have "\<exists>r s' A'. socket_case F L cfg c p (sys v) = Some (r, s') \<and> sv_socket cfg c p r A A' \<and>
        mem_inv cfg held A' s'"
      using safe_new_socket [OF S L _ _ k] by blast
    with Socket show ?thesis by (auto simp: reply_sys_def)
  next
    case (Close c x)
    with C [of c] have "c \<noteq> DEINIT" by simp
    from safe_close [OF S L this, of x] Close show ?thesis by auto
  next
    case (Abort c x)
    with C [of c] have "c \<noteq> DEINIT" by simp
    from safe_close [OF S L this, of x] Abort show ?thesis by auto
  next
    case (Recv c x b m t)
    with safe_recv(1) [OF S lwip_contractD(3) [OF L], of b m c x t] I C [of c] show ?thesis
      by (auto simp: reply_sys_def prod_eq_iff)
  next
    case (Recvfrom c x b m t)
    with safe_recv(2) [OF S lwip_contractD(3) [OF L], of b m c x t] I C [of c] show ?thesis
      by (auto simp: reply_sys_def prod_eq_iff)
  qed (rule quiet; simp)+
qed

lemma safe_server_step:
  assumes "safe cfg (clients n) held A (sys v)" "lwip_contract L held" "input_ok F E L cfg held inp (sys v)"
    and "\<not> fault L cfg inp (sys v)" "\<And>c. caller inp = Some c \<Longrightarrow> clients n c \<and> c \<noteq> DEINIT"
  shows "\<exists>r v' A'. server_step F E L cfg inp v = Some (r, v') \<and> service_turn cfg n inp r A A' \<and>
    safe cfg (clients n) held A' (sys v')"
proof -
  obtain r v' A' where v': "server_step F E L cfg inp v = Some (r, v')" "service_turn cfg n inp r A A'"
    "mem_inv cfg held A' (sys v')"
    using mem_server_step [OF assms] by blast
  with ctl_server_step [OF safeD(1) [OF assms(1)] v'(1) assms(5)] show ?thesis by (auto simp: safe_def)
qed

section \<open>Every run\<close>

text \<open>The states that a server with \<open>n\<close> clients reaches through proper inputs, none of them a fault.\<close>

inductive safe_reach ::
  "lwip_flags \<Rightarrow> 'w environment \<Rightarrow> 'w lwip \<Rightarrow> xtcp_config \<Rightarrow> ('w \<Rightarrow> addr set) \<Rightarrow> u32 \<Rightarrow> 'w server_state \<Rightarrow> bool"
  for F E L cfg held n where
  start: "server_init E cfg n ipconfig time_now s = Some v \<Longrightarrow>
     last_guid s = 0 \<Longrightarrow> notify (queues s) = notify_start \<Longrightarrow> safe_reach F E L cfg held n v"
| turn: "safe_reach F E L cfg held n v \<Longrightarrow> (\<And>c. caller inp = Some c \<Longrightarrow> c < n) \<Longrightarrow>
     input_ok F E L cfg held inp (sys v) \<Longrightarrow> \<not> fault L cfg inp (sys v) \<Longrightarrow> \<not> stale cfg inp (sys v) \<Longrightarrow>
     server_step F E L cfg inp v = Some (r, v') \<Longrightarrow> safe_reach F E L cfg held n v'"

lemma server_init_queues:
  assumes "server_init E cfg n ipconfig time_now s = Some v"
  shows "\<exists>qs. queues (sys v) = xtcp_init_queue cfg qs"
  using assms
  by (cases "xcore_lwip_init_timers E (replicate (NUM_TIMEOUTS E) (XS1_TIMER_KHZ E)) time_now")
    (auto simp: server_init_def Let_def bind_eq_Some_conv init_client_connections_def split: if_splits)

lemma mem_server_init:
  assumes "server_init E cfg n ipconfig time_now s = Some v" "ctl cfg N (sys v)"
  shows "mem_inv cfg held empty_service (sys v)"
proof -
  have c: "connections (sys v) = replicate (MAX_OPEN_SOCKETS cfg) deinit_entry"
    using assms(1)
    by (cases "xcore_lwip_init_timers E (replicate (NUM_TIMEOUTS E) (XS1_TIMER_KHZ E)) time_now")
      (auto simp: server_init_def Let_def bind_eq_Some_conv init_client_connections_def split: if_splits)
  then have e: "c_pbuf (conn (sys v) i) = None" "c_is_active (conn (sys v) i) = 0" if "in_range cfg i" for i
    using that by (simp_all add: deinit_entry_def in_range_def nat_less_iff)
  have "queued (queues (sys v)) = (\<lambda>_. [])"
    using server_init_queues [OF assms(1)] by (auto simp: xtcp_init_queue_queued)
  then have "view cfg (\<lambda>_. []) (sys v) = empty_service"
    using e(2) by (simp add: view_def empty_service_def owner_def fun_eq_iff)
  moreover have "rx_rel cfg held (sys v) (\<lambda>_. [])" using ctlD(1) [OF assms(2)] e(1) by (simp add: rx_rel_def)
  ultimately show ?thesis using mem_invI [of cfg held "sys v" "\<lambda>_. []"] by simp
qed

lemma safe_server_init:
  assumes "server_init E cfg n ipconfig time_now s = Some v" "last_guid s = 0" "config_ok cfg"
  shows "safe cfg (clients n) held empty_service (sys v)"
  using ctl_server_init [OF assms] mem_server_init [OF assms(1)] by (simp add: safe_def)

lemma caller_ok: "c < n \<Longrightarrow> clients n c \<and> c \<noteq> DEINIT" for c n :: u32
  by (auto simp: DEINIT_def)

lemma safe_reach_safe:
  assumes "safe_reach F E L cfg held n v" "config_ok cfg" "lwip_contract L held"
  shows "\<exists>A. safe cfg (clients n) held A (sys v)"
  using assms(1)
proof induction
  case (start ipconfig time_now s v)
  from safe_server_init [OF start.hyps(1,2) assms(2)] show ?case by blast
next
  case (turn v inp r v')
  then obtain A where A: "safe cfg (clients n) held A (sys v)" by blast
  obtain r1 v1 A1 where "server_step F E L cfg inp v = Some (r1, v1)" "safe cfg (clients n) held A1 (sys v1)"
    using safe_server_step [OF A assms(3) turn.hyps(3,4)] turn.hyps(2) caller_ok by blast
  with turn.hyps(6) show ?case by auto
qed

text \<open>
  C5. Every fault of the server is one of five. From its initialisation, through any sequence of
  inputs for which lwIP keeps its contract, each datagram finds room in its owner's event queue and the
  clients' arrays are as long as they say, every further such input is handled to the end, without
  an access outside an array or through a null or stale pointer, and leaves a state of the same kind, in
  which each socket's chain of received buffers is well formed and consists of buffers that belong to
  the library; or the input is one of these: a message of 65536 bytes or more; a message, where a
  buffer that lwIP has freed cannot be read any more; an option, or an address, asked of a socket
  without a control block that is live; another call on a socket whose control block lwIP has freed,
  which may be handed to lwIP again.
\<close>

theorem only_known_faults:
  assumes "safe_reach F E L cfg held n v" "config_ok cfg" "lwip_contract L held"
    and "\<And>c. caller inp = Some c \<Longrightarrow> c < n" "input_ok F E L cfg held inp (sys v)"
  shows "fault L cfg inp (sys v) \<or> stale cfg inp (sys v) \<or>
    (\<exists>r v' R. server_step F E L cfg inp v = Some (r, v') \<and> safe_reach F E L cfg held n v' \<and>
       rx_rel cfg held (sys v') R)"
proof (cases "fault L cfg inp (sys v) \<or> stale cfg inp (sys v)")
  case False
  obtain A where "safe cfg (clients n) held A (sys v)" using safe_reach_safe [OF assms(1-3)] by blast
  then obtain r v' A' where v': "server_step F E L cfg inp v = Some (r, v')" "safe cfg (clients n) held A' (sys v')"
    using safe_server_step [OF _ assms(3,5)] False assms(4) caller_ok by blast
  with safe_reach.turn [OF assms(1,4,5) _ _ v'(1)] False show ?thesis by (auto simp: safe_def mem_inv_def)
qed blast

text \<open>
  The last of the faults does occur. When a connection that a client has made is reset, lwIP frees the
  control block and calls back with socket 0: the socket of the connection stays open with the block,
  and closing it hands the block to \<open>tcp_close\<close>.
\<close>

lemma reset_leaves_stale_block:
  assumes "owner cfg s x = Some (c, XTCP_PROTOCOL_TCP)" "x \<noteq> 0"
    and "get_tcp_pcb cfg x s = Some a" "tcp_pcbs (lw s) a = None"
    and "lwip_tcp_event L cfg 0 pcb LWIP_EVENT_ERR p sz err s = Some (e, s')"
  shows "stale cfg (Close c x) s'" "lw (close_pcb L cfg x s') = tcp_close L a (lw s')"
proof -
  note O = owner_entry [OF assms(1)]
  have "in_range cfg 0" using O(1) by (simp add: in_range_def)
  then obtain s1 where s': "s' = free_client_connection cfg 0 s1" "connections s1 = connections s" "lw s1 = lw s"
    using assms(5) by (auto simp: lwip_tcp_event_defs Let_def bind_eq_Some_conv enqueue_def split: if_splits)
  have "conn s' x = conn s x"
    using O(1) assms(2) by (simp add: s' free_client_connection_def upd_conn_def in_range_def)
  moreover have "lw s' = lw s" by (simp add: s' free_client_connection_def upd_conn_def)
  ultimately show "stale cfg (Close c x) s'" "lw (close_pcb L cfg x s') = tcp_close L a (lw s')"
    using O assms(3,4)
    by (simp_all add: stale_def its_socket_def find_client_connection_eq ip_pcb_pointer_def get_protocol_def
        get_tcp_pcb_def pcb_live_def ip_pcb_at_def close_pcb_def)
qed

section \<open>A server with two clients\<close>

definition ex_reset :: "addr set xtcp_state" where
  "ex_reset = \<lparr>connections = [], last_guid = 0, lw = ex_lw,
     queues = \<lparr>client_queue = [], client_heads = [], client_num_events = [], notify = notify_start\<rparr>\<rparr>"

definition ex_ip :: xtcp_ipconfig_t where
  "ex_ip = \<lparr>cfg_ipaddr = (10, 0, 0, 1), cfg_netmask = (255, 0, 0, 0), cfg_gateway = (10, 0, 0, 254)\<rparr>"

lemma ex_server_init:
  "\<exists>v. server_init ex_env ex_cfg 2 ex_ip 0 ex_reset = Some v \<and>
     queues (sys v) = xtcp_init_queue ex_cfg \<lparr>client_queue = [], client_heads = [], client_num_events = [],
       notify = \<lparr>n_xtcp = 2, i_xtcp = [False, False]\<rparr>\<rparr> \<and>
     netif_notify_state v = 0 \<and> connections (sys v) = [deinit_entry, deinit_entry, deinit_entry] \<and> last_guid (sys v) = 0"
proof -
  have "replicate 2 False = [False, False]" by (simp add: numeral_2_eq_2)
  then show ?thesis
    by (simp add: server_init_def ex_env_def filter_calls_def ex_reset_def upd_lw_def Let_def
        client_init_notification_def notify_start_def init_client_connections_def numeral_3_eq_3)
qed

text \<open>A network that answers a name lookup of client 1 when a packet arrives.\<close>

definition ex_dns_env :: "addr set environment" where
  "ex_dns_env = ex_env\<lparr>ethernetif_input :=
     \<lambda>b n ts st. Call (DnsFound (Some [104, 105]) (Some (10, 0, 0, 9)) 1) st (\<lambda>e st. Done () st)\<rparr>"

lemma ex_tx_contract: "tx_contract ex_lwip (\<lambda>w. w)" "freed_readable ex_lwip"
  by (auto simp: tx_contract_def allocates_def lends_def leaves_def keeps_def freed_readable_def ex_lwip_def
      ex_pbuf_free_def)

lemma ex_lwip_contract: "lwip_contract ex_lwip (\<lambda>w. w)"
  using ex_close_contract ex_tx_contract(1)
  by (simp add: lwip_contract_def accept_contract_def keeps_def) (simp add: ex_lwip_def)

theorem only_known_faults_witness:
  "\<exists>v r v' R. safe_reach ex_flags ex_dns_env ex_lwip ex_cfg (\<lambda>w. w) 2 v \<and>
     server_step ex_flags ex_dns_env ex_lwip ex_cfg (Packet_data [0] 1 0) v = Some (r, v') \<and>
     rx_rel ex_cfg (\<lambda>w. w) (sys v') R"
proof -
  have "server_init ex_dns_env ex_cfg 2 ex_ip 0 ex_reset = server_init ex_env ex_cfg 2 ex_ip 0 ex_reset"
    by (simp add: server_init_def ex_dns_env_def filter_calls_def)
  with ex_server_init obtain v where v: "server_init ex_dns_env ex_cfg 2 ex_ip 0 ex_reset = Some v"
    "notify (queues (sys v)) = \<lparr>n_xtcp = 2, i_xtcp = [False, False]\<rparr>" by auto
  have r: "safe_reach ex_flags ex_dns_env ex_lwip ex_cfg (\<lambda>w. w) 2 v"
    by (rule safe_reach.start [OF v(1)]) (simp_all add: ex_reset_def)
  have cfg: "config_ok ex_cfg" by simp
  have "notifiable (notify (queues (sys v))) 1" by (simp add: v(2) notifiable_def)
  then have "input_ok ex_flags ex_dns_env ex_lwip ex_cfg (\<lambda>w. w) (Packet_data [0] 1 0) (sys v)"
    by (auto simp: ex_dns_env_def xtcp_dns_found_def enqueue_def bind_eq_Some_conv)
  with only_known_faults [OF r cfg ex_lwip_contract, of "Packet_data [0] 1 0"] r show ?thesis by (auto simp: stale_def)
qed

end
