(* ===== verification/Stream_Properties.thy ===== *)
theory Stream_Properties
  imports Server_Safety
begin

text \<open>
  The data of every socket, from the network to the client, over any interleaving of arriving data,
  reads and collected events.
\<close>

section \<open>Interleavings\<close>

definition buffer_bytes :: "pbuf \<Rightarrow> u8 list" where
  "buffer_bytes b = take (unat (pb_len b)) (pb_payload b)"

definition packets :: "(addr \<times> pbuf) list \<Rightarrow> u8 list list" where
  "packets xs = map (buffer_bytes \<circ> snd) xs"

text \<open>
  What a read does, from its result: it returns the bytes of a packet, or it returns
  \<open>XTCP_EAGAIN\<close> and has dropped a packet, or it fails without effect. The length of the client's
  array is kept with it.
\<close>

definition read_entry :: "int \<Rightarrow> u32 \<Rightarrow> u8 list \<Rightarrow> (u32 \<times> u8 list option) list" where
  "read_entry n len buffer =
     (if 0 \<le> n then [(len, Some (take (nat n) buffer))]
      else if n = error_code XTCP_EAGAIN then [(len, None)] else [])"

text \<open>
  \<open>transfers s A D s'\<close>: from \<open>s\<close> to \<open>s'\<close> by TCP data that lwIP offers to a
  socket (accepted or refused), datagrams that find room for their event, reads by any client on any
  socket into arrays of any length, and events collected. \<open>A\<close> has the packets that were accepted on
  each socket and \<open>D\<close> what its reads have done.
\<close>

inductive transfers ::
  "lwip_flags \<Rightarrow> 'w lwip \<Rightarrow> xtcp_config \<Rightarrow> ('w \<Rightarrow> addr set) \<Rightarrow> 'w xtcp_state \<Rightarrow> (int \<Rightarrow> u8 list list)
     \<Rightarrow> (int \<Rightarrow> (u32 \<times> u8 list option) list) \<Rightarrow> 'w xtcp_state \<Rightarrow> bool"
  for F L cfg held s where
  none: "transfers F L cfg held s (\<lambda>_. []) (\<lambda>_. []) s"
| data: "transfers F L cfg held s A D s1 \<Longrightarrow> handed_over cfg held s1 p \<Longrightarrow> pbufs (lw s1) p = Some b \<Longrightarrow>
     lwip_tcp_event L cfg i pcb LWIP_EVENT_RECV (Some p) sz err s1 = Some (e, s2) \<Longrightarrow>
     transfers F L cfg held s (if e = ERR_OK then A(i := A i @ [buffer_bytes b]) else A) D s2"
| datagram: "transfers F L cfg held s A D s1 \<Longrightarrow> handed_over cfg held s1 p \<Longrightarrow> pbufs (lw s1) p = Some b \<Longrightarrow>
     in_range cfg i \<Longrightarrow> has_room cfg (get_client_info cfg i s1) s1 \<Longrightarrow>
     xtcp_udp_recv F L cfg i upcb (Some p) remote port s1 = Some s2 \<Longrightarrow>
     transfers F L cfg held s (A(i := A i @ [buffer_bytes b])) D s2"
| read: "transfers F L cfg held s A D s1 \<Longrightarrow> may_read buffer len \<Longrightarrow>
     recv_common L cfg c i buffer len timed s1 = Some ((n, buffer', ts), s2) \<Longrightarrow>
     transfers F L cfg held s A (D(i := D i @ read_entry n len buffer')) s2"
| read_from: "transfers F L cfg held s A D s1 \<Longrightarrow> may_read buffer len \<Longrightarrow>
     recvfrom_common L cfg c i buffer len timed s1 = Some ((n, buffer', ts, h), s2) \<Longrightarrow>
     transfers F L cfg held s A (D(i := D i @ read_entry n len buffer')) s2"
| collect: "transfers F L cfg held s A D s1 \<Longrightarrow> get_event cfg c (queues s1) = Some (x, q) \<Longrightarrow>
     transfers F L cfg held s A D (s1\<lparr>queues := q\<rparr>)"

section \<open>Each step\<close>

text \<open>A read took packet \<open>p\<close>: it returned all of it, or dropped it because it was longer than the array.\<close>

definition took :: "u32 \<times> u8 list option \<Rightarrow> u8 list \<Rightarrow> bool" where
  "took d p \<longleftrightarrow> snd d = (if length p \<le> unat (fst d) then Some p else None)"

text \<open>
  \<open>flow R0 A D R\<close>: what was queued and what came is, packet by packet, what the reads took and what is
  queued.
\<close>

definition flow :: "rx \<Rightarrow> (int \<Rightarrow> u8 list list) \<Rightarrow> (int \<Rightarrow> (u32 \<times> u8 list option) list) \<Rightarrow> rx \<Rightarrow> bool" where
  "flow R0 A D R \<longleftrightarrow>
     (\<forall>i. \<exists>P. packets (R0 i) @ A i = P @ packets (R i) \<and> list_all2 took (D i) P)"

lemma packets_simps [simp]:
  "packets [] = []" "packets (x # xs) = buffer_bytes (snd x) # packets xs"
  "packets (xs @ ys) = packets xs @ packets ys"
  by (simp_all add: packets_def)

lemma buffer_bytes_tag [simp]: "buffer_bytes (tag_remote remote port b) = buffer_bytes b"
  by (simp add: buffer_bytes_def)

definition rx_good :: "xtcp_config \<Rightarrow> ('w \<Rightarrow> addr set) \<Rightarrow> 'w xtcp_state \<Rightarrow> rx \<Rightarrow> bool" where
  "rx_good cfg held s R \<longleftrightarrow> sys_inv cfg held s R \<and> (\<forall>i a b. (a, b) \<in> set (R i) \<longrightarrow> buffer_ok b)"

lemma flow_arrival:
  assumes "flow R0 A D R" "buffer_bytes b' = buffer_bytes b"
  shows "flow R0 (A(i := A i @ [buffer_bytes b])) D (R(i := R i @ [(p, b')]))"
  unfolding flow_def
proof
  fix j
  obtain P where "packets (R0 j) @ A j = P @ packets (R j)" "list_all2 took (D j) P"
    using assms(1) unfolding flow_def by blast
  moreover from this have "packets (R0 j) @ A j @ [x] = P @ packets (R j) @ [x]" for x
    by (metis append_assoc)
  ultimately show "\<exists>P. packets (R0 j) @ (A(i := A i @ [buffer_bytes b])) j = P @ packets ((R(i := R i @ [(p, b')])) j) \<and>
      list_all2 took (D j) P"
    using assms(2) by (intro exI [of _ P]) auto
qed

lemma flow_taken:
  assumes "flow R0 A D R" "R i = x # ys" "took d (buffer_bytes (snd x))"
  shows "flow R0 A (D(i := D i @ [d])) (R(i := ys))"
  unfolding flow_def
proof
  fix j
  obtain P where P: "packets (R0 j) @ A j = P @ packets (R j)" "list_all2 took (D j) P"
    using assms(1) unfolding flow_def by blast
  show "\<exists>P. packets (R0 j) @ A j = P @ packets ((R(i := ys)) j) \<and> list_all2 took ((D(i := D i @ [d])) j) P"
  proof (cases "j = i")
    case True
    with P assms(2,3) show ?thesis
      by (intro exI [of _ "P @ [buffer_bytes (snd x)]"]) (simp add: list_all2_appendI)
  qed (use P in auto)
qed

lemma rx_good_arrival:
  assumes "rx_good cfg held s R" "sys_inv cfg held s' (R(i := R i @ [(p, b)]))" "buffer_ok b"
  shows "rx_good cfg held s' (R(i := R i @ [(p, b)]))"
  using assms by (auto simp: rx_good_def split: if_splits)

lemma flow_data:
  assumes "rx_good cfg held s R" "flow R0 A D R" "handed_over cfg held s p" "pbufs (lw s) p = Some b"
    and "lwip_tcp_event L cfg i pcb LWIP_EVENT_RECV (Some p) sz err s = Some (e, s')"
  shows "\<exists>R'. rx_good cfg held s' R' \<and> flow R0 (if e = ERR_OK then A(i := A i @ [buffer_bytes b]) else A) D R'"
proof (cases "in_range cfg i")
  case True
  have inv: "sys_inv cfg held s R" using assms(1) by (simp add: rx_good_def)
  obtain b' where b': "rx_arrived held s R p b'" "buffer_ok b'" by (rule handed_overD [OF assms(3) inv])
  then have b: "b' = b" using assms(4) by (simp add: rx_arrived_def)
  let ?R = "R(i := R i @ [(p, tag_remote None 0 b)])"
  have "e = ERR_OK \<and> sys_inv cfg held s' ?R \<or> e = ERR_INPROGRESS \<and> sys_inv cfg held s' R"
    using tcp_data [OF inv True b'(1) refl, of L pcb sz err] assms(5) by (auto simp: b split: if_splits)
  moreover have "flow R0 (A(i := A i @ [buffer_bytes b])) D ?R" by (rule flow_arrival [OF assms(2)]) simp
  moreover have "rx_good cfg held s' ?R" if "sys_inv cfg held s' ?R"
    by (rule rx_good_arrival [OF assms(1) that]) (use b'(2) b in simp)
  ultimately show ?thesis using assms(1,2) by (auto simp: rx_good_def)
qed (use assms in \<open>auto simp: lwip_tcp_event_defs\<close>)

lemma flow_datagram:
  assumes "rx_good cfg held s R" "flow R0 A D R" "handed_over cfg held s p" "pbufs (lw s) p = Some b"
    and "in_range cfg i" "has_room cfg (get_client_info cfg i s) s"
    and "xtcp_udp_recv F L cfg i upcb (Some p) remote port s = Some s'"
  shows "\<exists>R'. rx_good cfg held s' R' \<and> flow R0 (A(i := A i @ [buffer_bytes b])) D R'"
proof -
  have inv: "sys_inv cfg held s R" using assms(1) by (simp add: rx_good_def)
  obtain b' where b': "rx_arrived held s R p b'" "buffer_ok b'" by (rule handed_overD [OF assms(3) inv])
  then have b: "b' = b" using assms(4) by (simp add: rx_arrived_def)
  obtain r s1 u where "set_remote cfg i remote port (Some p) s = Some (r, s1)" "udp_pcbs (lw s1) upcb = Some u"
    using assms(5,7) by (auto simp: xtcp_udp_recv_def bind_eq_Some_conv)
  then have u: "udp_pcbs (lw s) upcb = Some u" using set_remote_pcbs by metis
  let ?R = "R(i := R i @ [(p, tag_remote remote port b)])"
  have "sys_inv cfg held s' ?R"
    using udp_queued [OF inv assms(5) b'(1) refl assms(6) u, of F L remote port] assms(7) by (auto simp: b)
  then have "rx_good cfg held s' ?R" by (rule rx_good_arrival [OF assms(1)]) (use b'(2) b in simp)
  moreover have "flow R0 (A(i := A i @ [buffer_bytes b])) D ?R" by (rule flow_arrival [OF assms(2)]) simp
  ultimately show ?thesis by blast
qed

text \<open>Both reads take the oldest packet of the socket when it is the caller's and fail without effect otherwise.\<close>

lemma flow_take:
  assumes "rx_good cfg held s R" "flow R0 A D R" "rx_contract L held" "may_read buffer len" "in_range cfg i"
    and "take_remote_data L cfg i buffer len timed s = Some ((n, buffer', ts), s')"
  shows "\<exists>R'. rx_good cfg held s' R' \<and> flow R0 A (D(i := D i @ read_entry n len buffer')) R'"
proof -
  have inv: "sys_inv cfg held s R" using assms(1) by (simp add: rx_good_def)
  have l: "unat len \<le> length buffer" "unat len < 2 ^ 31" using assms(4) by (simp_all add: may_read_def)
  show ?thesis
  proof (cases "R i")
    case Nil
    have "rx_rel cfg held s R" using inv by (simp add: sys_inv_def)
    from rx_relD(3) [OF this assms(5)] Nil have "c_pbuf (conn s i) = None" by simp
    with assms(5,6) have "n = -1" "s' = s"
      by (auto simp: take_remote_data_def get_remote_data_def free_remote_data_def)
    with assms(1,2) show ?thesis by (auto simp: read_entry_def)
  next
    case (Cons x ys)
    obtain p b where x: "R i = (p, b) # ys" using Cons by (cases x) simp
    have "(p, b) \<in> set (R i)" using x by simp
    then have "buffer_ok b" using assms(1) unfolding rx_good_def by blast
    then have b: "unat (pb_len b) \<le> length (pb_payload b)" by (simp add: buffer_ok_def)
    have s': "sys_inv cfg held s' (R(i := ys))"
      and n: "(n, buffer') = (if unat (pb_len b) \<le> unat len
        then (int (unat (pb_len b)), buffer_bytes b @ drop (unat (pb_len b)) buffer) else (-3, buffer))"
      using take_oldest [OF inv assms(3,5) x b l, of timed] assms(6)
      by (auto simp: buffer_bytes_def split: if_splits)
    have "length (buffer_bytes b) = unat (pb_len b)" using b by (simp add: buffer_bytes_def)
    with n obtain d where d: "read_entry n len buffer' = [d]" "took d (buffer_bytes b)"
      by (auto simp: read_entry_def took_def split: if_splits)
    have "flow R0 A (D(i := D i @ [d])) (R(i := ys))" by (rule flow_taken [OF assms(2) x]) (use d(2) in simp)
    moreover have "rx_good cfg held s' (R(i := ys))"
      using s' assms(1) x unfolding rx_good_def by (metis fun_upd_apply list.set_intros(2))
    ultimately show ?thesis using d(1) by auto
  qed
qed

lemma flow_read:
  assumes "rx_good cfg held s R" "flow R0 A D R" "rx_contract L held" "may_read buffer len"
    and "recv_common L cfg c i buffer len timed s = Some ((n, buffer', ts), s') \<or>
      recvfrom_common L cfg c i buffer len timed s = Some ((n, buffer', ts, h), s')"
  shows "\<exists>R'. rx_good cfg held s' R' \<and> flow R0 A (D(i := D i @ read_entry n len buffer')) R'"
proof (cases "take_remote_data L cfg i buffer len timed s = Some ((n, buffer', ts), s') \<and> in_range cfg i")
  case True
  with flow_take [OF assms(1-4)] show ?thesis by blast
next
  case False
  have "s' = s \<and> read_entry n len buffer' = []"
    using assms(5)
  proof
    assume "recv_common L cfg c i buffer len timed s = Some ((n, buffer', ts), s')"
    with False show ?thesis
      by (auto simp: recv_common_def read_entry_def find_client_connection_eq split: if_splits)
  next
    assume "recvfrom_common L cfg c i buffer len timed s = Some ((n, buffer', ts, h), s')"
    with False show ?thesis
      by (auto simp: recvfrom_common_def read_entry_def find_client_connection_eq bind_eq_Some_conv split: if_splits)
  qed
  with assms(1,2) show ?thesis by auto
qed

section \<open>Every interleaving\<close>

text \<open>
  C6. Data reaches the clients in order, packet by packet: over any interleaving of TCP data and datagrams
  arriving on any sockets (a datagram when its owner's event queue has room), reads by any clients into
  arrays of any length, and collected events, the packets queued on a socket at the start followed by
  those accepted on it since are exactly the packets that its reads have taken, in their order, followed by
  the packets that are still queued. A read takes one packet: it returns all of its bytes when
  they fit the client's array, and drops it with \<open>XTCP_EAGAIN\<close> exactly when they do not. So when no
  read was refused in this way, the bytes returned are the bytes accepted, without loss, duplication or
  reordering, and none comes from another socket.
\<close>

theorem bytes_in_order:
  assumes "sys_inv cfg held s R0" "\<And>i a b. (a, b) \<in> set (R0 i) \<Longrightarrow> buffer_ok b" "rx_contract L held"
    and "transfers F L cfg held s A D s'"
  shows "\<exists>R. sys_inv cfg held s' R \<and>
    (\<forall>i. (\<exists>P. packets (R0 i) @ A i = P @ packets (R i) \<and> list_all2 took (D i) P) \<and>
      ((\<forall>d \<in> set (D i). snd d \<noteq> None) \<longrightarrow>
        concat (packets (R0 i)) @ concat (A i) = concat (map (the \<circ> snd) (D i)) @ concat (packets (R i))))"
proof -
  from assms(4) have "\<exists>R. rx_good cfg held s' R \<and> flow R0 A D R"
  proof induction
    case none
    show ?case using assms(1,2) by (auto simp: rx_good_def flow_def)
  next
    case (collect A D s1 c x q)
    then obtain R where R: "rx_good cfg held s1 R" "flow R0 A D R" by blast
    then have "queue_inv cfg (queues s1)" by (simp add: rx_good_def sys_inv_def)
    from queue_trans_inv [OF queue_trans.collect [OF collect.hyps(2)] this] R show ?case
      by (auto simp: rx_good_def sys_inv_def clients_ok_def)
  next
    case (read A D s1 buffer len c i timed n buffer' ts s2)
    then obtain R where "rx_good cfg held s1 R" "flow R0 A D R" by blast
    from flow_read [OF this assms(3) read.hyps(2) disjI1 [OF read.hyps(3)]] show ?case .
  next
    case (read_from A D s1 buffer len c i timed n buffer' ts h s2)
    then obtain R where "rx_good cfg held s1 R" "flow R0 A D R" by blast
    from flow_read [OF this assms(3) read_from.hyps(2) disjI2 [OF read_from.hyps(3)]] show ?case .
  next
    case (data A D s1 p b i pcb sz err e s2)
    then obtain R where "rx_good cfg held s1 R" "flow R0 A D R" by blast
    from flow_data [OF this data.hyps(2-4)] show ?case .
  next
    case (datagram A D s1 p b i upcb remote port s2)
    then obtain R where "rx_good cfg held s1 R" "flow R0 A D R" by blast
    from flow_datagram [OF this datagram.hyps(2-6)] show ?case .
  qed
  then obtain R where R: "rx_good cfg held s' R" "flow R0 A D R" by blast
  have "concat (packets (R0 i)) @ concat (A i) = concat (map (the \<circ> snd) (D i)) @ concat (packets (R i))"
    if "\<forall>d \<in> set (D i). snd d \<noteq> None" for i
  proof -
    obtain P where P: "packets (R0 i) @ A i = P @ packets (R i)" "list_all2 took (D i) P"
      using R(2) unfolding flow_def by blast
    from P(2) that have "map (the \<circ> snd) (D i) = P"
      by (induction rule: list_all2_induct) (auto simp: took_def split: if_splits)
    with arg_cong [OF P(1), of concat] show ?thesis by simp
  qed
  with R show ?thesis by (auto simp: rx_good_def flow_def)
qed

text \<open>
  In the example a packet arrives behind two others, the first is read, and the second is dropped by a
  read into an array of no bytes.
\<close>

theorem bytes_in_order_witness:
  "\<exists>A D s' R. transfers ex_flags ex_lwip ex_cfg (\<lambda>w. w) (ex_state ex_idle) A D s' \<and> A 0 = [[68]] \<and>
     D 0 = [(3, Some [65, 66]), (0, None)] \<and> sys_inv ex_cfg (\<lambda>w. w) s' R \<and> packets (R 0) = [[68]]"
proof -
  let ?s = "ex_state ex_idle" and ?b = "ex_pbuf None [68] 9 0"
  let ?t = "transfers ex_flags ex_lwip ex_cfg (\<lambda>w. w) ?s"
  note inv = ex_sys_inv [OF ex_idle_inv(1,2)]
  have ok: "buffer_ok b" if "(a, b) \<in> set (ex_rx i)" for i a b
    using that by (auto simp: ex_rx_def ex_pbuf_def buffer_ok_def split: if_splits)
  have h: "handed_over ex_cfg (\<lambda>w. w) ?s 3"
    by (rule handed_overI [OF ex_rx_rel ex_arrived]) (simp add: ex_pbuf_def buffer_ok_def)
  have c: "0 = get_client_info ex_cfg 0 ?s" by (simp add: get_client_info_def ex_in_range ex_conns_def)
  have room: "has_room ex_cfg 0 ?s" by (simp add: has_room_def valid_client_def ex_idle_inv)
  obtain s1 where s1: "lwip_tcp_event ex_lwip ex_cfg 0 (Some 100) LWIP_EVENT_RECV (Some 3) 0 ERR_OK ?s = Some (ERR_OK, s1)"
    "sockets s1 = sockets ?s" "sys_inv ex_cfg (\<lambda>w. w) s1 (ex_rx(0 := ex_rx 0 @ [(3, tag_remote None 0 ?b)]))"
    using tcp_data [OF inv _ ex_arrived c, of ex_lwip "Some 100" 0 ERR_OK] room by (auto simp: ex_in_range)
  define A :: "int \<Rightarrow> u8 list list" where "A = (\<lambda>_. [])(0 := [] @ [buffer_bytes ?b])"
  have p: "pbufs (lw ?s) 3 = Some ?b" by (simp add: ex_lw_def)
  have t1: "?t A (\<lambda>_. []) s1" using transfers.data [OF transfers.none h p s1(1)] by (simp add: A_def)
  have o: "owner ex_cfg s1 0 = Some (0, XTCP_PROTOCOL_TCP)"
    using sockets_owner(1) [OF s1(2) ex_table_inv] by (simp add: ex_owner)
  note O = sys_owner [OF s1(3) o]
  obtain s2 R2 where s2: "recv_common ex_lwip ex_cfg 0 0 [0, 0, 0] 3 False s1 = Some ((2, [65, 66, 0], None), s2)"
    "sys_inv ex_cfg (\<lambda>w. w) s2 R2" "R2 0 = [(2, ex_pbuf None [67] 8 80), (3, tag_remote None 0 ?b)]"
    "take_remote_data ex_lwip ex_cfg 0 [0, 0, 0] 3 False s1 = Some ((2, [65, 66, 0], None), s2)"
    using take_oldest [OF s1(3) ex_lwip_rx_contract O(1), of 1 "ex_pbuf None [65, 66] 7 80" _ 3 "[0, 0, 0]" False] O(5)
    by (auto simp: recv_common_def ex_rx_def ex_pbuf_def)
  have t2: "?t A ((\<lambda>_. [])(0 := [] @ read_entry 2 3 [65, 66, 0])) s2"
    by (rule transfers.read [OF t1 _ s2(1)]) (simp add: may_read_def)
  have "owner ex_cfg s2 0 = Some (0, XTCP_PROTOCOL_TCP)"
    using sockets_owner(1) [OF take_remote_data_sockets [OF s2(4)] O(7)] o by simp
  note O2 = sys_owner [OF s2(2) this]
  obtain s3 where s3: "recv_common ex_lwip ex_cfg 0 0 [] 0 False s2 = Some ((- 3, [], None), s3)"
    using take_oldest [OF s2(2) ex_lwip_rx_contract O2(1) s2(3), of 0 "[]" False] O2(5)
    by (auto simp: recv_common_def ex_pbuf_def)
  define D :: "int \<Rightarrow> (u32 \<times> u8 list option) list" where
    "D = (\<lambda>_. [])(0 := read_entry 2 3 [65, 66, 0] @ read_entry (- 3) 0 [])"
  have t3: "?t A D s3" using transfers.read [OF t2 _ s3] by (simp add: D_def may_read_def)
  obtain R P where R: "sys_inv ex_cfg (\<lambda>w. w) s3 R" "packets (ex_rx 0) @ A 0 = P @ packets (R 0)" "list_all2 took (D 0) P"
    using bytes_in_order [OF inv _ ex_lwip_rx_contract t3] ok by blast
  have D: "D 0 = [(3, Some [65, 66]), (0, None)]" by (simp add: D_def read_entry_def numeral_2_eq_2)
  have A: "A 0 = [[68]]" by (simp add: A_def buffer_bytes_def ex_pbuf_def)
  have "length P = 2" using list_all2_lengthD [OF R(3)] D by simp
  then have "packets (R 0) = [[68]]"
    using arg_cong [OF R(2), of "drop 2"] A by (simp add: ex_rx_def buffer_bytes_def ex_pbuf_def)
  with t3 A D R(1) show ?thesis by blast
qed

end
