(* ===== verification/Pressure_Properties.thy ===== *)
theory Pressure_Properties
  imports Stream_Properties
begin

text \<open>
  The server under load and over time: opening a TCP socket when lwIP has to give up an older
  connection for it, and the timers over any run.
\<close>

section \<open>Opening a socket when lwIP runs out of control blocks\<close>

text \<open>
  C19. When lwIP has no control block left for a new TCP socket it aborts an older connection and
  reports that from inside \<open>tcp_new\<close>, while the new socket's slot is already taken. The call
  still returns a fresh id with the new control block; the aborted connection's socket is released
  and its owner told \<open>XTCP_ABORTED\<close> (if its queue has room), and no other socket changes.
\<close>

theorem open_tcp_evicts:
  assumes "sys_inv cfg held s R" "c \<noteq> DEINIT" "notifiable (notify (queues s)) c"
    and "card (dom (owner cfg s)) < MAX_OPEN_SOCKETS cfg" "owner cfg s y = Some (d, p)"
    and "tcp_new_ip_type L (lw s) = Call (TcpEvent y None LWIP_EVENT_ERR None 0 ERR_ABRT) st k"
    and "leaves held (lw s) st" "k ERR_OK st = Done (Some a) st'"
  shows "\<exists>x s'. shim_new_socket F L cfg c XTCP_PROTOCOL_TCP s = Some (err_int32 XTCP_SUCCESS x, s') \<and>
    owner cfg s x = None \<and> owner cfg s' = (owner cfg s)(x \<mapsto> (c, XTCP_PROTOCOL_TCP), y := None) \<and>
    get_tcp_pcb cfg x s' = Some a \<and> lw s' = st' \<and>
    queued (queues s') =
      (if has_room cfg d s then (queued (queues s))(d := queued (queues s) d @ [event XTCP_ABORTED y])
       else queued (queues s))"
proof -
  have t: "table_inv cfg s" using assms(1) rx_relD(1) by (auto simp: sys_inv_def)
  obtain r s1 where a: "assign_client_connection cfg c XTCP_PROTOCOL_TCP s = (r, s1)" by force
  have ok: "status r = XTCP_SUCCESS"
    using st.assign_success_iff [OF t assms(2) a] assms(4) by (simp add: socket_ids_def)
  have o1: "owner cfg s (val r) = None" "owner cfg s1 = (owner cfg s)(val r \<mapsto> (c, XTCP_PROTOCOL_TCP))"
    and t1: "table_inv cfg s1"
    using assign_client_connection_law [OF t assms(2) a] ok by (auto split: if_splits)
  have y: "y \<noteq> val r" using o1(1) assms(5) by auto
  let ?s2 = "s1\<lparr>lw := st\<rparr>"
  have "rx_rel cfg held ?s2 R"
    by (rule rx_rel_table [OF rx_rel_leaves [OF _ assms(7)]])
      (use assms(1) t1 assign_pbufs [OF t a] in \<open>simp_all add: sys_inv_def\<close>)
  then have s2: "sys_inv cfg held ?s2 R"
    using sys_assign [OF assms(1) a assms(2,3)] by (simp add: sys_inv_def clients_ok_def owner_lw)
  have "owner cfg ?s2 y = Some (d, p)" using o1(2) y assms(5) by (simp add: owner_lw)
  note Y = owner_entry [OF this]
  obtain s3 where s3: "lwip_tcp_event L cfg y None LWIP_EVENT_ERR None 0 ERR_ABRT ?s2 = Some (ERR_OK, s3)"
    "sys_inv cfg held s3 R" "owner cfg s3 = (owner cfg ?s2)(y := None)" "lw s3 = st"
    "queued (queues s3) = (if has_room cfg d ?s2
       then (queued (queues ?s2))(d := queued (queues ?s2) d @ [event XTCP_ABORTED y]) else queued (queues ?s2))"
    using tcp_error [OF s2 Y(1) Y(6) [symmetric], of L None None 0 ERR_ABRT] by auto
  let ?s4 = "s3\<lparr>lw := st'\<rparr>"
  have run: "run_lwip (handle_callback F L cfg) (tcp_new_ip_type L (lw s1)) s1 = Some (Some a, ?s4)"
    using assms(6,8) s3(1,4) assign_lw [OF a] by simp
  have "owner cfg ?s4 (val r) = Some (c, XTCP_PROTOCOL_TCP)" using s3(3) o1(2) y by (simp add: owner_lw)
  note X = owner_entry [OF this]
  have "table_inv cfg ?s4" using s3(2) rx_relD(1) by (auto simp: sys_inv_def)
  note U = upd_pcb [OF this X(1), where q = "Some a"]
  let ?s5 = "upd_conn (val r) (\<lambda>e. e\<lparr>c_pcb := Some a\<rparr>) ?s4"
  have "shim_new_socket F L cfg c XTCP_PROTOCOL_TCP s = Some (r, ?s5)"
    using a ok run X(1,3) by (simp add: shim_new_socket_def new_tcp_pcb_def set_tcp_pcb_def)
  moreover have "r = err_int32 XTCP_SUCCESS (val r)" using ok by simp
  moreover have "owner cfg ?s5 = (owner cfg s)(val r \<mapsto> (c, XTCP_PROTOCOL_TCP), y := None)"
    using U(2) X(3) s3(3) o1(2) by (simp add: owner_lw)
  moreover have "get_tcp_pcb cfg (val r) ?s5 = Some a" using U(3) [of "val r"] X(1,3) by (simp add: get_tcp_pcb_def)
  ultimately show ?thesis
    using o1(1) s3(5) assign_queues [OF a]
    by (intro exI [of _ "val r"] exI [of _ ?s5]) (simp add: has_room_def upd_conn_def)
qed

theorem open_tcp_evicts_witness:
  "\<exists>x s'. shim_new_socket ex_flags (ex_lwip\<lparr>tcp_new_ip_type := \<lambda>st.
       Call (TcpEvent 0 None LWIP_EVENT_ERR None 0 ERR_ABRT) st (\<lambda>e st. Done (Some 103) st)\<rparr>)
       ex_cfg 1 XTCP_PROTOCOL_TCP (ex_state ex_idle) = Some (err_int32 XTCP_SUCCESS x, s') \<and>
     owner ex_cfg s' x = Some (1, XTCP_PROTOCOL_TCP) \<and> owner ex_cfg s' 0 = None \<and>
     queued (queues s') 0 = [event XTCP_ABORTED 0]"
proof -
  let ?L = "ex_lwip\<lparr>tcp_new_ip_type := \<lambda>st.
       Call (TcpEvent 0 None LWIP_EVENT_ERR None 0 ERR_ABRT) st (\<lambda>e st. Done (Some 103) st)\<rparr>"
  have n: "card (dom (owner ex_cfg (ex_state ex_idle))) < MAX_OPEN_SOCKETS ex_cfg" by (simp add: ex_owner)
  have o: "owner ex_cfg (ex_state ex_idle) 0 = Some (0, XTCP_PROTOCOL_TCP)" by (simp add: ex_owner)
  have r: "leaves (\<lambda>w. w) (lw (ex_state ex_idle)) ex_lw" by simp
  have c: "notifiable (notify (queues (ex_state ex_idle))) 1" by (simp add: ex_idle_inv ex_boot_def notifiable_def)
  have room: "has_room ex_cfg 0 (ex_state ex_idle)" by (simp add: has_room_def valid_client_def ex_idle_inv)
  have l: "tcp_new_ip_type ?L (lw (ex_state ex_idle)) =
      Call (TcpEvent 0 None LWIP_EVENT_ERR None 0 ERR_ABRT) ex_lw (\<lambda>e st. Done (Some 103) st)" by simp
  obtain x s' where "shim_new_socket ex_flags ?L ex_cfg 1 XTCP_PROTOCOL_TCP (ex_state ex_idle) = Some (err_int32 XTCP_SUCCESS x, s')"
    and x: "owner ex_cfg (ex_state ex_idle) x = None"
    and w: "owner ex_cfg s' = (owner ex_cfg (ex_state ex_idle))(x \<mapsto> (1, XTCP_PROTOCOL_TCP), 0 := None)"
    "queued (queues s') = (queued ex_idle)(0 := queued ex_idle 0 @ [event XTCP_ABORTED 0])"
    using open_tcp_evicts [OF ex_sys_inv [OF ex_idle_inv(1,2)] _ c n o l r refl, of ex_flags] room by auto
  moreover have "x \<noteq> 0" using x o by auto
  ultimately show ?thesis by (intro exI [of _ x] exI [of _ s']) (simp add: ex_idle_inv)
qed

section \<open>Timers\<close>

primrec server_run ::
  "lwip_flags \<Rightarrow> 'w environment \<Rightarrow> 'w lwip \<Rightarrow> xtcp_config \<Rightarrow> server_input list \<Rightarrow> 'w server_state
     \<Rightarrow> 'w server_state option" where
  "server_run F E L cfg [] v = Some v"
| "server_run F E L cfg (inp # inps) v = do {
     (_, v) \<leftarrow> server_step F E L cfg inp v;
     server_run F E L cfg inps v }"

lemma timer_step:
  assumes "server_step F E L cfg inp v = Some (r, v')"
  shows "period v' = period v \<and>
    timeout v' = (case inp of Timer i \<Rightarrow> (timeout v)[i := timeout v ! i + period v ! i] | _ \<Rightarrow> timeout v)"
proof (cases inp)
  case (Link_status up)
  with assms show ?thesis by (auto simp: link_case_def bind_eq_Some_conv split: if_splits)
next
  case (Timer j)
  with assms show ?thesis by (auto simp: timer_case_def Let_def bind_eq_Some_conv split: if_splits)
qed (use assms in \<open>auto simp: reply_sys_def multicast_case_def Let_def dest: mii_frame
    split: bool.splits option.splits\<close>)

text \<open>
  C29. The timers do not drift: over any run of the server, with any inputs between the expiries, a
  timer is armed for its first deadline plus its period times the number of its expiries, modulo
  \<open>2 ^ 32\<close> as the hardware timer counts; the time a turn takes does not add up, and the
  periods never change.
\<close>

theorem timers_do_not_drift:
  assumes "server_run F E L cfg inps v = Some v'" "i < length (timeout v)"
  shows "period v' = period v \<and>
    timeout v' ! i = timeout v ! i + of_nat (count_list inps (Timer i)) * period v ! i"
proof -
  have "period v' = period v \<and> length (timeout v') = length (timeout v) \<and>
      timeout v' ! i = timeout v ! i + of_nat (count_list inps (Timer i)) * period v ! i"
    using assms
  proof (induction inps arbitrary: v)
    case (Cons inp inps)
    from Cons.prems(1) obtain r v1 where v1: "server_step F E L cfg inp v = Some (r, v1)"
      "server_run F E L cfg inps v1 = Some v'" by (auto simp: bind_eq_Some_conv)
    note T = timer_step [OF v1(1)]
    then have "length (timeout v1) = length (timeout v)" by (auto split: server_input.splits)
    moreover have "timeout v1 ! i = timeout v ! i + (if inp = Timer i then period v ! i else 0)"
      using T Cons.prems(2) by (cases inp) (auto simp: nth_list_update)
    ultimately show ?case
      using Cons.IH [OF v1(2)] Cons.prems(2) T by (auto simp: algebra_simps)
  qed simp
  then show ?thesis by blast
qed

theorem timers_do_not_drift_witness:
  "\<exists>v'. server_run ex_flags ex_env ex_lwip ex_cfg [Timer 0, Is_ifup 0, Timer 0]
       (ex_server\<lparr>netif_notify_state := 1, timeout := [0xFFFFFFFF]\<rparr>) = Some v' \<and> timeout v' ! 0 = 199999"
proof -
  let ?v = "ex_server\<lparr>netif_notify_state := 1, timeout := [0xFFFFFFFF]\<rparr>"
  obtain v' where v': "server_run ex_flags ex_env ex_lwip ex_cfg [Timer 0, Is_ifup 0, Timer 0] ?v = Some v'"
    by (simp add: timer_case_def ex_env_def)
  from timers_do_not_drift [OF this, of 0] have "timeout v' ! 0 = 199999" by (simp add: ex_server_def)
  with v' show ?thesis by blast
qed

end
