(* ===== verification/Service_Refinement.thy ===== *)
theory Service_Refinement
  imports Server_Safety
begin

text \<open>
  The server refines the socket service of \<open>Service_Spec\<close>: the simulation is the one of
  \<open>Server_Safety\<close>, and what its clients see of a run is a run of the service.
\<close>

section \<open>The simulation\<close>

definition proper_input ::
  "lwip_flags \<Rightarrow> 'w environment \<Rightarrow> 'w lwip \<Rightarrow> xtcp_config \<Rightarrow> ('w \<Rightarrow> addr set) \<Rightarrow> u32 \<Rightarrow> server_input
     \<Rightarrow> 'w server_state \<Rightarrow> bool" where
  "proper_input F E L cfg held n inp v \<longleftrightarrow>
     (\<forall>c. caller inp = Some c \<longrightarrow> c < n) \<and> input_ok F E L cfg held inp (sys v) \<and> \<not> fault L cfg inp (sys v)"

definition implements ::
  "'w lwip \<Rightarrow> xtcp_config \<Rightarrow> ('w \<Rightarrow> addr set) \<Rightarrow> u32 \<Rightarrow> 'w server_state \<Rightarrow> service \<Rightarrow> bool" where
  "implements L cfg held n v A \<longleftrightarrow> lwip_contract L held \<and> safe cfg (clients n) held A (sys v)"

interpretation sim: simulation "server_step F E L cfg" "proper_input F E L cfg held n" "service_turn cfg n"
    "implements L cfg held n"
proof
  fix v A inp
  assume rel: "implements L cfg held n v A" and inp: "proper_input F E L cfg held n inp v"
  have "clients n c \<and> c \<noteq> DEINIT" if "caller inp = Some c" for c
    using inp caller_ok that by (auto simp: proper_input_def)
  with rel inp safe_server_step [of cfg n held A v L F E inp]
  show "\<exists>r v' A'. server_step F E L cfg inp v = Some (r, v') \<and> service_turn cfg n inp r A A' \<and>
      implements L cfg held n v' A'"
    unfolding implements_def proper_input_def by blast
qed

text \<open>A run of the server with proper inputs, with each input's reply.\<close>

abbreviation server_trace ::
  "lwip_flags \<Rightarrow> 'w environment \<Rightarrow> 'w lwip \<Rightarrow> xtcp_config \<Rightarrow> ('w \<Rightarrow> addr set) \<Rightarrow> u32 \<Rightarrow> 'w server_state
     \<Rightarrow> (server_input \<times> reply) list \<Rightarrow> 'w server_state \<Rightarrow> bool" where
  "server_trace F E L cfg held n \<equiv> run_of (conc_turn (server_step F E L cfg) (proper_input F E L cfg held n))"

section \<open>What the clients see\<close>

text \<open>
  C1. The server implements the abstract socket service. Every run from the initialisation, with
  any interleaving of packets, link changes, timers and calls of the clients (proper inputs, none of
  them a \<open>fault\<close>), whatever lwIP calls back in between, gives exactly the replies of some run of the service that starts with no socket,
  no event and no data; the sockets and their owners, and the events that wait for each client, are at
  its end those of the service.
\<close>

theorem server_refines_service:
  assumes "server_init E cfg n ipconfig time_now s = Some v0" "last_guid s = 0"
    and "config_ok cfg" "lwip_contract L held" "server_trace F E L cfg held n v0 tr v"
  shows "\<exists>A. run_of (service_turn cfg n) empty_service tr A \<and>
    sv_owner A = owner cfg (sys v) \<and> sv_events A = queued (queues (sys v))"
proof -
  have "implements L cfg held n v0 empty_service"
    using safe_server_init [OF assms(1-3)] assms(4) by (simp add: implements_def)
  from sim.run_refines [OF assms(5) this] obtain A where
    "run_of (service_turn cfg n) empty_service tr A" "implements L cfg held n v A" by blast
  then show ?thesis using mem_fields [of cfg held A "sys v"] by (auto simp: implements_def safe_def)
qed

lemma ex_dns_event:
  assumes "config_ok cfg" "valid_client cfg 1" "queues s = xtcp_init_queue cfg qs" "notifiable (notify qs) 1"
  shows "\<exists>q. xtcp_dns_found cfg (Some [104, 105]) (Some (10, 0, 0, 9)) 1 s = Some (s\<lparr>queues := q\<rparr>) \<and>
    queued q 1 = [event XTCP_DNS_RESULT 0]"
proof -
  have inv: "queue_inv cfg (queues s)" using assms(1,3) by (simp add: xtcp_init_queue_inv)
  have "notifiable (notify (queues s)) 1" using assms(3,4) by (simp add: xtcp_init_queue_def)
  then obtain r q where q: "enqueue_event_and_notify cfg 1 0 XTCP_DNS_RESULT (queues s) = Some (r, q)"
    using enqueue_total by blast
  have "queued (queues s) 1 = []" using assms(3) by (simp add: xtcp_init_queue_queued)
  with enqueue_spec [OF inv q] assms(2) config_okD(1) [OF assms(1)]
  have "queued q 1 = [event XTCP_DNS_RESULT 0]" by simp
  moreover have "dns_outcome cfg 1 (Some [104, 105]) (Some (10, 0, 0, 9)) = XTCP_SUCCESS"
    using assms(2) by (simp add: dns_outcome_def valid_client_def)
  ultimately show ?thesis
    using q by (intro exI [of _ q]) (simp add: xtcp_dns_found_def enqueue_def)
qed

lemma ex_dns_trace:
  "\<exists>v0 v. server_init ex_dns_env ex_cfg 2 ex_ip 0 ex_reset = Some v0 \<and>
     server_trace ex_flags ex_dns_env ex_lwip ex_cfg (\<lambda>w. w) 2 v0 [(Packet_data [0] 1 0, Unit)] v \<and>
     queued (queues (sys v)) 1 = [event XTCP_DNS_RESULT 0]"
proof -
  have "server_init ex_dns_env ex_cfg 2 ex_ip 0 ex_reset = server_init ex_env ex_cfg 2 ex_ip 0 ex_reset"
    by (simp add: server_init_def ex_dns_env_def filter_calls_def)
  with ex_server_init obtain v where v: "server_init ex_dns_env ex_cfg 2 ex_ip 0 ex_reset = Some v"
    "queues (sys v) = xtcp_init_queue ex_cfg \<lparr>client_queue = [], client_heads = [], client_num_events = [],
       notify = \<lparr>n_xtcp = 2, i_xtcp = [False, False]\<rparr>\<rparr>" by auto
  have n: "notifiable \<lparr>n_xtcp = 2, i_xtcp = [False, False]\<rparr> 1" by (simp add: notifiable_def)
  obtain q where q: "xtcp_dns_found ex_cfg (Some [104, 105]) (Some (10, 0, 0, 9)) 1 (sys v) =
      Some (sys v\<lparr>queues := q\<rparr>)" "queued q 1 = [event XTCP_DNS_RESULT 0]"
    using ex_dns_event [OF _ _ v(2)] n by (auto simp: valid_client_def)
  let ?v = "v\<lparr>sys := sys v\<lparr>queues := q\<rparr>\<rparr>"
  have "server_step ex_flags ex_dns_env ex_lwip ex_cfg (Packet_data [0] 1 0) v = Some (Unit, ?v)"
    using q(1) by (simp add: ex_dns_env_def reply_sys_def)
  moreover have "proper_input ex_flags ex_dns_env ex_lwip ex_cfg (\<lambda>w. w) 2 (Packet_data [0] 1 0) v"
    using q(1) n v(2) by (auto simp: proper_input_def ex_dns_env_def xtcp_init_queue_def)
  ultimately have "server_trace ex_flags ex_dns_env ex_lwip ex_cfg (\<lambda>w. w) 2 v ([] @ [(Packet_data [0] 1 0, Unit)]) ?v"
    by (intro run_of.step [OF run_of.stop]) (simp add: conc_turn_def)
  with v(1) q(2) show ?thesis by (intro exI [of _ v] exI [of _ ?v]) simp
qed

theorem server_refines_service_witness:
  "\<exists>A. run_of (service_turn ex_cfg 2) empty_service [(Packet_data [0] 1 0, Unit)] A \<and>
     sv_events A 1 = [event XTCP_DNS_RESULT 0]"
proof -
  obtain v0 v where v: "server_init ex_dns_env ex_cfg 2 ex_ip 0 ex_reset = Some v0"
    "server_trace ex_flags ex_dns_env ex_lwip ex_cfg (\<lambda>w. w) 2 v0 [(Packet_data [0] 1 0, Unit)] v"
    "queued (queues (sys v)) 1 = [event XTCP_DNS_RESULT 0]" using ex_dns_trace by blast
  from server_refines_service [OF v(1) _ _ ex_lwip_contract v(2)] v(3) show ?thesis
    by (auto simp: ex_reset_def)
qed

end
