(* ===== verification/Isolation_Properties.thy ===== *)
theory Isolation_Properties
  imports Service_Refinement
begin

text \<open>
  Clients do not see each other: what a client is told and what it reads is the same with and without
  the calls that other clients make.
\<close>

section \<open>What a client sees\<close>

definition same_view :: "u32 \<Rightarrow> service \<Rightarrow> service \<Rightarrow> bool" where
  "same_view d A B \<longleftrightarrow>
     sv_events A d = sv_events B d \<and>
     (\<forall>x p. sv_owner A x = Some (d, p) \<longleftrightarrow> sv_owner B x = Some (d, p)) \<and>
     (\<forall>x. owns A d x \<longrightarrow> sv_data A x = sv_data B x)"

text \<open>
  The calls of other clients, apart from opening a TCP socket, in which lwIP may close a connection
  of anybody to make room; and the calls whose replies come from the library's own state.
\<close>

fun bystander :: "u32 \<Rightarrow> server_input \<Rightarrow> bool" where
  "bystander d (Socket c p) \<longleftrightarrow> c \<noteq> d \<and> p \<noteq> XTCP_PROTOCOL_TCP"
| "bystander d inp \<longleftrightarrow> (case caller inp of Some c \<Rightarrow> c \<noteq> d | None \<Rightarrow> False)"

fun observes :: "u32 \<Rightarrow> server_input \<Rightarrow> bool" where
  "observes d (Get_event c) \<longleftrightarrow> c = d"
| "observes d (Recv c x b m t) \<longleftrightarrow> c = d"
| "observes d (Recvfrom c x b m t) \<longleftrightarrow> c = d"
| "observes d (Close c x) \<longleftrightarrow> c = d"
| "observes d (Abort c x) \<longleftrightarrow> c = d"
| "observes d _ \<longleftrightarrow> False"

lemma same_view_refl [simp]: "same_view d A A"
  by (simp add: same_view_def)

lemma same_view_owns: "same_view d A B \<Longrightarrow> owns A d x = owns B d x"
  by (auto simp: same_view_def owns_def)

lemma same_view_step:
  "same_view d A A' \<Longrightarrow> same_view d A B \<Longrightarrow> same_view d A' B"
  unfolding same_view_def owns_def by metis

lemma same_viewD:
  assumes "same_view d A B"
  shows "sv_events A d = sv_events B d" "owns A d x \<Longrightarrow> sv_data A x = sv_data B x"
    "owns A d x \<Longrightarrow> sv_owner A x = sv_owner B x"
  using assms unfolding same_view_def owns_def by force+

section \<open>The calls of others\<close>

lemma owns_one: "owns A c x \<Longrightarrow> c \<noteq> d \<Longrightarrow> \<not> owns A d x"
  by (auto simp: owns_def)

text \<open>Events of another client, and the data and the owner of a socket of another client or of nobody.\<close>

lemma unseen:
  "f d = sv_events A d \<Longrightarrow> same_view d A (A\<lparr>sv_events := f\<rparr>)"
  "\<not> owns A d x \<Longrightarrow> same_view d A (A\<lparr>sv_data := (sv_data A)(x := ys)\<rparr>)"
  "\<not> owns A d x \<Longrightarrow> o' = None \<or> fst (the o') \<noteq> d \<Longrightarrow> same_view d A (A\<lparr>sv_owner := (sv_owner A)(x := o')\<rparr>)"
  by (auto simp: same_view_def owns_def)

lemma unseen_close:
  assumes "c \<noteq> d"
  shows "same_view d A (sv_close c x A)"
proof (cases "owns A c x")
  case True
  then have "\<not> owns A d x" using assms by (rule owns_one)
  then show ?thesis
    using assms by (auto simp: sv_close_def fifo_purge_def same_view_def owns_def)
qed (simp add: sv_close_def)

lemma unseen_read:
  assumes "c \<noteq> d" "owns A c x"
  shows "same_view d A (snd (sv_read x b m t A))"
  using unseen(2) [OF owns_one [OF assms(2,1)]] by (simp add: sv_read_def split: list.splits)

lemma unseen_recv:
  assumes "c \<noteq> d"
  shows "same_view d A (snd (sv_recv c x b m t A))" "same_view d A (snd (sv_recvfrom c x b m t A))"
  using unseen_read [OF assms, of A x b m t]
  by (auto simp: sv_recv_def sv_recvfrom_def split: prod.splits)

lemma unseen_socket:
  assumes "c \<noteq> d" "p \<noteq> XTCP_PROTOCOL_TCP" "sv_socket cfg c p k A A'"
  shows "same_view d A A'"
proof -
  have "same_view d A (A\<lparr>sv_owner := (sv_owner A)(x \<mapsto> (c, p))\<rparr>)" if "sv_owner A x = None" for x
    by (rule unseen(3)) (use that assms(1) in \<open>simp_all add: owns_def\<close>)
  with assms(2,3) show ?thesis by (auto simp: sv_socket_def)
qed

lemma others_unseen:
  assumes "bystander d inp" "service_turn cfg n inp r A A'"
  shows "same_view d A A'"
proof (cases "quiet_call inp")
  case True
  with assms show ?thesis by (simp add: service_turn_quiet)
next
  case False
  with assms unseen_close unseen_recv unseen_socket show ?thesis
    by (cases inp) (auto simp: fifo_deq_def prod_eq_iff intro!: unseen(1) split: list.splits)
qed

section \<open>One's own calls\<close>

lemma own_deq:
  assumes "same_view d A B"
  shows "fst (fifo_deq d (sv_events A)) = fst (fifo_deq d (sv_events B))"
    "same_view d (A\<lparr>sv_events := snd (fifo_deq d (sv_events A))\<rparr>) (B\<lparr>sv_events := snd (fifo_deq d (sv_events B))\<rparr>)"
  using assms by (auto simp: fifo_deq_def same_view_def owns_def split: list.splits)

lemma own_close:
  assumes "same_view d A B"
  shows "same_view d (sv_close d x A) (sv_close d x B)"
  using assms same_view_owns [OF assms, of x]
  by (auto simp: sv_close_def fifo_purge_def same_view_def owns_def)

lemma own_read:
  assumes "same_view d A B" "owns A d x"
  shows "fst (sv_read x b m t A) = fst (sv_read x b m t B)" "sv_sender x A = sv_sender x B"
    "same_view d (snd (sv_read x b m t A)) (snd (sv_read x b m t B))"
proof -
  note D = same_viewD(2) [OF assms]
  show "fst (sv_read x b m t A) = fst (sv_read x b m t B)" "sv_sender x A = sv_sender x B"
    by (simp_all add: sv_read_def sv_sender_def D split: list.splits)
  have "same_view d (A\<lparr>sv_data := (sv_data A)(x := ys)\<rparr>) (B\<lparr>sv_data := (sv_data B)(x := ys)\<rparr>)" for ys
    using assms(1) by (auto simp: same_view_def owns_def)
  with assms(1) show "same_view d (snd (sv_read x b m t A)) (snd (sv_read x b m t B))"
    by (simp add: sv_read_def D split: list.splits)
qed

lemma own_recv:
  assumes "same_view d A B"
  shows "fst (sv_recv d x b m t A) = fst (sv_recv d x b m t B) \<and>
      same_view d (snd (sv_recv d x b m t A)) (snd (sv_recv d x b m t B))"
    and "fst (sv_recvfrom d x b m t A) = fst (sv_recvfrom d x b m t B) \<and>
      same_view d (snd (sv_recvfrom d x b m t A)) (snd (sv_recvfrom d x b m t B))"
  using assms own_read(1,3) [OF assms, of x b m t] own_read(2) [OF assms, of x] same_view_owns [OF assms, of x]
    same_viewD(3) [OF assms, of x]
  by (auto simp: sv_recv_def sv_recvfrom_def split: prod.splits)

lemma own_consistent:
  assumes "observes d inp" "service_turn cfg n inp r A A'" "service_turn cfg n inp r' B B'" "same_view d A B"
  shows "r = r' \<and> same_view d A' B'"
  using assms(1-3) own_deq [OF assms(4)] own_close [OF assms(4)] own_recv [OF assms(4)]
  by (cases inp) (simp_all add: prod_eq_iff Let_def)

lemma own_enabled:
  "observes d inp \<Longrightarrow> proper_input F E L cfg held n inp v \<Longrightarrow> proper_input F E L cfg held n inp w"
  by (cases inp) (simp_all add: proper_input_def)

interpretation iso: unwinding "server_step F E L cfg" "proper_input F E L cfg held n" "service_turn cfg n"
    "implements L cfg held n" "same_view d" "bystander d" "observes d"
  for F E L cfg held n d
  by unfold_locales
    (rule same_view_refl same_view_step [OF others_unseen] own_consistent own_enabled; assumption)+

text \<open>
  C2. Clients are isolated from each other. From any state that the server reaches, take any interleaving of
  calls in which client \<open>d\<close> collects events, reads and closes sockets, and the other clients do what
  they like, except open TCP sockets. Leaving out the calls of the others gives a run of the server in
  which every call of \<open>d\<close> gets the same reply: the same event, the same bytes, length, timestamp and
  sender, the same error code.
\<close>

theorem clients_isolated:
  assumes "server_init E cfg n ipconfig time_now s = Some v0" "last_guid s = 0"
    and "config_ok cfg" "lwip_contract L held" "server_trace F E L cfg held n v0 tr0 v"
    and "server_trace F E L cfg held n v tr v'" "\<forall>(i, r) \<in> set tr. bystander d i \<or> observes d i"
  shows "\<exists>w. server_trace F E L cfg held n v (filter (\<lambda>(i, r). observes d i) tr) w"
proof -
  have "implements L cfg held n v0 empty_service"
    using safe_server_init [OF assms(1-3)] assms(4) by (simp add: implements_def)
  from sim.run_refines [OF assms(5) this] obtain A where "implements L cfg held n v A" by blast
  from iso.purged_run [OF assms(6) this assms(7)] show ?thesis by blast
qed

theorem clients_isolated_witness:
  "\<exists>v r w v'. server_trace ex_flags ex_dns_env ex_lwip ex_cfg (\<lambda>w. w) 2 v
       [(Get_event 0, r), (Get_event 1, Event_reply XTCP_DNS_RESULT 0)] v' \<and>
     server_trace ex_flags ex_dns_env ex_lwip ex_cfg (\<lambda>w. w) 2 v [(Get_event 1, Event_reply XTCP_DNS_RESULT 0)] w"
proof -
  let ?run = "server_trace ex_flags ex_dns_env ex_lwip ex_cfg (\<lambda>w. w) 2"
  let ?impl = "implements ex_lwip ex_cfg (\<lambda>w. w) 2" and ?turn = "service_turn ex_cfg 2"
  obtain v0 v where v: "server_init ex_dns_env ex_cfg 2 ex_ip 0 ex_reset = Some v0"
    "?run v0 [(Packet_data [0] 1 0, Unit)] v" "queued (queues (sys v)) 1 = [event XTCP_DNS_RESULT 0]"
    using ex_dns_trace by blast
  have i0: "?impl v0 empty_service"
    using safe_server_init [OF v(1)] ex_lwip_contract by (simp add: implements_def ex_reset_def)
  from sim.run_refines [OF v(2) i0] obtain A where A: "?impl v A" by blast
  have ev: "sv_events A 1 = [event XTCP_DNS_RESULT 0]"
    using A v(3) mem_fields(2) [of ex_cfg "\<lambda>w. w" A "sys v"] by (simp add: implements_def safe_def)
  have p: "proper_input ex_flags ex_dns_env ex_lwip ex_cfg (\<lambda>w. w) 2 (Get_event c) u" if "c < 2" for c u
    using that by (simp add: proper_input_def)
  from sim.sim [OF A p [of 0]] obtain r v1 A1 where 1:
    "server_step ex_flags ex_dns_env ex_lwip ex_cfg (Get_event 0) v = Some (r, v1)" "?turn (Get_event 0) r A A1" "?impl v1 A1"
    by auto
  have "sv_events A1 1 = [event XTCP_DNS_RESULT 0]" using 1(2) ev by (auto simp: fifo_deq_def split: list.splits)
  with sim.sim [OF 1(3) p [of 1]] obtain v2 where 2:
    "server_step ex_flags ex_dns_env ex_lwip ex_cfg (Get_event 1) v1 = Some (Event_reply XTCP_DNS_RESULT 0, v2)"
    by (auto simp: fifo_deq_def)
  have "?run v (([] @ [(Get_event 0, r)]) @ [(Get_event 1, Event_reply XTCP_DNS_RESULT 0)]) v2"
    by (intro run_of.step [OF run_of.step [OF run_of.stop]]) (use 1(1) 2 p in \<open>simp_all add: conc_turn_def\<close>)
  then have t: "?run v [(Get_event 0, r), (Get_event 1, Event_reply XTCP_DNS_RESULT 0)] v2" by simp
  from clients_isolated [OF v(1) _ _ ex_lwip_contract v(2) t, of 1] t show ?thesis
    by (auto simp: ex_reset_def)
qed

end
