(* ===== verification/Link_Properties.thy ===== *)
theory Link_Properties
  imports Server_Safety
begin

text \<open>
  The announcements of the link: which are made, against a specification by their own history, and
  what becomes of one when socket 0 is closed.
\<close>

section \<open>The history of the announcements\<close>

definition is_up :: "xtcp_event_type_t list \<Rightarrow> bool" where
  "is_up es \<longleftrightarrow> es \<noteq> [] \<and> last es = XTCP_IFUP"

text \<open>
  What an input is to add to the history: \<open>XTCP_IFDOWN\<close> whenever the link goes down;
  \<open>XTCP_IFUP\<close> at an expiry of timer 0 when the interface is up and has an address, unless that was
  the last announcement.
\<close>

fun link_event ::
  "'w environment \<Rightarrow> server_input \<Rightarrow> xtcp_event_type_t list \<Rightarrow> 'w lwip_state \<Rightarrow> xtcp_event_type_t list" where
  "link_event E (Link_status up) es st = (if up then [] else [XTCP_IFDOWN])"
| "link_event E (Timer i) es st =
     (if i = 0 \<and> ethernetif_has_ip_address E st = 0 \<and> get_if_state E st \<noteq> 0 \<and> \<not> is_up es then [XTCP_IFUP] else [])"
| "link_event E _ es st = []"

text \<open>The part of lwIP that runs first in a turn for the link or a timer.\<close>

fun link_prog :: "'w environment \<Rightarrow> server_input \<Rightarrow> 'w lwip_state \<Rightarrow> ('w, unit) lwip_prog" where
  "link_prog E (Link_status up) st = (if up then xcore_net_link_up E else xcore_net_link_down E) st"
| "link_prog E (Timer i) st = xcore_timeout E i st"
| "link_prog E _ st = Done () st"

text \<open>From \<open>s\<close> to \<open>s'\<close>, each connected client with room gets the events \<open>es\<close>; nothing else changes.\<close>

definition announced ::
  "xtcp_config \<Rightarrow> u32 \<Rightarrow> xtcp_event_type_t list \<Rightarrow> 'w xtcp_state \<Rightarrow> 'w xtcp_state \<Rightarrow> bool" where
  "announced cfg n es s s' \<longleftrightarrow>
     s' = s\<lparr>queues := queues s'\<rparr> \<and>
     queued (queues s') = (\<lambda>c. queued (queues s) c @
       (if c < n \<and> has_room cfg c s then map (\<lambda>e. event e 0) es else []))"

text \<open>A server with \<open>n\<close> clients, after any run, with the history that its inputs call for.\<close>

inductive link_run ::
  "lwip_flags \<Rightarrow> 'w environment \<Rightarrow> 'w lwip \<Rightarrow> xtcp_config \<Rightarrow> u32 \<Rightarrow> xtcp_event_type_t list \<Rightarrow> 'w server_state \<Rightarrow> bool"
  for F E L cfg n where
  start: "server_init E cfg n ipconfig time_now s = Some v \<Longrightarrow>
     last_guid s = 0 \<Longrightarrow> notify (queues s) = notify_start \<Longrightarrow> link_run F E L cfg n [] v"
| turn: "link_run F E L cfg n es v \<Longrightarrow> (\<And>c. caller inp = Some c \<Longrightarrow> c < n) \<Longrightarrow>
     server_step F E L cfg inp v = Some (r, v') \<Longrightarrow>
     link_run F E L cfg n (es @ link_event E inp es (lw (sys v'))) v'"

lemma link_run_reach: "link_run F E L cfg n es v \<Longrightarrow> server_reach F E L cfg n v"
  by (induction rule: link_run.induct) (blast intro: server_reach.intros)+

lemma announced_none [simp]: "announced cfg n [] s s"
  by (simp add: announced_def fun_eq_iff)

lemma announced_lw: "announced cfg n es s s' \<Longrightarrow> lw s' = lw s"
  by (cases s; cases s') (simp add: announced_def)

lemma notify_all_announced:
  assumes "ctl cfg (clients n) s" "notify_all cfg e s = Some s'"
  shows "announced cfg n [e] s s'"
  using ctl_notify_all_spec [OF assms(1), of e] assms(2) by (auto simp: announced_def fun_eq_iff)

text \<open>One turn, with the flag in place of the history.\<close>

definition state_flag :: "xtcp_event_type_t list \<Rightarrow> int" where
  "state_flag es = (if is_up es then 1 else 0)"

lemma state_flag_simps [simp]:
  "state_flag [] = 0" "state_flag (es @ [e]) = (if e = XTCP_IFUP then 1 else 0)"
  by (simp_all add: state_flag_def is_up_def)

lemma link_turn:
  assumes "ctl cfg (clients n) (sys v)" "netif_notify_state v = state_flag es"
    and "server_step F E L cfg inp v = Some (r, v')" "inp = Link_status up \<or> inp = Timer i"
  shows "\<exists>s. run_lwip (handle_callback F L cfg) (link_prog E inp (lw (sys v))) (sys v) = Some ((), s) \<and>
    announced cfg n (link_event E inp es (lw s)) s (sys v')"
    and "netif_notify_state v' = state_flag (es @ link_event E inp es (lw (sys v')))"
proof -
  note run = ctl_run_lwip [OF assms(1)]
  have "(\<exists>s. run_lwip (handle_callback F L cfg) (link_prog E inp (lw (sys v))) (sys v) = Some ((), s) \<and>
      announced cfg n (link_event E inp es (lw s)) s (sys v')) \<and>
    netif_notify_state v' = state_flag (es @ link_event E inp es (lw (sys v')))"
    using assms(4)
  proof
    assume "inp = Link_status up"
    moreover have "announced cfg n [XTCP_IFDOWN] s s'"
      if "run_lwip (handle_callback F L cfg) (xcore_net_link_down E (lw (sys v))) (sys v) = Some ((), s)"
        "notify_all cfg XTCP_IFDOWN s = Some s'" for s s'
      by (rule notify_all_announced [OF run [OF that(1)] that(2)])
    ultimately show ?thesis
      using assms(2,3) by (auto simp: link_case_def bind_eq_Some_conv split: if_splits)
  next
    assume i: "inp = Timer i"
    then obtain s where s: "run_lwip (handle_callback F L cfg) (xcore_timeout E i (lw (sys v))) (sys v) = Some ((), s)"
      using assms(3) by (auto simp: timer_case_def bind_eq_Some_conv)
    note C = run [OF s]
    show ?thesis
    proof (cases "i = 0 \<and> ethernetif_has_ip_address E (lw s) = 0 \<and> get_if_state E (lw s) \<noteq> 0 \<and> \<not> is_up es")
      case True
      with assms(2,3) i s obtain s' where s': "notify_all cfg XTCP_IFUP s = Some s'" "sys v' = s'" "netif_notify_state v' = 1"
        by (auto simp: timer_case_def Let_def bind_eq_Some_conv state_flag_def)
      note A = notify_all_announced [OF C s'(1)]
      with True i s s' announced_lw [OF A] show ?thesis by simp
    next
      case False
      with assms(2,3) i s have "sys v' = s" "netif_notify_state v' = netif_notify_state v"
        by (auto simp: timer_case_def Let_def state_flag_def split: if_splits)
      with False i s assms(2) show ?thesis by auto
    qed
  qed
  then show "\<exists>s. run_lwip (handle_callback F L cfg) (link_prog E inp (lw (sys v))) (sys v) = Some ((), s) \<and>
      announced cfg n (link_event E inp es (lw s)) s (sys v')"
    "netif_notify_state v' = state_flag (es @ link_event E inp es (lw (sys v')))" by blast+
qed

lemma link_flag_kept:
  assumes "server_step F E L cfg inp v = Some (r, v')" "\<And>up i. inp \<noteq> Link_status up \<and> inp \<noteq> Timer i"
  shows "netif_notify_state v' = netif_notify_state v" "link_event E inp es st = []"
  using assms
  by (cases inp; auto simp: reply_sys_def multicast_case_def Let_def dest: mii_frame split: bool.splits option.splits)+

lemma link_run_flag:
  assumes "link_run F E L cfg n es v" "config_ok cfg"
  shows "netif_notify_state v = state_flag es"
  using assms(1)
proof induction
  case (start ipconfig time_now s v)
  then show ?case
    by (cases "xcore_lwip_init_timers E (replicate (NUM_TIMEOUTS E) (XS1_TIMER_KHZ E)) time_now")
      (auto simp: server_init_def Let_def bind_eq_Some_conv split: if_splits)
next
  case (turn es v inp r v')
  have C: "ctl cfg (clients n) (sys v)" by (rule server_reach_ctl [OF link_run_reach [OF turn.hyps(1)] assms(2)])
  show ?case
  proof (cases "\<exists>up i. inp = Link_status up \<or> inp = Timer i")
    case True
    then show ?thesis using link_turn(2) [OF C turn.IH turn.hyps(3)] by blast
  next
    case False
    then show ?thesis using link_flag_kept [OF turn.hyps(3)] turn.IH by simp
  qed
qed

text \<open>
  C23. The link is announced as its history calls for. Let \<open>es\<close> be the history of a run: \<open>XTCP_IFDOWN\<close>
  for every time the link went down, and \<open>XTCP_IFUP\<close> for every expiry of timer 0 that found the interface
  up with an address when the last announcement was not already \<open>XTCP_IFUP\<close>. Then in the next turn
  for the link or a timer, after lwIP's part of it, exactly the announcement that this history calls
  for, if any, is queued for every connected client that has room, and for nobody else, and nothing
  else changes. The flag \<open>netif_notify_state\<close> is 1 when the last announcement was \<open>XTCP_IFUP\<close> and 0
  otherwise, so that \<open>XTCP_IFUP\<close> is never announced twice without \<open>XTCP_IFDOWN\<close> in between.
\<close>

theorem link_changes_announced:
  assumes "link_run F E L cfg n es v" "config_ok cfg"
    and "server_step F E L cfg inp v = Some (r, v')" "inp = Link_status up \<or> inp = Timer i"
  shows "netif_notify_state v = (if is_up es then 1 else 0) \<and>
    (\<exists>s. run_lwip (handle_callback F L cfg) (link_prog E inp (lw (sys v))) (sys v) = Some ((), s) \<and>
       announced cfg n (link_event E inp es (lw s)) s (sys v'))"
proof -
  have C: "ctl cfg (clients n) (sys v)" by (rule server_reach_ctl [OF link_run_reach [OF assms(1)] assms(2)])
  note f = link_run_flag [OF assms(1,2)]
  from link_turn(1) [OF C f assms(3,4)] f show ?thesis by (simp add: state_flag_def)
qed

text \<open>
  C37. The events that concern no socket carry id 0, which is also the id of a socket: a client that
  owns socket 0 and closes it after the link went down loses the announcement. It was the newest of its
  queue after the turn in which the link went down, it is gone after the turn that closes
  socket 0, and the other clients keep theirs.
\<close>

theorem closing_socket_zero_drops_link_events:
  assumes "server_reach F E L cfg n v" "config_ok cfg"
    and "server_step F E L cfg (Link_status False) v = Some (r, v1)"
    and "run_lwip (handle_callback F L cfg) (xcore_net_link_down E (lw (sys v))) (sys v) = Some ((), s)"
    and "c < n" "has_room cfg c s" "owner cfg (sys v1) 0 = Some (c, pr)"
    and "server_step F E L cfg (Close c 0) v1 = Some (r', v2)"
  shows "queued (queues (sys v1)) c = queued (queues s) c @ [event XTCP_IFDOWN 0] \<and>
    queued (queues (sys v2)) =
      (queued (queues (sys v1)))(c := filter (\<lambda>e. ev_id e \<noteq> 0) (queued (queues s) c))"
proof -
  have C: "ctl cfg (clients n) (sys v)" by (rule server_reach_ctl [OF assms(1,2)])
  have s1: "notify_all cfg XTCP_IFDOWN s = Some (sys v1)"
    using assms(3,4) by (auto simp: link_case_def bind_eq_Some_conv)
  from notify_all_announced [OF ctl_run_lwip [OF C assms(4)] this] assms(5,6)
  have q1: "queued (queues (sys v1)) c = queued (queues s) c @ [event XTCP_IFDOWN 0]" by (simp add: announced_def)
  have C1: "ctl cfg (clients n) (sys v1)" by (rule ctl_notify_all [OF ctl_run_lwip [OF C assms(4)] s1])
  obtain m q where q: "free_notifications_on_queue cfg c 0 (queues (sys v1)) = (m, q)" by force
  from assms(8) owner_entry(4) [OF assms(7)] q have "queues (sys v2) = q"
    by (auto simp: shim_close_socket_def bind_eq_Some_conv dest!: clear_pending_frame)
  with purge_spec [OF ctlD(2) [OF C1] q] q1 show ?thesis by simp
qed

section \<open>A server with two clients\<close>

lemma ex_start:
  "\<exists>v. link_run ex_flags ex_env ex_lwip ex_cfg 2 [] v \<and> queues (sys v) = xtcp_init_queue ex_cfg ex_boot \<and>
     netif_notify_state v = 0 \<and> connections (sys v) = [deinit_entry, deinit_entry, deinit_entry] \<and> last_guid (sys v) = 0"
proof -
  obtain v where v: "server_init ex_env ex_cfg 2 ex_ip 0 ex_reset = Some v"
    "queues (sys v) = xtcp_init_queue ex_cfg ex_boot" "netif_notify_state v = 0"
    "connections (sys v) = [deinit_entry, deinit_entry, deinit_entry]" "last_guid (sys v) = 0"
    using ex_server_init by (auto simp: ex_boot_def)
  have "link_run ex_flags ex_env ex_lwip ex_cfg 2 [] v"
    by (rule link_run.start [OF v(1)]) (simp_all add: ex_reset_def)
  with v(2-5) show ?thesis by blast
qed

text \<open>When the link goes down in the example, every client that has room is told.\<close>

lemma ex_link_down:
  assumes "server_reach ex_flags ex_env ex_lwip ex_cfg 2 v" "queued (queues (sys v)) c = []" "c < 2"
  shows "\<exists>v'. server_step ex_flags ex_env ex_lwip ex_cfg (Link_status False) v = Some (Unit, v') \<and>
    queued (queues (sys v')) c = [event XTCP_IFDOWN 0] \<and> connections (sys v') = connections (sys v)"
proof -
  have "ctl ex_cfg (clients 2) (sys v)" by (rule server_reach_ctl [OF assms(1)]) simp
  from ctl_notify_all_spec [OF this, of XTCP_IFDOWN] obtain q where
    q: "notify_all ex_cfg XTCP_IFDOWN (sys v) = Some ((sys v)\<lparr>queues := q\<rparr>)"
    "queued q c = (if has_room ex_cfg c (sys v) then [event XTCP_IFDOWN 0] else [])"
    using assms(2,3) by auto
  have "has_room ex_cfg c (sys v)" using assms(2,3) by (simp add: has_room_def valid_client_def word_less_nat_alt)
  with q show ?thesis by (simp add: link_case_def ex_env_def)
qed

lemma ex_server_link_down:
  "\<exists>v. server_reach ex_flags ex_env ex_lwip ex_cfg 2 v \<and>
     queued (queues (sys v)) 0 = [event XTCP_IFDOWN 0]"
proof -
  obtain v where v: "link_run ex_flags ex_env ex_lwip ex_cfg 2 [] v" "queues (sys v) = xtcp_init_queue ex_cfg ex_boot"
    using ex_start by blast
  note r = link_run_reach [OF v(1)]
  obtain v' where v': "server_step ex_flags ex_env ex_lwip ex_cfg (Link_status False) v = Some (Unit, v')"
    "queued (queues (sys v')) 0 = [event XTCP_IFDOWN 0]"
    using ex_link_down [OF r, of 0] v(2) by (auto simp: xtcp_init_queue_queued)
  from server_reach.turn [OF r _ v'(1)] v'(2) show ?thesis by auto
qed

text \<open>The first expiry of timer 0 announces that the link is up.\<close>

theorem link_changes_announced_witness:
  "\<exists>v v'. link_run ex_flags ex_env ex_lwip ex_cfg 2 [] v \<and>
     server_step ex_flags ex_env ex_lwip ex_cfg (Timer 0) v = Some (Unit, v') \<and>
     netif_notify_state v = 0 \<and> netif_notify_state v' = 1 \<and> queued (queues (sys v')) 0 = [event XTCP_IFUP 0]"
proof -
  obtain v where v: "link_run ex_flags ex_env ex_lwip ex_cfg 2 [] v" "queues (sys v) = xtcp_init_queue ex_cfg ex_boot"
    "netif_notify_state v = 0" using ex_start by blast
  have "ctl ex_cfg (clients 2) (sys v)" by (rule server_reach_ctl [OF link_run_reach [OF v(1)]]) simp
  from ctl_notify_all_spec [OF this, of XTCP_IFUP] obtain q where
    q: "notify_all ex_cfg XTCP_IFUP (sys v) = Some ((sys v)\<lparr>queues := q\<rparr>)" by blast
  obtain v' where s: "server_step ex_flags ex_env ex_lwip ex_cfg (Timer 0) v = Some (Unit, v')" "netif_notify_state v' = 1"
    using q v(3) by (auto simp: timer_case_def ex_env_def Let_def)
  have "has_room ex_cfg 0 (sys v)" by (simp add: has_room_def valid_client_def v(2) xtcp_init_queue_queued)
  then have "queued (queues (sys v')) 0 = [event XTCP_IFUP 0]"
    using link_changes_announced [OF v(1) _ s(1), of True 0] v(2)
    by (auto simp: announced_def is_up_def ex_env_def xtcp_init_queue_queued)
  with v s show ?thesis by blast
qed

text \<open>Client 0 opens socket 0, the link goes down, and client 0 closes the socket: it is never told.\<close>

theorem closing_socket_zero_drops_link_events_witness:
  "\<exists>v v1 v2. server_reach ex_flags ex_env ex_lwip ex_cfg 2 v \<and>
     server_step ex_flags ex_env ex_lwip ex_cfg (Link_status False) v = Some (Unit, v1) \<and>
     queued (queues (sys v1)) 0 = [event XTCP_IFDOWN 0] \<and>
     server_step ex_flags ex_env ex_lwip ex_cfg (Close 0 0) v1 = Some (Unit, v2) \<and> queued (queues (sys v2)) 0 = []"
proof -
  let ?step = "server_step ex_flags ex_env ex_lwip ex_cfg"
  obtain v0 where v0: "link_run ex_flags ex_env ex_lwip ex_cfg 2 [] v0" "queues (sys v0) = xtcp_init_queue ex_cfg ex_boot"
    "connections (sys v0) = [deinit_entry, deinit_entry, deinit_entry]" "last_guid (sys v0) = 0" using ex_start by blast
  obtain r v where v: "?step (Socket 0 XTCP_PROTOCOL_UDP) v0 = Some (r, v)" "queues (sys v) = queues (sys v0)"
    "connections (sys v) = [deinit_entry\<lparr>c_is_active := 1, c_client_num := 0, c_protocol := XTCP_PROTOCOL_UDP\<rparr>,
      deinit_entry, deinit_entry]"
    using v0(3,4)
    by (auto simp: socket_case_def shim_new_socket_def assign_client_connection_def upd_conn_def new_udp_pcb_def
        ex_lwip_def deinit_entry_def reply_sys_def numeral_3_eq_3)
  have R: "server_reach ex_flags ex_env ex_lwip ex_cfg 2 v"
    by (rule server_reach.turn [OF link_run_reach [OF v0(1)] _ v(1)]) simp
  have e: "queued (queues (sys v)) 0 = []" by (simp add: v(2) v0(2) xtcp_init_queue_queued)
  obtain v1 where v1: "?step (Link_status False) v = Some (Unit, v1)" "queued (queues (sys v1)) 0 = [event XTCP_IFDOWN 0]"
    "connections (sys v1) = connections (sys v)" using ex_link_down [OF R e] by auto
  have o: "owner ex_cfg (sys v1) 0 = Some (0, XTCP_PROTOCOL_UDP)"
    by (simp add: owner_def v1(3) v(3) ex_in_range)
  have "clear_pending_rx_data_on_connection ex_lwip ex_cfg 0 (sys v1\<lparr>queues := q\<rparr>) = Some (sys v1\<lparr>queues := q\<rparr>)" for q
    by (simp add: clear_pending_rx_data_on_connection_def v1(3) v(3) deinit_entry_def)
  then obtain v2 where v2: "?step (Close 0 0) v1 = Some (Unit, v2)"
    using owner_entry(4) [OF o]
    by (cases "free_notifications_on_queue ex_cfg 0 0 (queues (sys v1))") (auto simp: shim_close_socket_def)
  have l: "run_lwip (handle_callback ex_flags ex_lwip ex_cfg) (xcore_net_link_down ex_env (lw (sys v))) (sys v) = Some ((), sys v)"
    by (simp add: ex_env_def)
  have "has_room ex_cfg 0 (sys v)" by (simp add: has_room_def valid_client_def e)
  from closing_socket_zero_drops_link_events [OF R _ v1(1) l _ this o v2] e R v1(1,2) v2 show ?thesis by auto
qed

end
