(* ===== verification/Unit_Tests.thy ===== *)
theory Unit_Tests
  imports Xtcp_Example
begin

text \<open>
  The unit tests of the repository, \<open>tests/unit/test_client_queue\<close> and
  \<open>tests/unit/test_connection\<close>, run on the model: each lemma has the name of a test and states what
  the test asserts (the tests of the return codes of a refused enqueue, \<open>XTCP_EINVAL\<close> and \<open>XTCP_ENOMEM\<close>, are
  part of the tests that the queue is unchanged). \<open>ex_cfg\<close> has the limits of \<open>tests/unit/include/xtcp_conf.h\<close>.
\<close>

section \<open>Event queues\<close>

text \<open>
  The tests do not start the notifications, so that \<open>n_xtcp\<close> is 0 and nobody is notified. The
  results are those of a sequence of calls after \<open>setUp\<close>.
\<close>

definition unit_queues :: queue_state where
  "unit_queues = xtcp_init_queue ex_cfg
     \<lparr>client_queue = [], client_heads = [], client_num_events = [], notify = \<lparr>n_xtcp = 0, i_xtcp = []\<rparr>\<rparr>"

definition unit_run :: "queue_op list \<Rightarrow> queue_out list option" where
  "unit_run ps = map_option fst (queue_run (enqueue_event_and_notify ex_cfg) (dequeue_event ex_cfg)
     (free_notifications_on_queue ex_cfg) ps unit_queues)"

lemma unit_run_fifo:
  "unit_run ps = Some (fst (fifo_run (\<lambda>c. unat c < 2) 2 ps (\<lambda>_. [])))"
proof -
  have "queued unit_queues = (\<lambda>_. [])" by (simp add: fun_eq_iff xtcp_init_queue_queued unit_queues_def)
  moreover have "queue_inv ex_cfg unit_queues" by (simp add: unit_queues_def xtcp_init_queue_inv)
  moreover have "notifiable (notify unit_queues) c" for c by (simp add: unit_queues_def notifiable_def)
  moreover have "valid_client ex_cfg = (\<lambda>c. unat c < 2)" by (simp add: fun_eq_iff valid_client_def)
  ultimately show ?thesis using cq.run_refines [of ex_cfg unit_queues ps] by (auto simp: unit_run_def)
qed

lemmas unit_queue_defs = unit_run_fifo fifo_enq_def fifo_deq_def fifo_purge_def no_event_def

lemma test_enqueue_and_dequeue_same_data:
  "unit_run [Enq 1 7 XTCP_NEW_CONNECTION, Deq 1] =
     Some [Code XTCP_SUCCESS, Event (event XTCP_NEW_CONNECTION 7)]"
  by (simp add: unit_queue_defs)

lemma test_enqueue_with_bad_client_num_leaves_queue_unchanged:
  "unit_run [Enq 3 7 XTCP_NEW_CONNECTION, Deq 1] = Some [Code XTCP_EINVAL, Event (event XTCP_EVENT_NONE (-1))]"
  by (simp add: unit_queue_defs)

lemma test_dequeue_from_empty_queue_reports_no_event:
  "unit_run [Deq 1] = Some [Event (event XTCP_EVENT_NONE (-1))]"
  by (simp add: unit_queue_defs)

lemma test_dequeue_with_bad_client_num_reports_no_event:
  "unit_run [Deq 3] = Some [Event (event XTCP_EVENT_NONE (-1))]"
  by (simp add: unit_queue_defs)

lemma test_full_enqueue_ignores_new_events:
  "unit_run [Enq 1 7 XTCP_NEW_CONNECTION, Enq 1 8 XTCP_NEW_CONNECTION, Enq 1 9 XTCP_RECV_DATA, Deq 1, Deq 1, Deq 1] =
     Some [Code XTCP_SUCCESS, Code XTCP_SUCCESS, Code XTCP_ENOMEM, Event (event XTCP_NEW_CONNECTION 7),
       Event (event XTCP_NEW_CONNECTION 8), Event (event XTCP_EVENT_NONE (-1))]"
  by (simp add: unit_queue_defs)

lemma test_renotify_with_bad_client_num: "renotify ex_cfg 100 unit_queues = Some unit_queues"
  by (simp add: renotify_def)

lemma test_free_notifications_from_tail_of_queue:
  "unit_run [Enq 1 7 XTCP_RECV_DATA, Enq 1 8 XTCP_RECV_DATA, Purge 1 8, Deq 1, Deq 1] =
     Some [Code XTCP_SUCCESS, Code XTCP_SUCCESS, Count 1, Event (event XTCP_RECV_DATA 7),
       Event (event XTCP_EVENT_NONE (-1))]"
  by (simp add: unit_queue_defs)

lemma test_free_notifications_from_head_of_queue:
  "unit_run [Enq 1 8 XTCP_RECV_DATA, Enq 1 7 XTCP_RECV_DATA, Purge 1 8, Deq 1, Deq 1] =
     Some [Code XTCP_SUCCESS, Code XTCP_SUCCESS, Count 1, Event (event XTCP_RECV_DATA 7),
       Event (event XTCP_EVENT_NONE (-1))]"
  by (simp add: unit_queue_defs)

lemma test_free_notifications_remove_none:
  "unit_run [Enq 1 7 XTCP_RECV_DATA, Enq 1 7 XTCP_RECV_DATA, Purge 1 8, Deq 1, Deq 1, Deq 1] =
     Some [Code XTCP_SUCCESS, Code XTCP_SUCCESS, Count 0, Event (event XTCP_RECV_DATA 7),
       Event (event XTCP_RECV_DATA 7), Event (event XTCP_EVENT_NONE (-1))]"
  by (simp add: unit_queue_defs)

lemma test_free_notifications_remove_all:
  "unit_run [Enq 1 7 XTCP_RECV_DATA, Enq 1 7 XTCP_RECV_DATA, Purge 1 7, Deq 1] =
     Some [Code XTCP_SUCCESS, Code XTCP_SUCCESS, Count 2, Event (event XTCP_EVENT_NONE (-1))]"
  by (simp add: unit_queue_defs)

section \<open>The socket table\<close>

text \<open>The table after \<open>setUp\<close>; buffer 4 is the test's buffer of 8 bytes.\<close>

definition unit_table :: "addr set xtcp_state" where
  "unit_table = init_client_connections ex_cfg
     \<lparr>connections = [], last_guid = 0, lw = ex_lw\<lparr>pbufs := [4 \<mapsto> ex_pbuf None (replicate 8 0) 0 0]\<rparr>, queues = unit_queues\<rparr>"

definition unit_assigned :: "addr set xtcp_state" where
  "unit_assigned = snd (assign_client_connection ex_cfg 0 XTCP_PROTOCOL_TCP unit_table)"

lemma unit_table_simps [simp]:
  "connections unit_table = [deinit_entry, deinit_entry, deinit_entry]" "last_guid unit_table = 0"
  "pbufs (lw unit_table) = [4 \<mapsto> ex_pbuf None (replicate 8 0) 0 0]"
  by (simp_all add: unit_table_def init_client_connections_def numeral_3_eq_3)

lemma test_new_list_is_empty: "is_active ex_cfg 0 unit_table = err_int32 XTCP_SUCCESS 0"
  by (simp add: is_active_def ex_in_range deinit_entry_def)

lemma test_first_connection_gives_zero_index:
  "assign_client_connection ex_cfg 0 XTCP_PROTOCOL_TCP unit_table = (err_int32 XTCP_SUCCESS 0, unit_assigned)"
  "connections unit_assigned = [deinit_entry\<lparr>c_is_active := 1, c_client_num := 0, c_protocol := XTCP_PROTOCOL_TCP\<rparr>,
     deinit_entry, deinit_entry]"
  by (simp_all add: unit_assigned_def assign_client_connection_def upd_conn_def deinit_entry_def numeral_3_eq_3)

lemma test_assign_connection_reports_active: "is_active ex_cfg 0 unit_assigned = err_int32 XTCP_SUCCESS 1"
  by (simp add: is_active_def ex_in_range test_first_connection_gives_zero_index)

lemma test_out_of_range_index_reports_fail: "status (is_active ex_cfg 999 unit_table) = XTCP_EINVAL"
  by (simp add: is_active_def ex_in_range)

lemma test_assign_two_connections_passes:
  "fst (assign_client_connection ex_cfg 0 XTCP_PROTOCOL_TCP unit_assigned) = err_int32 XTCP_SUCCESS 1"
  by (simp add: unit_assigned_def assign_client_connection_def upd_conn_def deinit_entry_def numeral_3_eq_3)

lemma test_assign_connection_then_find_succeeds:
  "find_client_connection ex_cfg 0 0 unit_assigned = err_int32 XTCP_SUCCESS 0"
  by (simp add: find_client_connection_def test_first_connection_gives_zero_index numeral_3_eq_3)

lemma test_assign_connection_then_get_client_matches: "get_client_info ex_cfg 0 unit_assigned = 0"
  by (simp add: get_client_info_def ex_in_range test_first_connection_gives_zero_index)

lemma test_assign_connection_then_free_reports_inactive:
  "is_active ex_cfg 0 (free_client_connection ex_cfg 0 unit_assigned) = err_int32 XTCP_SUCCESS 0"
  by (simp add: is_active_def free_client_connection_def upd_conn_def ex_in_range
      test_first_connection_gives_zero_index)

lemma test_set_remote_then_get_remote_matches:
  "\<exists>s. set_remote ex_cfg 0 (Some (192, 168, 1, 100)) 8080 (Some 4) unit_assigned = Some (XTCP_SUCCESS, s) \<and>
     get_remote ex_cfg 0 s = Some \<lparr>ipaddr = (192, 168, 1, 100), port_number = 8080\<rparr> \<and>
     get_remote_data ex_cfg 0 44 False s = Some (err_int32 XTCP_SUCCESS 8, Some (replicate 8 0), None)"
proof -
  have "pbufs (lw unit_assigned) = [4 \<mapsto> ex_pbuf None (replicate 8 0) 0 0]"
    by (simp add: unit_assigned_def assign_client_connection_def upd_conn_def split: option.splits)
  then show ?thesis
    by (simp add: set_remote_def get_remote_def get_remote_data_def ex_in_range store_pbuf_def upd_conn_def
        test_first_connection_gives_zero_index deinit_entry_def ex_pbuf_def)
qed

end
