(* ===== verification/Spec2Isabelle.thy ===== *)
theory Spec2Isabelle
  imports Socket_Properties Pressure_Properties Isolation_Properties Link_Properties Unit_Tests
begin

text \<open>
  Verification of \<open>lib_xtcp\<close>, the TCP/IP server library of XMOS on top of lwIP.

  \<^bold>\<open>The program.\<close> One server task (\<open>xtcp_lwip\<close> in
  \<open>lib_xtcp/src/xtcp_lwip.xc\<close>) owns the network stack. Clients call it through the interface
  \<open>xtcp_if\<close> of \<open>lib_xtcp/api/xtcp.h\<close>; each call is one case of a \<open>select\<close> loop,
  beside the cases for packets, link changes and timers. A call on a socket goes through
  \<open>lwip_shim.c\<close> to the socket table of \<open>connection.c\<close> and to lwIP. lwIP calls back
  (\<open>tcp_transport.c\<close>, \<open>udp_recv.c\<close>, \<open>dns_found.c\<close>): received buffers are
  chained to their socket in \<open>connection.c\<close>, and an event is put into the ring of the
  socket's client in \<open>client_queue.c\<close>, which notifies the client through
  \<open>xtcp_shim.xc\<close>. The client then calls \<open>get_event\<close>, and \<open>recv\<close> for the data.

  \<^bold>\<open>Model.\<close>
  \<^item> \<open>Xtcp_Prelude\<close>, \<open>Xtcp_Types\<close>: machine types, conventions, the types, error codes,
    limits and address macros of \<open>api/xtcp.h\<close>. The limits are a record \<open>xtcp_config\<close>, so
    every theorem is for all of them; \<open>default_config\<close> has the values of the header.
  \<^item> \<open>Xtcp_Shim\<close>: \<open>xtcp_shim.xc\<close>, one pending flag per client interface.
  \<^item> \<open>Client_Queue\<close>: \<open>client_queue.c\<close>, the arrays \<open>client_queue\<close>,
    \<open>client_heads\<close>, \<open>client_num_events\<close> and every function, index arithmetic included.
  \<^item> \<open>Lwip_Interface\<close>: what the library sees of lwIP. lwIP is a submodule, so its functions are
    the fields of a record argument and its private state a type variable; the structures whose fields
    the library touches itself live in explicit heaps.
  \<^item> \<open>Connection\<close>: \<open>connection.c\<close>, the table, \<open>last_guid\<close> and every function.
  \<^item> \<open>Xtcp_State\<close>: all statics together. \<open>Tcp_Transport\<close> (with \<open>shim_accept\<close>),
    \<open>Udp_Recv\<close>, \<open>Dns_Found\<close>: the callbacks. \<open>Lwip_Callbacks\<close>: running an lwIP
    function that calls back while it runs.
  \<^item> \<open>Pbuf_Shim\<close>, \<open>Lwip_Shim\<close>: \<open>pbuf_shim.c\<close> and \<open>lwip_shim.c\<close>, all functions.
  \<^item> \<open>Event_Delivery\<close> (\<open>get_event\<close>) and \<open>Xtcp_Lwip\<close>: the server task. The start
    of the task is \<open>server_init\<close>, the four macros are \<open>send_common\<close>,
    \<open>sendto_common\<close>, \<open>recv_common\<close>, \<open>recvfrom_common\<close>, each case of the select is
    a definition, and \<open>server_step\<close> is one turn of the loop for one \<open>server_input\<close>.

  A result \<open>None\<close> is undefined behaviour of the library's own code (a null or stale pointer that it
  follows, an index outside an array, a copy past the end of a buffer); error codes are ordinary results. lwIP's
  functions are total: handing lwIP a control block that it has freed is not \<open>None\<close>, and where such
  a call matters it is excluded by name (\<open>stale\<close> in \<open>Server_Safety\<close>). No definition uses fuel:
  the loops over arrays are structural or have a measure, and the two walks along a chain of buffers
  are partial functions, shown to return on every well-formed chain.

  \<^bold>\<open>Interfaces.\<close> Six locales state what one part promises the others, each interpreted on the
  definitions of the model: \<open>event_queue\<close> (in \<open>Event_Queue_Spec\<close>, interpreted in
  \<open>Client_Queue\<close>) is a bounded list of events per client; \<open>socket_table\<close> (in
  \<open>Socket_Table_Spec\<close>, interpreted in \<open>Connection_Table\<close>) is a finite map from ids to
  owners; \<open>rx_store\<close> and its extension \<open>rx_queues\<close> (in \<open>Rx_Queue_Spec\<close>, interpreted in
  \<open>Connection_Rx\<close>) are a list of received buffers per socket; \<open>simulation\<close> (in \<open>Service_Spec\<close>, interpreted in
  \<open>Service_Refinement\<close>) carries a simulation of turns to runs with their replies; its extension \<open>unwinding\<close> (interpreted in
  \<open>Isolation_Properties\<close>) carries the isolation of single turns to runs. What is assumed of lwIP is in predicates on the record of its
  functions: \<open>rx_contract\<close> (\<open>pbuf_free\<close> frees one chain, lwIP leaves the application's
  buffers alone), \<open>close_contract\<close> (the calls that close a control block leave them alone) and
  \<open>accept_contract\<close> (so do \<open>tcp_arg\<close> and \<open>tcp_setprio\<close>) and \<open>tx_contract\<close> (\<open>pbuf_alloc\<close> gives a fresh buffer
  of the length asked for, the calls that send leave the application's buffers alone); \<open>lwip_contract\<close> joins
  them and says the same of the other functions. A received packet is one buffer, not a chain of several.
  \<open>Xtcp_Example\<close> has an instance that meets the contracts, on which the witnesses are evaluated.

  \<^bold>\<open>Results.\<close>
  \<^item> \<open>Queue_Properties\<close>: the rings refine bounded queues, the compaction in place is a filter, the
    indices stay inside the arrays, every branch of an insertion, no notification is lost, and a client
    that keeps calling \<open>get_event\<close> gets all its events in order.
  \<^item> \<open>Socket_Properties\<close>: the table agrees with the history of allocations and releases, the first
    free slot in circular order is taken, an id is private to its client and not reused at once.
  \<^item> \<open>Callback_Properties\<close>: received TCP data is queued together with its event or refused without
    a trace; accepted connections, errors, datagrams and name lookups are reported to the right client.
    Two theorems show defects: a refused datagram stays linked after it is freed, and the data of a failed
    connection is handed to the next owner of its slot.
  \<^item> \<open>Server_Properties\<close>, \<open>Transfer_Properties\<close>, \<open>Session_Properties\<close>,
    \<open>Address_Properties\<close>: a call on a foreign socket is refused without effect; closing releases
    everything, reading takes the oldest buffer, sending hands over exactly the client's bytes; binding
    on every answer of lwIP; a datagram makes the round trip from the network to the
    client; announcements reach every client; options and data pointers are read back as they were set; the
    search loop of the table is an array access and the chain walks end. Four theorems show defects: a failed
    open keeps its slot, a long send overruns its buffer, the timestamp is read from a freed buffer,
    and an active connection is reported under socket 0.
  \<^item> \<open>Memory_Safety\<close>, \<open>Send_Safety\<close>, \<open>Call_Safety\<close>, \<open>Server_Safety\<close>: progress and preservation. What a
    proper callback, run of lwIP and input are is said in \<open>callback_ok\<close>, \<open>prog_ok\<close> and
    \<open>input_ok\<close>; after any sequence of proper inputs the server returns from the next turn and the chains
    of received buffers stay well formed, unless the turn is one of the library's faults, which are
    named in the conclusion and not assumed away (\<open>fault\<close>: a message of 65536 bytes or more, the timestamp read
    from a freed buffer, options and addresses of a socket without a live control block; \<open>stale\<close>: a call on a
    socket whose control block lwIP has freed). A lemma shows how the last arises. One condition
    on lwIP's callbacks is the library's own defect: a datagram needs room in its owner's event queue.
  \<^item> \<open>Service_Spec\<close>, \<open>Service_Refinement\<close>: the service that the library offers, as an
    abstract machine (the owner of each socket, a bounded queue of events per client, the packets waiting
    on each socket), and the proof that every run of the server with proper inputs gives the replies of
    a run of this machine. The theories of the previous item prove the simulation together with safety: each
    callback is some steps of the network (\<open>net_step\<close>), each turn of the loop one
    \<open>service_turn\<close>.
  \<^item> \<open>Isolation_Properties\<close>: noninterference between clients. Leaving the calls of other clients
    out of a run changes none of the replies that a client gets when it collects events, reads or closes.
    Opening a TCP socket is the one call excepted: lwIP may abort a connection of somebody else in it.
  \<^item> \<open>Stream_Properties\<close>: over any interleaving of arriving TCP data and datagrams, reads and collected
    events the reads of a socket take its packets one by one in order; a packet is returned whole, or
    dropped when it does not fit the client's array.
  \<^item> \<open>Link_Properties\<close>: \<open>XTCP_IFUP\<close> and \<open>XTCP_IFDOWN\<close> are announced as the history of the link calls for;
    a defect: closing socket 0 withdraws the announcement.
  \<^item> \<open>Pressure_Properties\<close>: opening a TCP socket when lwIP aborts another connection for it; the timers
    do not drift.
  \<^item> \<open>Control_Invariant\<close>, \<open>Server_Invariant\<close> and this theory: the invariant of the socket
    table, the event queues and the notifications holds in every state that the server reaches, through any
    sequence of inputs and whatever lwIP does; \<open>get_event\<close> is always served.
  \<^item> \<open>Unit_Tests\<close>: the repository's unit tests of the event queues and the socket table give on the
    model the results that they assert.

  \<^bold>\<open>Not modelled.\<close> lwIP, its network port and the Ethernet and MII libraries (parameters);
  \<open>debug_printf\<close> (no effect on the state); which of several ready inputs the xC runtime selects (the
  theorems are for every order); \<open>xc2compat.h\<close> and the guards that let one header serve C and xC
  (no behaviour); the examples and the test benches on the
  network, which use the library.
\<close>

section \<open>The whole server\<close>

text \<open>
  C3. In every state that the server reaches, from its initialisation and through any sequence of
  client calls, packets, link changes and timer expiries, whatever lwIP does in between: the socket
  table and the event queues are well formed, every open socket belongs to a connected client, and
  every client with queued events has a notification pending.
\<close>

theorem server_always_well_formed:
  assumes "server_reach F E L cfg n v" "config_ok cfg" "n \<noteq> 0"
  shows "table_inv cfg (sys v) \<and> queue_inv cfg (queues (sys v)) \<and>
    (\<forall>x c p. owner cfg (sys v) x = Some (c, p) \<longrightarrow> c < n) \<and>
    (\<forall>c. queued (queues (sys v)) c \<noteq> [] \<longrightarrow> pending (notify (queues (sys v))) c)"
proof -
  note C = server_reach_ctl [OF assms(1,2)]
  have "\<not> notifiable (notify (queues (sys v))) (- 1)"
    using ctlD(3) [OF C] assms(3) by (simp add: fun_eq_iff)
  then have "n_xtcp (notify (queues (sys v))) \<noteq> 0" by (auto simp: notifiable_def)
  with ctlD(5) [OF C] ctlD(1,2,4) [OF C] assms(3) show ?thesis by (auto simp: awake_def)
qed

theorem server_always_well_formed_witness:
  "\<exists>v. server_reach ex_flags ex_env ex_lwip ex_cfg 2 v \<and>
     queued (queues (sys v)) 0 = [event XTCP_IFDOWN 0] \<and> pending (notify (queues (sys v))) 0"
proof -
  obtain v where v: "server_reach ex_flags ex_env ex_lwip ex_cfg 2 v"
    "queued (queues (sys v)) 0 = [event XTCP_IFDOWN 0]" using ex_server_link_down by blast
  with server_always_well_formed [OF v(1)] show ?thesis by auto
qed

text \<open>
  C15. A client's \<open>get_event\<close> is always served: in every reachable state, for every connected
  client, the call returns the oldest event of that client's queue and removes it, or
  \<open>XTCP_EVENT_NONE\<close> with id -1 when the queue is empty, and leaves the other clients' events
  and the sockets alone.
\<close>

theorem get_event_always_served:
  assumes "server_reach F E L cfg n v" "config_ok cfg" "c < n"
  shows "\<exists>e x v'. server_step F E L cfg (Get_event c) v = Some (Event_reply e x, v') \<and>
    event e x = (case queued (queues (sys v)) c of [] \<Rightarrow> event XTCP_EVENT_NONE (-1) | y # _ \<Rightarrow> y) \<and>
    queued (queues (sys v')) = (queued (queues (sys v)))(c := tl (queued (queues (sys v)) c)) \<and>
    connections (sys v') = connections (sys v)"
proof -
  note C = ctlD [OF server_reach_ctl [OF assms(1,2)]]
  have "notifiable (notify (queues (sys v))) c" using C(3) assms(3) by (simp add: fun_eq_iff)
  then obtain e x q where g: "get_event cfg c (queues (sys v)) = Some ((e, x), q)"
    using get_event_total [OF C(2)] by blast
  with get_event_spec(1,2) [OF C(2) g] show ?thesis by (auto simp: no_event_def split: list.splits)
qed

theorem get_event_always_served_witness:
  "\<exists>v v'. server_reach ex_flags ex_env ex_lwip ex_cfg 2 v \<and>
     server_step ex_flags ex_env ex_lwip ex_cfg (Get_event 0) v = Some (Event_reply XTCP_IFDOWN 0, v')"
proof -
  obtain v where v: "server_reach ex_flags ex_env ex_lwip ex_cfg 2 v"
    "queued (queues (sys v)) 0 = [event XTCP_IFDOWN 0]" using ex_server_link_down by blast
  with get_event_always_served [OF v(1), of 0] show ?thesis by auto
qed

end
